theory Spec2Isabelle
  imports Complex_Main
begin

section \<open>The evaluation engine of spii: \<open>source/function.cpp\<close>\<close>

text \<open>
  The development embeds \<open>Function\<close> and \<open>Function::Implementation\<close> of
  \<open>source/function.cpp\<close>, for the build without \<open>USE_OPENMP\<close>: one thread,
  \<open>t = 0\<close> in every evaluation loop, \<open>set_number_of_threads\<close> without effect.

  Conventions of the embedding.
  \<^item> \<open>double\<close> is modelled by \<open>real\<close>. The engine itself only copies and adds
    scalars; rounding is not modelled.
  \<^item> A \<open>double*\<close> naming a caller's parameter block is its address, a \<open>nat\<close>.
    An \<open>AddedVariable*\<close> held by a term points into a node of the \<open>std::map\<close>;
    nodes are never erased, so the pointer is modelled by the node's key.
  \<^item> \<open>int\<close> is \<open>int\<close>. \<open>size_t\<close> is a \<open>nat\<close> below \<open>2 ^ 64\<close>; the one
    place where the source does arithmetic into a \<open>size_t\<close> field from an \<open>int\<close>
    (\<open>number_of_scalars += solver_dimension\<close>) has the wrap-around written out.
  \<^item> A C++ exception is an \<open>error\<close> value. A mutating operation returns the state it
    leaves behind together with the error, since the caller may catch and go on.
  \<^item> An access outside a vector or matrix (undefined behaviour in C++, an assertion
    of Eigen in debug builds) is the error \<open>OutOfBounds\<close>.
  \<^item> A term and a transform are code of the caller and may throw. Their functions
    return an option, \<open>None\<close> for a call that throws, and the engine passes the
    failure on as \<open>TermEvaluationFailure\<close> or \<open>TransformFailure\<close>.
  \<^item> The timing and call counters of \<open>Function\<close> (\<open>wall_time\<close>) and the set
    \<open>added_terms\<close>, which only the destructor reads, are left out.
  \<^item> Memory exhaustion (\<open>std::bad_alloc\<close>) is not modelled.
\<close>

subsection \<open>Errors\<close>

text \<open>
  Every \<open>std::runtime_error\<close> of the source, named as in the specification:
  \<^item> \<open>DimensionMismatch\<close>: "Function::add_variable: dimension mismatch."
  \<^item> \<open>TransformDimensionMismatch\<close>: "dimension does not match the change of variables.",
    "x_dimension can not change.", "t_dimension can not change."
  \<^item> \<open>ArityMismatch\<close>: "Function::add_term: incorrect number of arguments."
  \<^item> \<open>UnknownVariable\<close>: "Function::add_term: unknown variable."
  \<^item> \<open>VariableDimensionMismatch\<close>: "Function::add_term: variable dimension does not match term."
  \<^item> \<open>HessianDisabled\<close>: "Function::evaluate: Hessian computation is not enabled."
  \<^item> \<open>NullHessianTarget\<close>: "Function::evaluate: hessian can not be null."
  \<^item> \<open>UnsupportedTransformForHessian\<close>: "Change of variables not supported for Hessians",
    "Change of variables not supported for sparse Hessian"
  \<^item> \<open>LengthError\<close>: the \<open>std::length_error\<close> of \<open>std::vector::resize\<close> called with a
    negative \<open>int\<close> (converted to a huge \<open>size_t\<close>).
  \<^item> \<open>OutOfBounds\<close>: an access outside a buffer.
  \<^item> \<open>TermEvaluationFailure\<close>: whatever an \<open>evaluate\<close> of a term throws. In the build
    at hand the exception leaves the loop over the terms at once.
  \<^item> \<open>TransformFailure\<close>: whatever \<open>t_to_x\<close> or \<open>update_gradient\<close> of a transform
    throws; the specification has no name for it.
\<close>

datatype error =
    DimensionMismatch
  | TransformDimensionMismatch
  | LengthError
  | ArityMismatch
  | UnknownVariable
  | VariableDimensionMismatch
  | HessianDisabled
  | NullHessianTarget
  | UnsupportedTransformForHessian
  | OutOfBounds
  | TermEvaluationFailure
  | TransformFailure

subsection \<open>Capabilities supplied from outside: transforms and terms\<close>

text \<open>
  Modelled from the spec: \<open>ChangeOfVariables\<close> is declared in a header that is not part
  of the sources at hand; only its calls are. Following section 6 of the specification
  (\<open>input_dimension\<close>, \<open>output_dimension\<close>, \<open>to_user(out, in)\<close>,
  \<open>to_optimization(out, in)\<close>, \<open>project_gradient(accumulator, value, gradient)\<close>), with
  the names the source calls: \<open>t_to_x\<close> maps the \<open>t_dimension\<close> scalars of the
  optimization space to the scalars it writes to the user-space buffer;
  \<open>update_gradient acc t g\<close> returns the new contents of the accumulator slice.
  A call that throws returns \<open>None\<close>; what it has written to its output before is
  not modelled.
\<close>

record ChangeOfVariables =
  x_dimension :: int
  t_dimension :: int
  t_to_x :: "real list \<Rightarrow> real list option"
  x_to_t :: "real list \<Rightarrow> real list option"
  update_gradient :: "real list \<Rightarrow> real list \<Rightarrow> real list \<Rightarrow> real list option"

text \<open>
  Modelled from the spec: \<open>Term\<close> is declared in a header that is not part of the sources
  at hand. Following section 6 of the specification (\<open>arity\<close>, \<open>argument_dimension(k)\<close>,
  \<open>evaluate(args) -> double\<close>, \<open>evaluate(args) -> (double, gradient_blocks)\<close>,
  \<open>evaluate(args) -> (double, gradient_blocks, hessian_blocks)\<close>), with the names the
  source calls. The arguments are the scratch buffers of the term's variables, in
  order. A gradient block is given by its entries \<open>g var i\<close>, a Hessian block by its
  entries \<open>h var0 var1 i j\<close>: the values the term writes to the buffers it is handed.
  An evaluation that throws (section 7 of the specification, \<open>TermEvaluationFailure\<close>)
  returns \<open>None\<close>; what it has written to its buffers before is not modelled.
\<close>

record Term =
  number_of_variables :: int
  variable_dimension :: "int \<Rightarrow> int"
  term_evaluate :: "real list list \<Rightarrow> real option"
  term_evaluate_gradient :: "real list list \<Rightarrow> (real \<times> (nat \<Rightarrow> nat \<Rightarrow> real)) option"
  term_evaluate_hessian ::
    "real list list \<Rightarrow>
       (real \<times> (nat \<Rightarrow> nat \<Rightarrow> real) \<times> (nat \<Rightarrow> nat \<Rightarrow> nat \<Rightarrow> nat \<Rightarrow> real)) option"

subsection \<open>The data of \<open>Function::Implementation\<close>\<close>

type_synonym addr = nat

record AddedVariable =
  user_dimension :: int
  solver_dimension :: int
  global_index :: nat
  change_of_variables :: "ChangeOfVariables option"
  temp_space :: "real list"

text \<open>
  \<open>temp_variables\<close> of the source holds, for each argument, the address of the
  \<open>temp_space\<close> of the variable \<open>user_variables\<close> points to; it is read through
  \<open>user_variables\<close> here. \<open>hessian\<close> is the per-binding storage
  \<open>hessian[var0][var1]\<close>, each block a list of rows.
\<close>

record AddedTerm =
  added_term :: Term
  user_variables :: "addr list"
  hessian :: "real list list list list"

text \<open>
  \<open>variables\<close> is the \<open>std::map<double*, AddedVariable>\<close>: an association list kept
  in ascending order of the keys, which is the order the map is iterated in.
  \<open>thread_gradient_storage\<close> is the accumulator of thread \<open>0\<close>.
\<close>

record Function =
  variables :: "(addr \<times> AddedVariable) list"
  number_of_scalars :: nat
  terms :: "AddedTerm list"
  hessian_is_enabled :: bool
  local_storage_allocated :: bool
  thread_gradient_storage :: "real list"
  number_of_hessian_elements :: nat

text \<open>The constructor \<open>Function::Function\<close>.\<close>

definition Function_new :: Function where
  "Function_new =
     \<lparr> variables = [], number_of_scalars = 0, terms = [], hessian_is_enabled = True,
       local_storage_allocated = False, thread_gradient_storage = [],
       number_of_hessian_elements = 0 \<rparr>"

subsection \<open>The map of variables\<close>

text \<open>\<open>variables.find\<close>.\<close>

definition find_variable :: "Function \<Rightarrow> addr \<Rightarrow> AddedVariable option" where
  "find_variable f variable = map_of (variables f) variable"

text \<open>Insertion of a node for a key that \<open>find\<close> has not found, at its place in the order.\<close>

fun map_insert :: "addr \<Rightarrow> 'v \<Rightarrow> (addr \<times> 'v) list \<Rightarrow> (addr \<times> 'v) list" where
  "map_insert k v [] = [(k, v)]"
| "map_insert k v ((k', v') # xs) =
     (if k < k' then (k, v) # (k', v') # xs
      else if k = k' then (k, v) # xs
      else (k', v') # map_insert k v xs)"

text \<open>Assignment through the reference \<open>itr->second\<close> to the node that \<open>find\<close> has found.\<close>

fun map_assign :: "addr \<Rightarrow> 'v \<Rightarrow> (addr \<times> 'v) list \<Rightarrow> (addr \<times> 'v) list" where
  "map_assign k v [] = []"
| "map_assign k v ((k', v') # xs) =
     (if k = k' then (k, v) # xs else (k', v') # map_assign k v xs)"

text \<open>\<open>get_number_of_variables\<close>, \<open>get_number_of_scalars\<close>, \<open>get_number_of_terms\<close>.\<close>

definition get_number_of_variables :: "Function \<Rightarrow> nat" where
  "get_number_of_variables f = length (variables f)"

definition get_number_of_scalars :: "Function \<Rightarrow> nat" where
  "get_number_of_scalars f = number_of_scalars f"

definition get_number_of_terms :: "Function \<Rightarrow> nat" where
  "get_number_of_terms f = length (terms f)"

subsection \<open>\<open>add_variable_internal\<close>\<close>

text \<open>\<open>number_of_scalars += solver_dimension\<close>: the \<open>int\<close> is converted to \<open>size_t\<close>
  and the sum wraps at \<open>2 ^ 64\<close>.\<close>

definition size_t_add_int :: "nat \<Rightarrow> int \<Rightarrow> nat" where
  "size_t_add_int n d = nat ((int n + d) mod 2 ^ 64)"

text \<open>
  The value-initialised \<open>AddedVariable\<close> that \<open>variables[variable]\<close> creates.
\<close>

definition AddedVariable_new :: AddedVariable where
  "AddedVariable_new =
     \<lparr> user_dimension = 0, solver_dimension = 0, global_index = 0,
       change_of_variables = None, temp_space = [] \<rparr>"

text \<open>
  The part of \<open>add_variable_internal\<close> after the dimensions are set: the scratch space
  is resized (which throws for a negative dimension), then the offset is assigned.
\<close>

definition allocate_variable :: "addr \<Rightarrow> AddedVariable \<Rightarrow> Function \<Rightarrow> error option \<times> Function" where
  "allocate_variable variable var_info f =
     (if user_dimension var_info < 0
      then (Some LengthError, f\<lparr>variables := map_insert variable var_info (variables f)\<rparr>)
      else
        let var_info' = var_info\<lparr>temp_space := replicate (nat (user_dimension var_info)) 0,
                                  global_index := number_of_scalars f\<rparr>
        in (None, f\<lparr>variables := map_insert variable var_info' (variables f),
                     number_of_scalars :=
                       size_t_add_int (number_of_scalars f) (solver_dimension var_info')\<rparr>))"

definition add_variable_internal ::
  "addr \<Rightarrow> int \<Rightarrow> ChangeOfVariables option \<Rightarrow> Function \<Rightarrow> error option \<times> Function" where
  "add_variable_internal variable dimension cov f0 =
     (let f = f0\<lparr>local_storage_allocated := False\<rparr> in
      case find_variable f variable of
        Some var_info \<Rightarrow>
          if user_dimension var_info \<noteq> dimension then (Some DimensionMismatch, f)
          else
            let f' = f\<lparr>variables :=
                         map_assign variable (var_info\<lparr>change_of_variables := cov\<rparr>) (variables f)\<rparr>
            in (case cov of
                  None \<Rightarrow> (None, f')
                | Some c \<Rightarrow>
                    if user_dimension var_info \<noteq> x_dimension c
                    then (Some TransformDimensionMismatch, f')
                    else if solver_dimension var_info \<noteq> t_dimension c
                    then (Some TransformDimensionMismatch, f')
                    else (None, f'))
      | None \<Rightarrow>
          let var_info = AddedVariable_new\<lparr>change_of_variables := cov\<rparr> in
          (case cov of
             Some c \<Rightarrow>
               if dimension \<noteq> x_dimension c
               then (Some TransformDimensionMismatch,
                     f\<lparr>variables := map_insert variable var_info (variables f)\<rparr>)
               else allocate_variable variable
                      (var_info\<lparr>user_dimension := x_dimension c,
                                 solver_dimension := t_dimension c\<rparr>) f
           | None \<Rightarrow>
               allocate_variable variable
                 (var_info\<lparr>user_dimension := dimension, solver_dimension := dimension\<rparr>) f))"

text \<open>\<open>Function::add_variable(double*, int)\<close>.\<close>

definition add_variable :: "addr \<Rightarrow> int \<Rightarrow> Function \<Rightarrow> error option \<times> Function" where
  "add_variable variable dimension f = add_variable_internal variable dimension None f"

subsection \<open>\<open>add_term\<close>\<close>

text \<open>
  The first loop of \<open>add_term\<close>, over \<open>var = 0, ..., number_of_variables - 1\<close>; it
  leaves at the first argument that fails a check.
\<close>

fun check_arguments :: "Function \<Rightarrow> Term \<Rightarrow> addr list \<Rightarrow> nat list \<Rightarrow> error option" where
  "check_arguments f trm arguments [] = None"
| "check_arguments f trm arguments (var # vars) =
     (case find_variable f (arguments ! var) of
        None \<Rightarrow> Some UnknownVariable
      | Some var_info \<Rightarrow>
          if user_dimension var_info \<noteq> variable_dimension trm (int var)
          then Some VariableDimensionMismatch
          else check_arguments f trm arguments vars)"

text \<open>The storage \<open>hessian[var0][var1]\<close>, resized to the dimensions the term declares.\<close>

definition allocate_hessian :: "Term \<Rightarrow> real list list list list" where
  "allocate_hessian trm =
     map (\<lambda>var0. map (\<lambda>var1.
            replicate (nat (variable_dimension trm (int var0)))
              (replicate (nat (variable_dimension trm (int var1))) 0))
          [0..<nat (number_of_variables trm)])
       [0..<nat (number_of_variables trm)]"

definition add_term :: "Term \<Rightarrow> addr list \<Rightarrow> Function \<Rightarrow> error option \<times> Function" where
  "add_term trm arguments f0 =
     (let f = f0\<lparr>local_storage_allocated := False\<rparr> in
      if number_of_variables trm \<noteq> int (length arguments) then (Some ArityMismatch, f)
      else
        case check_arguments f trm arguments [0..<nat (number_of_variables trm)] of
          Some e \<Rightarrow> (Some e, f)
        | None \<Rightarrow>
            (None,
             f\<lparr>terms := terms f @
                 [\<lparr> added_term = trm,
                    user_variables = map (\<lambda>var. arguments ! var) [0..<nat (number_of_variables trm)],
                    hessian = (if hessian_is_enabled f then allocate_hessian trm else []) \<rparr>]\<rparr>))"

subsection \<open>Loops that may throw, and bounds-checked buffers\<close>

text \<open>
  A \<open>for\<close> loop whose body may throw: the body is run on each element in turn and the
  loop is left at the first error, with the state as the body left it.
\<close>

fun fold_throw :: "('a \<Rightarrow> 's \<Rightarrow> error option \<times> 's) \<Rightarrow> 'a list \<Rightarrow> 's \<Rightarrow> error option \<times> 's" where
  "fold_throw body [] s = (None, s)"
| "fold_throw body (a # as) s =
     (case body a s of
        (Some e, s') \<Rightarrow> (Some e, s')
      | (None, s') \<Rightarrow> fold_throw body as s')"

text \<open>\<open>v[k] += a\<close> on a vector.\<close>

definition add_at :: "real list \<Rightarrow> nat \<Rightarrow> real \<Rightarrow> error option \<times> real list" where
  "add_at v k a = (if k < length v then (None, v[k := v ! k + a]) else (Some OutOfBounds, v))"

text \<open>\<open>v[k] = a\<close> on a vector.\<close>

definition set_at :: "real list \<Rightarrow> nat \<Rightarrow> real \<Rightarrow> error option \<times> real list" where
  "set_at v k a = (if k < length v then (None, v[k := a]) else (Some OutOfBounds, v))"

text \<open>The \<open>len\<close> scalars a callee reads through the pointer \<open>&v[off]\<close>.\<close>

definition read_slice :: "real list \<Rightarrow> nat \<Rightarrow> nat \<Rightarrow> error + real list" where
  "read_slice v off len =
     (if off + len \<le> length v then Inr (take len (drop off v)) else Inl OutOfBounds)"

text \<open>The scalars \<open>new\<close> a callee writes through the pointer \<open>&v[off]\<close>.\<close>

definition write_slice :: "real list \<Rightarrow> nat \<Rightarrow> real list \<Rightarrow> error option \<times> real list" where
  "write_slice v off new =
     (if off + length new \<le> length v
      then (None, take off v @ new @ drop (off + length new) v)
      else (Some OutOfBounds, v))"

text \<open>\<open>Eigen::VectorXd::resize\<close> (the new entries are not initialised in the source; every
  caller sets them to zero before reading) and \<open>setZero\<close>.\<close>

definition resize_vector :: "real list \<Rightarrow> nat \<Rightarrow> real list" where
  "resize_vector v n = (if length v = n then v else replicate n 0)"

definition setZero :: "real list \<Rightarrow> real list" where
  "setZero v = replicate (length v) 0"

text \<open>Dereferencing an \<open>AddedVariable*\<close>. In the source the pointer always refers to a
  node of the map; a key without a node stands for a dangling pointer.\<close>

definition deref_variable :: "Function \<Rightarrow> addr \<Rightarrow> error + AddedVariable" where
  "deref_variable f p = (case find_variable f p of None \<Rightarrow> Inl OutOfBounds | Some v \<Rightarrow> Inr v)"

subsection \<open>\<open>allocate_local_storage\<close> and \<open>copy_global_to_local\<close>\<close>

text \<open>
  \<open>thread_gradient_scratch\<close> is sized to the largest arity and the largest user
  dimension, so every \<open>thread_gradient_scratch[t][var][i]\<close> the engine reads lies
  inside it; it holds the gradient blocks a term returns and is not kept in the state.
\<close>

definition allocate_local_storage :: "Function \<Rightarrow> Function" where
  "allocate_local_storage f =
     f\<lparr>thread_gradient_storage := resize_vector (thread_gradient_storage f) (number_of_scalars f),
       local_storage_allocated := True\<rparr>"

definition copy_variable :: "real list \<Rightarrow> AddedVariable \<Rightarrow> error option \<times> AddedVariable" where
  "copy_variable x var_info =
     (case change_of_variables var_info of
        None \<Rightarrow>
          (case fold_throw (\<lambda>i ts. if global_index var_info + i < length x
                                    then set_at ts i (x ! (global_index var_info + i))
                                    else (Some OutOfBounds, ts))
                  [0..<nat (user_dimension var_info)] (temp_space var_info) of
             (e, ts) \<Rightarrow> (e, var_info\<lparr>temp_space := ts\<rparr>))
      | Some c \<Rightarrow>
          (case read_slice x (global_index var_info) (nat (t_dimension c)) of
             Inl e \<Rightarrow> (Some e, var_info)
           | Inr t \<Rightarrow>
               (case t_to_x c t of
                  None \<Rightarrow> (Some TransformFailure, var_info)
                | Some new \<Rightarrow>
                    (case write_slice (temp_space var_info) 0 new of
                       (e, ts) \<Rightarrow> (e, var_info\<lparr>temp_space := ts\<rparr>)))))"

fun copy_variables ::
  "real list \<Rightarrow> (addr \<times> AddedVariable) list \<Rightarrow> error option \<times> (addr \<times> AddedVariable) list" where
  "copy_variables x [] = (None, [])"
| "copy_variables x ((p, var_info) # vs) =
     (case copy_variable x var_info of
        (Some e, var_info') \<Rightarrow> (Some e, (p, var_info') # vs)
      | (None, var_info') \<Rightarrow>
          (case copy_variables x vs of (e, vs') \<Rightarrow> (e, (p, var_info') # vs')))"

definition copy_global_to_local :: "real list \<Rightarrow> Function \<Rightarrow> error option \<times> Function" where
  "copy_global_to_local x f =
     (case copy_variables x (variables f) of (e, vs) \<Rightarrow> (e, f\<lparr>variables := vs\<rparr>))"

subsection \<open>\<open>evaluate(x)\<close>: the value alone\<close>

text \<open>The argument buffers \<open>&terms[i].temp_variables[0]\<close> handed to a term.\<close>

fun term_arguments :: "Function \<Rightarrow> addr list \<Rightarrow> error + real list list" where
  "term_arguments f [] = Inr []"
| "term_arguments f (p # ps) =
     (case deref_variable f p of
        Inl e \<Rightarrow> Inl e
      | Inr var_info \<Rightarrow>
          (case term_arguments f ps of
             Inl e \<Rightarrow> Inl e
           | Inr args \<Rightarrow> Inr (temp_space var_info # args)))"

definition evaluate_from_local_storage :: "Function \<Rightarrow> error + real" where
  "evaluate_from_local_storage f =
     (case fold_throw
             (\<lambda>added value.
                case term_arguments f (user_variables added) of
                  Inl e \<Rightarrow> (Some e, value)
                | Inr args \<Rightarrow>
                    (case term_evaluate (added_term added) args of
                       None \<Rightarrow> (Some TermEvaluationFailure, value)
                     | Some v \<Rightarrow> (None, value + v)))
             (terms f) 0 of
        (Some e, value) \<Rightarrow> Inl e
      | (None, value) \<Rightarrow> Inr value)"

definition evaluate :: "Function \<Rightarrow> real list \<Rightarrow> (error + real) \<times> Function" where
  "evaluate f x =
     (case copy_global_to_local x f of
        (Some e, f') \<Rightarrow> (Inl e, f')
      | (None, f') \<Rightarrow> (evaluate_from_local_storage f', f'))"

subsection \<open>Dense matrices and the Hessian storage of a binding\<close>

text \<open>A \<open>MatrixXd\<close> is the list of its rows. \<open>resize(n, m)\<close> followed by \<open>setZero()\<close>:\<close>

definition zero_matrix :: "nat \<Rightarrow> nat \<Rightarrow> real list list" where
  "zero_matrix n m = replicate n (replicate m 0)"

text \<open>\<open>M(i, j)\<close> and \<open>M.coeffRef(i, j) += a\<close>.\<close>

definition matrix_at :: "real list list \<Rightarrow> nat \<Rightarrow> nat \<Rightarrow> error + real" where
  "matrix_at M i j =
     (if i < length M \<and> j < length (M ! i) then Inr (M ! i ! j) else Inl OutOfBounds)"

definition matrix_add_at :: "real list list \<Rightarrow> nat \<Rightarrow> nat \<Rightarrow> real \<Rightarrow> error option \<times> real list list" where
  "matrix_add_at M i j a =
     (if i < length M \<and> j < length (M ! i)
      then (None, M[i := (M ! i)[j := M ! i ! j + a]])
      else (Some OutOfBounds, M))"

text \<open>\<open>itr->hessian[var0][var1]\<close>.\<close>

definition hessian_block :: "AddedTerm \<Rightarrow> nat \<Rightarrow> nat \<Rightarrow> error + real list list" where
  "hessian_block added var0 var1 =
     (if var0 < length (hessian added) \<and> var1 < length (hessian added ! var0)
      then Inr (hessian added ! var0 ! var1) else Inl OutOfBounds)"

text \<open>\<open>itr->user_variables[var]\<close>, dereferenced.\<close>

definition user_variable :: "Function \<Rightarrow> AddedTerm \<Rightarrow> nat \<Rightarrow> error + AddedVariable" where
  "user_variable f added var =
     (if var < length (user_variables added)
      then deref_variable f (user_variables added ! var) else Inl OutOfBounds)"

text \<open>A term that is handed \<open>&terms[i].hessian\<close> writes its Hessian blocks to the
  entries that storage has.\<close>

definition fill_hessian ::
  "(nat \<Rightarrow> nat \<Rightarrow> nat \<Rightarrow> nat \<Rightarrow> real) \<Rightarrow> real list list list list \<Rightarrow> real list list list list" where
  "fill_hessian h st =
     map (\<lambda>var0. map (\<lambda>var1. map (\<lambda>i. map (\<lambda>j. h var0 var1 i j)
                                        [0..<length (st ! var0 ! var1 ! i)])
                              [0..<length (st ! var0 ! var1)])
                    [0..<length (st ! var0)])
       [0..<length st]"

subsection \<open>The term loop and the gradient\<close>

text \<open>The loop over \<open>i < user_dimension\<close> that adds a gradient block to the accumulator.\<close>

definition scatter_block :: "AddedVariable \<Rightarrow> (nat \<Rightarrow> real) \<Rightarrow> real list \<Rightarrow> error option \<times> real list" where
  "scatter_block var_info g storage =
     fold_throw (\<lambda>i s. add_at s (global_index var_info + i) (g i))
       [0..<nat (user_dimension var_info)] storage"

text \<open>The body of the loop over \<open>var\<close> in the dense \<open>evaluate\<close>: lines 614 to 629.\<close>

definition scatter_variable_dense ::
  "real list \<Rightarrow> AddedVariable \<Rightarrow> (nat \<Rightarrow> real) \<Rightarrow> real list \<Rightarrow> error option \<times> real list" where
  "scatter_variable_dense x var_info g storage =
     (case change_of_variables var_info of
        None \<Rightarrow> scatter_block var_info g storage
      | Some c \<Rightarrow>
          (case read_slice storage (global_index var_info) (nat (t_dimension c)) of
             Inl e \<Rightarrow> (Some e, storage)
           | Inr acc \<Rightarrow>
               (case read_slice x (global_index var_info) (nat (t_dimension c)) of
                  Inl e \<Rightarrow> (Some e, storage)
                | Inr t \<Rightarrow>
                    (case update_gradient c acc t (map g [0..<nat (user_dimension var_info)]) of
                       None \<Rightarrow> (Some TransformFailure, storage)
                     | Some new \<Rightarrow> write_slice storage (global_index var_info) new))))"

text \<open>The body of the loop over \<open>var\<close> in the sparse \<open>evaluate\<close>: lines 774 to 782.\<close>

definition scatter_variable_sparse ::
  "AddedVariable \<Rightarrow> (nat \<Rightarrow> real) \<Rightarrow> real list \<Rightarrow> error option \<times> real list" where
  "scatter_variable_sparse var_info g storage =
     (case change_of_variables var_info of
        Some c \<Rightarrow> (Some UnsupportedTransformForHessian, storage)
      | None \<Rightarrow> scatter_block var_info g storage)"

text \<open>The loop over \<open>var < variables.size()\<close> of one binding.\<close>

definition scatter_gradient ::
  "(AddedVariable \<Rightarrow> (nat \<Rightarrow> real) \<Rightarrow> real list \<Rightarrow> error option \<times> real list) \<Rightarrow>
   Function \<Rightarrow> AddedTerm \<Rightarrow> (nat \<Rightarrow> nat \<Rightarrow> real) \<Rightarrow> real list \<Rightarrow> error option \<times> real list" where
  "scatter_gradient scatter_variable f added g storage =
     fold_throw (\<lambda>var s.
                   case user_variable f added var of
                     Inl e \<Rightarrow> (Some e, s)
                   | Inr var_info \<Rightarrow> scatter_variable var_info (g var) s)
       [0..<length (user_variables added)] storage"

text \<open>
  The body of the loop over the terms, for \<open>terms[i]\<close>. With \<open>with_hessian\<close> the term
  is handed its Hessian storage, which it fills. A term that throws leaves the loop
  before \<open>value\<close> is updated. The state of the loop is the value accumulated so far
  and the \<open>Function\<close>.
\<close>

definition evaluate_term ::
  "bool \<Rightarrow> (AddedVariable \<Rightarrow> (nat \<Rightarrow> real) \<Rightarrow> real list \<Rightarrow> error option \<times> real list) \<Rightarrow>
   nat \<Rightarrow> real \<times> Function \<Rightarrow> error option \<times> (real \<times> Function)" where
  "evaluate_term with_hessian scatter_variable i = (\<lambda>(value, f).
     let added = terms f ! i in
     case term_arguments f (user_variables added) of
       Inl e \<Rightarrow> (Some e, (value, f))
     | Inr args \<Rightarrow>
         (case (if with_hessian
                then map_option
                       (\<lambda>(v, g, h). (v, g, added\<lparr>hessian := fill_hessian h (hessian added)\<rparr>))
                       (term_evaluate_hessian (added_term added) args)
                else map_option (\<lambda>(v, g). (v, g, added))
                       (term_evaluate_gradient (added_term added) args)) of
            None \<Rightarrow> (Some TermEvaluationFailure, (value, f))
          | Some (v, g, added') \<Rightarrow>
              (case scatter_gradient scatter_variable f added' g (thread_gradient_storage f) of
                 (e, storage) \<Rightarrow>
                   (e, (value + v,
                        f\<lparr>terms := (terms f)[i := added'], thread_gradient_storage := storage\<rparr>)))))"

definition evaluate_terms ::
  "bool \<Rightarrow> (AddedVariable \<Rightarrow> (nat \<Rightarrow> real) \<Rightarrow> real list \<Rightarrow> error option \<times> real list) \<Rightarrow>
   Function \<Rightarrow> error option \<times> (real \<times> Function)" where
  "evaluate_terms with_hessian scatter_variable f =
     fold_throw (evaluate_term with_hessian scatter_variable) [0..<length (terms f)] (0, f)"

text \<open>"Create the global gradient": lines 657 to 665 and 810 to 818.\<close>

definition create_global_gradient :: "Function \<Rightarrow> real list \<Rightarrow> error option \<times> real list" where
  "create_global_gradient f gradient =
     (let g = setZero (resize_vector gradient (number_of_scalars f)) in
      if length (thread_gradient_storage f) = length g
      then (None, map2 (+) g (thread_gradient_storage f))
      else (Some OutOfBounds, g))"

subsection \<open>The dense Hessian and the dense \<open>evaluate\<close>\<close>

text \<open>The loops over \<open>i\<close> and \<open>j\<close>: lines 686 to 691.\<close>

definition add_hessian_block ::
  "real list list \<Rightarrow> nat \<Rightarrow> nat \<Rightarrow> nat \<Rightarrow> nat \<Rightarrow> real list list \<Rightarrow> error option \<times> real list list" where
  "add_hessian_block part_hessian global_offset0 global_offset1 d0 d1 H =
     fold_throw (\<lambda>i. fold_throw (\<lambda>j H'.
                   case matrix_at part_hessian i j of
                     Inl e \<Rightarrow> (Some e, H')
                   | Inr a \<Rightarrow> matrix_add_at H' (i + global_offset0) (j + global_offset1) a)
                 [0..<d1])
       [0..<d0] H"

text \<open>The loops over \<open>var0\<close> and \<open>var1\<close> for one binding: lines 676 to 693.\<close>

definition dense_hessian_term :: "Function \<Rightarrow> AddedTerm \<Rightarrow> real list list \<Rightarrow> error option \<times> real list list" where
  "dense_hessian_term f added H =
     (let trm = added_term added in
      fold_throw (\<lambda>var0 H0.
          case user_variable f added var0 of
            Inl e \<Rightarrow> (Some e, H0)
          | Inr v0 \<Rightarrow>
              if change_of_variables v0 \<noteq> None then (Some UnsupportedTransformForHessian, H0)
              else
                fold_throw (\<lambda>var1 H1.
                    case user_variable f added var1 of
                      Inl e \<Rightarrow> (Some e, H1)
                    | Inr v1 \<Rightarrow>
                        (case hessian_block added var0 var1 of
                           Inl e \<Rightarrow> (Some e, H1)
                         | Inr part_hessian \<Rightarrow>
                             add_hessian_block part_hessian (global_index v0) (global_index v1)
                               (nat (variable_dimension trm (int var0)))
                               (nat (variable_dimension trm (int var1))) H1))
                  [0..<nat (number_of_variables trm)] H0)
        [0..<nat (number_of_variables trm)] H)"

text \<open>"Create the global (dense) hessian": lines 667 to 695.\<close>

definition dense_hessian :: "Function \<Rightarrow> error option \<times> real list list" where
  "dense_hessian f =
     fold_throw (dense_hessian_term f) (terms f)
       (zero_matrix (number_of_scalars f) (number_of_scalars f))"

text \<open>
  \<open>Function::Implementation::evaluate(x, gradient, MatrixXd* hessian)\<close>. The Hessian
  argument is \<open>None\<close> for the null pointer. The result is what is returned or thrown,
  the gradient and the Hessian as the call leaves them, and the state.
\<close>

definition evaluate_dense ::
  "Function \<Rightarrow> real list \<Rightarrow> real list \<Rightarrow> real list list option \<Rightarrow>
   (error + real) \<times> real list \<times> real list list option \<times> Function" where
  "evaluate_dense f x gradient hessian_ptr =
     (if hessian_ptr \<noteq> None \<and> \<not> hessian_is_enabled f
      then (Inl HessianDisabled, gradient, hessian_ptr, f)
      else
        let f1 = (if \<not> local_storage_allocated f then allocate_local_storage f else f) in
        case copy_global_to_local x f1 of
          (Some e, f2) \<Rightarrow> (Inl e, gradient, hessian_ptr, f2)
        | (None, f2) \<Rightarrow>
            let f3 = f2\<lparr>thread_gradient_storage := setZero (thread_gradient_storage f2)\<rparr> in
            (case evaluate_terms (hessian_ptr \<noteq> None) (scatter_variable_dense x) f3 of
               (Some e, (value, f4)) \<Rightarrow> (Inl e, gradient, hessian_ptr, f4)
             | (None, (value, f4)) \<Rightarrow>
                 (case create_global_gradient f4 gradient of
                    (Some e, gradient') \<Rightarrow> (Inl e, gradient', hessian_ptr, f4)
                  | (None, gradient') \<Rightarrow>
                      (case hessian_ptr of
                         None \<Rightarrow> (Inr value, gradient', None, f4)
                       | Some H \<Rightarrow>
                           (case dense_hessian f4 of
                              (Some e, H') \<Rightarrow> (Inl e, gradient', Some H', f4)
                            | (None, H') \<Rightarrow> (Inr value, gradient', Some H', f4))))))"

text \<open>\<open>Function::evaluate(x, gradient)\<close>: the dense \<open>evaluate\<close> with a null Hessian.\<close>

definition evaluate_gradient :: "Function \<Rightarrow> real list \<Rightarrow> real list \<Rightarrow> (error + real) \<times> real list \<times> Function" where
  "evaluate_gradient f x gradient =
     (case evaluate_dense f x gradient None of (r, gradient', H, f') \<Rightarrow> (r, gradient', f'))"

subsection \<open>Sparse matrices\<close>

text \<open>
  Modelled from the spec: \<open>Eigen::SparseMatrix<double>\<close> and \<open>Eigen::Triplet<double>\<close>
  belong to a library that is not part of the sources at hand. A triplet is
  \<open>(row, column, value)\<close>. A sparse matrix has its numbers of rows and columns and its
  stored coefficients, one for each stored coordinate (the order in which the list
  holds them carries no meaning).
  Following section 4.3 of the specification, \<open>setFromTriplets\<close> "converts the
  coordinate list into compressed sparse form with duplicate coordinates summed"; it
  keeps the dimensions of the matrix, and a triplet outside them is an access outside
  the matrix.
\<close>

type_synonym triplet = "int \<times> int \<times> real"

record SparseMatrix =
  sp_rows :: int
  sp_cols :: int
  sp_coefficients :: "((int \<times> int) \<times> real) list"

fun insert_triplet :: "triplet \<Rightarrow> ((int \<times> int) \<times> real) list \<Rightarrow> ((int \<times> int) \<times> real) list" where
  "insert_triplet (r, c, a) [] = [((r, c), a)]"
| "insert_triplet (r, c, a) (((r', c'), a') # cs) =
     (if r = r' \<and> c = c' then ((r', c'), a' + a) # cs
      else ((r', c'), a') # insert_triplet (r, c, a) cs)"

definition triplet_inside :: "SparseMatrix \<Rightarrow> triplet \<Rightarrow> bool" where
  "triplet_inside S = (\<lambda>(r, c, a). 0 \<le> r \<and> r < sp_rows S \<and> 0 \<le> c \<and> c < sp_cols S)"

definition setFromTriplets :: "triplet list \<Rightarrow> SparseMatrix \<Rightarrow> error option \<times> SparseMatrix" where
  "setFromTriplets indices S =
     (if list_all (triplet_inside S) indices
      then (None, S\<lparr>sp_coefficients := fold insert_triplet indices []\<rparr>)
      else (Some OutOfBounds, S))"

text \<open>\<open>SparseMatrix::resize(n, m)\<close>: the dimensions are set and no coefficient is kept.\<close>

definition sparse_resize :: "int \<Rightarrow> int \<Rightarrow> SparseMatrix \<Rightarrow> SparseMatrix" where
  "sparse_resize n m S = S\<lparr>sp_rows := n, sp_cols := m, sp_coefficients := []\<rparr>"

text \<open>\<open>S.coeff(r, c)\<close>, and the dense matrix with the same coefficients.\<close>

definition sparse_coeff :: "SparseMatrix \<Rightarrow> int \<Rightarrow> int \<Rightarrow> real" where
  "sparse_coeff S r c = (case map_of (sp_coefficients S) (r, c) of None \<Rightarrow> 0 | Some a \<Rightarrow> a)"

definition densify :: "SparseMatrix \<Rightarrow> real list list" where
  "densify S =
     map (\<lambda>r. map (\<lambda>c. sparse_coeff S (int r) (int c)) [0..<nat (sp_cols S)]) [0..<nat (sp_rows S)]"

subsection \<open>The sparse Hessian and the sparse \<open>evaluate\<close>\<close>

text \<open>The loops over \<open>i\<close> and \<open>j\<close>: lines 828 to 842. \<open>static_cast<int>\<close> of an index
  is the index.\<close>

definition push_hessian_block ::
  "real list list \<Rightarrow> nat \<Rightarrow> nat \<Rightarrow> nat \<Rightarrow> nat \<Rightarrow> triplet list \<Rightarrow> error option \<times> triplet list" where
  "push_hessian_block part_hessian global_offset0 global_offset1 d0 d1 indices =
     fold_throw (\<lambda>i. fold_throw (\<lambda>j ts.
                   case matrix_at part_hessian i j of
                     Inl e \<Rightarrow> (Some e, ts)
                   | Inr a \<Rightarrow> (None, ts @ [(int (i + global_offset0), int (j + global_offset1), a)]))
                 [0..<d1])
       [0..<d0] indices"

text \<open>The loops over \<open>var0\<close> and \<open>var1\<close> for one binding: lines 823 to 844.\<close>

definition sparse_hessian_term :: "Function \<Rightarrow> AddedTerm \<Rightarrow> triplet list \<Rightarrow> error option \<times> triplet list" where
  "sparse_hessian_term f added indices =
     (let trm = added_term added in
      fold_throw (\<lambda>var0 ts0.
          case user_variable f added var0 of
            Inl e \<Rightarrow> (Some e, ts0)
          | Inr v0 \<Rightarrow>
              fold_throw (\<lambda>var1 ts1.
                  case user_variable f added var1 of
                    Inl e \<Rightarrow> (Some e, ts1)
                  | Inr v1 \<Rightarrow>
                      (case hessian_block added var0 var1 of
                         Inl e \<Rightarrow> (Some e, ts1)
                       | Inr part_hessian \<Rightarrow>
                           push_hessian_block part_hessian (global_index v0) (global_index v1)
                             (nat (variable_dimension trm (int var0)))
                             (nat (variable_dimension trm (int var1))) ts1))
                [0..<nat (number_of_variables trm)] ts0)
        [0..<nat (number_of_variables trm)] indices)"

text \<open>"Collect the gradients and hessians from each term": lines 820 to 845.\<close>

definition sparse_hessian :: "Function \<Rightarrow> error option \<times> triplet list" where
  "sparse_hessian f = fold_throw (sparse_hessian_term f) (terms f) []"

text \<open>
  \<open>Function::Implementation::evaluate(x, gradient, SparseMatrix<double>* hessian)\<close>.
  \<open>number_of_hessian_elements\<close> is set to zero and incremented at each \<open>push_back\<close>.
\<close>

definition evaluate_sparse ::
  "Function \<Rightarrow> real list \<Rightarrow> real list \<Rightarrow> SparseMatrix option \<Rightarrow>
   (error + real) \<times> real list \<times> SparseMatrix option \<times> Function" where
  "evaluate_sparse f x gradient hessian_ptr =
     (case hessian_ptr of
        None \<Rightarrow> (Inl NullHessianTarget, gradient, None, f)
      | Some S \<Rightarrow>
         (if \<not> hessian_is_enabled f then (Inl HessianDisabled, gradient, Some S, f)
          else
            let f1 = (if \<not> local_storage_allocated f then allocate_local_storage f else f) in
            case copy_global_to_local x f1 of
              (Some e, f2) \<Rightarrow> (Inl e, gradient, Some S, f2)
            | (None, f2) \<Rightarrow>
                let f3 = f2\<lparr>number_of_hessian_elements := 0,
                            thread_gradient_storage := setZero (thread_gradient_storage f2)\<rparr> in
                (case evaluate_terms True scatter_variable_sparse f3 of
                   (Some e, (value, f4)) \<Rightarrow> (Inl e, gradient, Some S, f4)
                 | (None, (value, f4)) \<Rightarrow>
                     (case create_global_gradient f4 gradient of
                        (Some e, gradient') \<Rightarrow> (Inl e, gradient', Some S, f4)
                      | (None, gradient') \<Rightarrow>
                          (case sparse_hessian f4 of
                             (Some e, indices) \<Rightarrow>
                               (Inl e, gradient', Some S,
                                f4\<lparr>number_of_hessian_elements := length indices\<rparr>)
                           | (None, indices) \<Rightarrow>
                               (case setFromTriplets indices S of
                                  (Some e, S') \<Rightarrow>
                                    (Inl e, gradient', Some S',
                                     f4\<lparr>number_of_hessian_elements := length indices\<rparr>)
                                | (None, S') \<Rightarrow>
                                    (Inr value, gradient', Some S',
                                     f4\<lparr>number_of_hessian_elements := length indices\<rparr>)))))))"

text \<open>
  The vector \<open>indices\<close> of the sparse \<open>evaluate\<close> as it stands when it is handed to
  \<open>setFromTriplets\<close> at line 847: the same statements up to there, with \<open>None\<close> when
  the evaluation throws before.
\<close>

definition sparse_evaluate_indices :: "Function \<Rightarrow> real list \<Rightarrow> real list \<Rightarrow> triplet list option" where
  "sparse_evaluate_indices f x gradient =
     (if \<not> hessian_is_enabled f then None
      else
        let f1 = (if \<not> local_storage_allocated f then allocate_local_storage f else f) in
        case copy_global_to_local x f1 of
          (Some e, f2) \<Rightarrow> None
        | (None, f2) \<Rightarrow>
            let f3 = f2\<lparr>number_of_hessian_elements := 0,
                        thread_gradient_storage := setZero (thread_gradient_storage f2)\<rparr> in
            (case evaluate_terms True scatter_variable_sparse f3 of
               (Some e, (value, f4)) \<Rightarrow> None
             | (None, (value, f4)) \<Rightarrow>
                 (case create_global_gradient f4 gradient of
                    (Some e, gradient') \<Rightarrow> None
                  | (None, gradient') \<Rightarrow>
                      (case sparse_hessian f4 of
                         (Some e, indices) \<Rightarrow> None
                       | (None, indices) \<Rightarrow> Some indices))))"

subsection \<open>\<open>create_sparse_hessian\<close>: the pattern alone\<close>

text \<open>The loop variables \<open>i\<close> and \<open>j\<close> are \<open>size_t\<close> here, so the \<open>int\<close> returned by
  \<open>variable_dimension\<close> is converted to \<open>size_t\<close> for the comparison.\<close>

definition size_t_of_int :: "int \<Rightarrow> nat" where
  "size_t_of_int d = (if d < 0 then nat (d + 2 ^ 64) else nat d)"

definition push_pattern_block :: "nat \<Rightarrow> nat \<Rightarrow> nat \<Rightarrow> nat \<Rightarrow> triplet list \<Rightarrow> triplet list" where
  "push_pattern_block global_offset0 global_offset1 d0 d1 indices =
     fold (\<lambda>i. fold (\<lambda>j ts. ts @ [(int (i + global_offset0), int (j + global_offset1), 1)])
                 [0..<d1])
       [0..<d0] indices"

definition pattern_term :: "Function \<Rightarrow> AddedTerm \<Rightarrow> triplet list \<Rightarrow> error option \<times> triplet list" where
  "pattern_term f added indices =
     (let trm = added_term added in
      fold_throw (\<lambda>var0 ts0.
          case user_variable f added var0 of
            Inl e \<Rightarrow> (Some e, ts0)
          | Inr v0 \<Rightarrow>
              fold_throw (\<lambda>var1 ts1.
                  case user_variable f added var1 of
                    Inl e \<Rightarrow> (Some e, ts1)
                  | Inr v1 \<Rightarrow>
                      (None, push_pattern_block (global_index v0) (global_index v1)
                               (size_t_of_int (variable_dimension trm (int var0)))
                               (size_t_of_int (variable_dimension trm (int var1))) ts1))
                [0..<nat (number_of_variables trm)] ts0)
        [0..<nat (number_of_variables trm)] indices)"

definition pattern_indices :: "Function \<Rightarrow> error option \<times> triplet list" where
  "pattern_indices f = fold_throw (pattern_term f) (terms f) []"

text \<open>\<open>Function::create_sparse_hessian(SparseMatrix<double>* H)\<close>.\<close>

definition create_sparse_hessian ::
  "Function \<Rightarrow> SparseMatrix \<Rightarrow> error option \<times> SparseMatrix \<times> Function" where
  "create_sparse_hessian f S =
     (case pattern_indices f of
        (Some e, indices) \<Rightarrow> (Some e, S, f\<lparr>number_of_hessian_elements := length indices\<rparr>)
      | (None, indices) \<Rightarrow>
          (case setFromTriplets indices
                  (sparse_resize (int (number_of_scalars f)) (int (number_of_scalars f)) S) of
             (e, S') \<Rightarrow> (e, S', f\<lparr>number_of_hessian_elements := length indices\<rparr>)))"

subsection \<open>Two concrete functions\<close>

text \<open>
  The term \<open>(a - b[0])^2 + b[1]^2\<close> of arity two, with arguments \<open>a\<close> of dimension
  one and \<open>b\<close> of dimension two, its gradient blocks and its Hessian blocks.
\<close>

definition coupled_value :: "real list list \<Rightarrow> real" where
  "coupled_value args = (args ! 0 ! 0 - args ! 1 ! 0) ^ 2 + (args ! 1 ! 1) ^ 2"

definition coupled_gradient :: "real list list \<Rightarrow> nat \<Rightarrow> nat \<Rightarrow> real" where
  "coupled_gradient args var i =
     (if var = 0 then 2 * (args ! 0 ! 0 - args ! 1 ! 0)
      else if i = 0 then - 2 * (args ! 0 ! 0 - args ! 1 ! 0)
      else 2 * (args ! 1 ! 1))"

definition coupled_hessian :: "nat \<Rightarrow> nat \<Rightarrow> nat \<Rightarrow> nat \<Rightarrow> real" where
  "coupled_hessian var0 var1 i j =
     (if var0 = 0 \<and> var1 = 0 then 2
      else if var0 = 0 then (if j = 0 then - 2 else 0)
      else if var1 = 0 then (if i = 0 then - 2 else 0)
      else if i = j then 2 else 0)"

definition coupled_term :: Term where
  "coupled_term =
     \<lparr> number_of_variables = 2,
       variable_dimension = (\<lambda>var. if var = 0 then 1 else 2),
       term_evaluate = (\<lambda>args. Some (coupled_value args)),
       term_evaluate_gradient = (\<lambda>args. Some (coupled_value args, coupled_gradient args)),
       term_evaluate_hessian =
         (\<lambda>args. Some (coupled_value args, coupled_gradient args, coupled_hessian)) \<rparr>"

text \<open>
  The variable \<open>a\<close> is registered first, then \<open>b\<close>, then the term is added on
  \<open>(a, b)\<close>. The block of \<open>a\<close> lies at the higher address, so the map iterates
  \<open>b\<close> before \<open>a\<close>.
\<close>

definition block_a :: addr where "block_a = 200"
definition block_b :: addr where "block_b = 100"

definition coupled_function :: Function where
  "coupled_function =
     snd (add_term coupled_term [block_a, block_b]
       (snd (add_variable block_b 2 (snd (add_variable block_a 1 Function_new)))))"

text \<open>The term \<open>a^2\<close> of arity one on a variable of dimension one, and the transform
  from the optimization value \<open>t\<close> to the user value \<open>2 t\<close>; its gradient projection
  adds \<open>2 g\<close> to the accumulator.\<close>

definition square_term :: Term where
  "square_term =
     \<lparr> number_of_variables = 1,
       variable_dimension = (\<lambda>var. 1),
       term_evaluate = (\<lambda>args. Some ((args ! 0 ! 0) ^ 2)),
       term_evaluate_gradient = (\<lambda>args. Some ((args ! 0 ! 0) ^ 2, \<lambda>var i. 2 * (args ! 0 ! 0))),
       term_evaluate_hessian =
         (\<lambda>args. Some ((args ! 0 ! 0) ^ 2, \<lambda>var i. 2 * (args ! 0 ! 0), \<lambda>var0 var1 i j. 2)) \<rparr>"

definition doubling :: ChangeOfVariables where
  "doubling =
     \<lparr> x_dimension = 1, t_dimension = 1,
       t_to_x = (\<lambda>t. Some [2 * (t ! 0)]),
       x_to_t = (\<lambda>x. Some [(x ! 0) / 2]),
       update_gradient = (\<lambda>acc t g. Some [acc ! 0 + 2 * (g ! 0)]) \<rparr>"

definition doubled_function :: Function where
  "doubled_function =
     snd (add_term square_term [block_a]
       (snd (add_variable_internal block_a 1 (Some doubling) Function_new)))"

subsection \<open>Notions used to state the properties\<close>

text \<open>An argument passes the checks of \<open>add_term\<close>: its block is registered and has
  the dimension the term declares for it.\<close>

definition argument_ok :: "Function \<Rightarrow> Term \<Rightarrow> addr list \<Rightarrow> nat \<Rightarrow> bool" where
  "argument_ok f trm arguments var =
     (case find_variable f (arguments ! var) of
        None \<Rightarrow> False
      | Some var_info \<Rightarrow> user_dimension var_info = variable_dimension trm (int var))"

text \<open>
  A caller that makes a sequence of calls of \<open>add_variable_internal\<close> (block, dimension,
  transform or null), catching whatever a call throws and going on.
\<close>

type_synonym registration = "addr \<times> int \<times> ChangeOfVariables option"

fun register_all :: "registration list \<Rightarrow> Function \<Rightarrow> Function" where
  "register_all [] f = f"
| "register_all ((variable, dimension, cov) # calls) f =
     register_all calls (snd (add_variable_internal variable dimension cov f))"

text \<open>The solver dimension a call asks for, and calls whose dimensions are sizes.\<close>

definition requested_solver_dimension :: "registration \<Rightarrow> int" where
  "requested_solver_dimension = (\<lambda>(variable, dimension, cov).
     case cov of None \<Rightarrow> dimension | Some c \<Rightarrow> t_dimension c)"

definition sizes_non_negative :: "registration \<Rightarrow> bool" where
  "sizes_non_negative = (\<lambda>(variable, dimension, cov).
     0 \<le> dimension \<and> (case cov of None \<Rightarrow> True | Some c \<Rightarrow> 0 \<le> t_dimension c))"

definition without_transform :: "registration \<Rightarrow> bool" where
  "without_transform = (\<lambda>(variable, dimension, cov). cov = None)"

text \<open>The sums of the dimensions over the nodes of the map, and the states in which no
  node holds a transform.\<close>

definition total_solver_dimension :: "Function \<Rightarrow> int" where
  "total_solver_dimension f = sum_list (map (\<lambda>(p, v). solver_dimension v) (variables f))"

definition total_user_dimension :: "Function \<Rightarrow> int" where
  "total_user_dimension f = sum_list (map (\<lambda>(p, v). user_dimension v) (variables f))"

definition no_transform_installed :: "Function \<Rightarrow> bool" where
  "no_transform_installed f =
     list_all (\<lambda>(p, v). case change_of_variables v of None \<Rightarrow> True | Some c \<Rightarrow> False)
       (variables f)"

text \<open>A transform from one optimization scalar \<open>t\<close> to the two user scalars \<open>(t, t)\<close>,
  and the calls that install it on a block and then register the block again without
  a transform.\<close>

definition diagonal :: ChangeOfVariables where
  "diagonal =
     \<lparr> x_dimension = 2, t_dimension = 1,
       t_to_x = (\<lambda>t. Some [t ! 0, t ! 0]),
       x_to_t = (\<lambda>x. Some [x ! 0]),
       update_gradient = (\<lambda>acc t g. Some [acc ! 0 + g ! 0 + g ! 1]) \<rparr>"

definition removal_calls :: "registration list" where
  "removal_calls = [(block_a, 2, Some diagonal), (block_a, 2, None)]"

definition plain_calls :: "registration list" where
  "plain_calls = [(block_a, 1, None), (block_b, 2, None)]"

text \<open>A function in which the block \<open>a\<close> has dimension two and \<open>b\<close> is not registered.\<close>

definition mismatched_function :: Function where
  "mismatched_function = snd (add_variable block_a 2 Function_new)"

text \<open>No argument variable of any binding has a transform installed.\<close>

definition bindings_without_transform :: "Function \<Rightarrow> bool" where
  "bindings_without_transform f =
     list_all (\<lambda>added.
        list_all (\<lambda>p. case find_variable f p of
                         None \<Rightarrow> True
                       | Some v \<Rightarrow> (case change_of_variables v of None \<Rightarrow> True | Some c \<Rightarrow> False))
          (user_variables added))
       (terms f)"

text \<open>
  Notions for comparing the dense and the sparse assembly of the Hessian: adding the
  entries of a coordinate list one by one to a dense matrix; the sum of the values a
  coordinate list holds for one coordinate; a dense matrix with \<open>n\<close> rows of \<open>m\<close>
  entries; and a loop \<open>sp\<close> that appends triplets while a loop \<open>de\<close> adds the same
  triplets to a dense matrix, both stopping with the same error.
\<close>

definition add_triplets :: "triplet list \<Rightarrow> real list list \<Rightarrow> error option \<times> real list list" where
  "add_triplets ts H = fold_throw (\<lambda>(r, c, a) H'. matrix_add_at H' (nat r) (nat c) a) ts H"

definition triplet_sum :: "triplet list \<Rightarrow> int \<Rightarrow> int \<Rightarrow> real" where
  "triplet_sum ts r c = sum_list (map (\<lambda>(r', c', a). if r' = r \<and> c' = c then a else 0) ts)"

definition rectangular :: "nat \<Rightarrow> nat \<Rightarrow> real list list \<Rightarrow> bool" where
  "rectangular n m M = (length M = n \<and> list_all (\<lambda>row. length row = m) M)"

definition assembles ::
  "(triplet list \<Rightarrow> error option \<times> triplet list) \<Rightarrow>
   (real list list \<Rightarrow> error option \<times> real list list) \<Rightarrow> bool" where
  "assembles sp de =
     (\<exists>e1 new.
        (e1 = None \<or> e1 = Some OutOfBounds) \<and>
        list_all (\<lambda>(r, c, a). 0 \<le> r \<and> 0 \<le> c) new \<and>
        (\<forall>ts. sp ts = (e1, ts @ new)) \<and>
        (\<forall>H. de H = (case add_triplets new H of
                        (Some e, H') \<Rightarrow> (Some e, H')
                      | (None, H') \<Rightarrow> (e1, H'))))"

text \<open>
  The structure of a \<open>Function\<close>: what is left when every value that an evaluation
  computes or that a term's evaluation functions define is erased (the contents of
  the scratch spaces, of the Hessian storage and of the gradient accumulator, the two
  counters of the engine, and the evaluation functions of the terms). The dimensions,
  offsets, transforms, arities and the shape of every buffer stay.
\<close>

definition structure_of_variable :: "AddedVariable \<Rightarrow> AddedVariable" where
  "structure_of_variable v = v\<lparr>temp_space := replicate (length (temp_space v)) 0\<rparr>"

definition structure_of_term :: "AddedTerm \<Rightarrow> AddedTerm" where
  "structure_of_term added =
     added\<lparr>added_term := (added_term added)
                 \<lparr>term_evaluate := (\<lambda>args. None),
                  term_evaluate_gradient := (\<lambda>args. None),
                  term_evaluate_hessian := (\<lambda>args. None)\<rparr>,
           hessian := map (map (map (map (\<lambda>a. 0)))) (hessian added)\<rparr>"

definition structure_of :: "Function \<Rightarrow> Function" where
  "structure_of f =
     f\<lparr>variables := map (\<lambda>(p, v). (p, structure_of_variable v)) (variables f),
       terms := map structure_of_term (terms f),
       local_storage_allocated := False,
       thread_gradient_storage := [],
       number_of_hessian_elements := 0\<rparr>"

text \<open>A sparse matrix without coefficients, and the pattern that
  \<open>create_sparse_hessian\<close> builds for the first concrete function.\<close>

definition empty_sparse :: "int \<Rightarrow> int \<Rightarrow> SparseMatrix" where
  "empty_sparse n m = \<lparr>sp_rows = n, sp_cols = m, sp_coefficients = []\<rparr>"

definition coupled_pattern :: SparseMatrix where
  "coupled_pattern = fst (snd (create_sparse_hessian coupled_function (empty_sparse 0 0)))"

text \<open>The dimensions that the terms of the bindings declare are sizes, and the
  coordinates of a coordinate list.\<close>

definition declared_sizes_non_negative :: "Function \<Rightarrow> bool" where
  "declared_sizes_non_negative f =
     list_all (\<lambda>added.
        list_all (\<lambda>var. 0 \<le> variable_dimension (added_term added) (int var))
          [0..<nat (number_of_variables (added_term added))])
       (terms f)"

definition coordinates :: "triplet list \<Rightarrow> (int \<times> int) list" where
  "coordinates ts = map (\<lambda>(r, c, a). (r, c)) ts"

text \<open>
  A consistent state. A transform keeps its sizes when \<open>t_to_x\<close> returns
  \<open>x_dimension\<close> scalars and \<open>update_gradient\<close> returns as many scalars as the
  accumulator slice has. A variable is consistent when its scratch space has its user
  dimension, its slice of the optimization space lies inside the \<open>n\<close> scalars, and
  its transform, if any, has its user dimension and keeps its sizes. A binding is
  consistent when it has as many variables as the term has arguments, each passes the
  checks of \<open>add_term\<close>, and its Hessian storage has the shape \<open>add_term\<close> allocates
  with Hessian support enabled. In a consistent state the accumulator, once
  allocated, has \<open>number_of_scalars\<close> entries.
\<close>

definition transform_keeps_sizes :: "ChangeOfVariables \<Rightarrow> bool" where
  "transform_keeps_sizes c =
     ((\<forall>t new. length t = nat (t_dimension c) \<and> t_to_x c t = Some new \<longrightarrow>
         length new = nat (x_dimension c)) \<and>
      (\<forall>acc t g new. length acc = nat (t_dimension c) \<and> update_gradient c acc t g = Some new \<longrightarrow>
         length new = nat (t_dimension c)))"

definition variable_consistent :: "nat \<Rightarrow> AddedVariable \<Rightarrow> bool" where
  "variable_consistent n v =
     (length (temp_space v) = nat (user_dimension v) \<and>
      (case change_of_variables v of
         None \<Rightarrow> global_index v + nat (user_dimension v) \<le> n
       | Some c \<Rightarrow>
           x_dimension c = user_dimension v \<and> global_index v + nat (t_dimension c) \<le> n \<and>
           transform_keeps_sizes c))"

definition binding_consistent :: "Function \<Rightarrow> AddedTerm \<Rightarrow> bool" where
  "binding_consistent f added =
     (int (length (user_variables added)) = number_of_variables (added_term added) \<and>
      list_all (argument_ok f (added_term added) (user_variables added))
        [0..<length (user_variables added)] \<and>
      map (map (map length)) (hessian added) =
        map (map (map length)) (allocate_hessian (added_term added)))"

definition structurally_consistent :: "Function \<Rightarrow> bool" where
  "structurally_consistent f =
     (list_all (\<lambda>(p, v). variable_consistent (number_of_scalars f) v) (variables f) \<and>
      list_all (binding_consistent f) (terms f))"

definition consistent :: "Function \<Rightarrow> bool" where
  "consistent f =
     (structurally_consistent f \<and>
      (local_storage_allocated f \<longrightarrow> length (thread_gradient_storage f) = number_of_scalars f))"


text \<open>An argument block has a transform installed; some argument of the binding has;
  some argument of some binding has.\<close>

definition transformed :: "Function \<Rightarrow> addr \<Rightarrow> bool" where
  "transformed f p =
     (case find_variable f p of
        None \<Rightarrow> False
      | Some v \<Rightarrow> (case change_of_variables v of None \<Rightarrow> False | Some c \<Rightarrow> True))"

definition binding_transformed :: "Function \<Rightarrow> AddedTerm \<Rightarrow> bool" where
  "binding_transformed f added = list_ex (transformed f) (user_variables added)"

definition some_argument_transformed :: "Function \<Rightarrow> bool" where
  "some_argument_transformed f = list_ex (binding_transformed f) (terms f)"






definition reduced_function :: Function where
  "reduced_function =
     snd (add_term coupled_term [block_a, block_b]
       (snd (add_variable_internal block_b 2 (Some diagonal)
          (snd (add_variable block_a 1 Function_new)))))"

text \<open>The second concrete function with a term \<open>a^2\<close> whose evaluation with Hessian
  throws.\<close>

definition throwing_term :: Term where
  "throwing_term = square_term\<lparr>term_evaluate_hessian := (\<lambda>args. None)\<rparr>"

definition throwing_function :: Function where
  "throwing_function =
     snd (add_term throwing_term [block_a]
       (snd (add_variable_internal block_a 1 (Some doubling) Function_new)))"

text \<open>A term of arity one that declares the dimension \<open>-1\<close>, bound to a block whose
  registration with the dimension \<open>-1\<close> has thrown and left its node in the map.\<close>

definition negative_term :: Term where
  "negative_term =
     \<lparr> number_of_variables = 1,
       variable_dimension = (\<lambda>var. - 1),
       term_evaluate = (\<lambda>args. Some 0),
       term_evaluate_gradient = (\<lambda>args. Some (0, \<lambda>var i. 0)),
       term_evaluate_hessian = (\<lambda>args. Some (0, \<lambda>var i. 0, \<lambda>var0 var1 i j. 0)) \<rparr>"

definition negative_function :: Function where
  "negative_function =
     snd (add_term negative_term [block_a] (snd (add_variable block_a (- 1) Function_new)))"

section \<open>Properties\<close>

subsection \<open>Loops and the gradient buffer\<close>

lemma fold_throw_invariant:
  assumes "fold_throw body as s = (e, s')" and "P s"
    and "\<And>a t e' t'. a \<in> set as \<Longrightarrow> P t \<Longrightarrow> body a t = (e', t') \<Longrightarrow> P t'"
  shows "P s'"
  using assms
proof (induction as arbitrary: s)
  case Nil
  then show ?case by simp
next
  case (Cons a as)
  obtain e1 s1 where b: "body a s = (e1, s1)" by fastforce
  have p1: "P s1" using Cons.prems(2,3) b by auto
  show ?case
  proof (cases e1)
    case None
    with Cons.prems(1) b have "fold_throw body as s1 = (e, s')" by simp
    then show ?thesis
    proof (rule Cons.IH [OF _ p1])
      fix a' t e' t'
      assume "a' \<in> set as" "P t" "body a' t = (e', t')"
      then show "P t'" using Cons.prems(3) [of a' t e' t'] by simp
    qed
  next
    case (Some a)
    with Cons.prems(1) b p1 show ?thesis by simp
  qed
qed

lemma setZero_resize_vector: "setZero (resize_vector g n) = replicate n 0"
  by (simp add: setZero_def resize_vector_def)

lemma create_global_gradient_any:
  "create_global_gradient f g = create_global_gradient f g'"
  by (simp add: create_global_gradient_def setZero_resize_vector)

lemma create_global_gradient_length:
  "create_global_gradient f g = (None, g') \<Longrightarrow> length g' = number_of_scalars f"
  by (auto simp add: create_global_gradient_def setZero_resize_vector Let_def split: if_splits)

lemma create_global_gradient_value:
  "create_global_gradient f g = (None, g') \<Longrightarrow> g' = thread_gradient_storage f"
  by (auto simp add: create_global_gradient_def setZero_resize_vector Let_def
      split: if_splits intro!: nth_equalityI)

lemma copy_global_to_local_scalars:
  "copy_global_to_local x f = (e, f') \<Longrightarrow>
     number_of_scalars f' = number_of_scalars f \<and> terms f' = terms f \<and>
     thread_gradient_storage f' = thread_gradient_storage f \<and>
     hessian_is_enabled f' = hessian_is_enabled f"
  by (auto simp add: copy_global_to_local_def split: prod.splits)

lemma evaluate_term_scalars:
  "evaluate_term wh sv i (v, f) = (e, (v', f')) \<Longrightarrow> number_of_scalars f' = number_of_scalars f"
  by (auto simp add: evaluate_term_def Let_def split: sum.splits prod.splits if_splits option.splits)

lemma evaluate_terms_scalars:
  assumes "evaluate_terms wh sv f = (e, (v', f'))"
  shows "number_of_scalars f' = number_of_scalars f"
proof -
  have "number_of_scalars (snd (v', f')) = number_of_scalars f"
    using assms unfolding evaluate_terms_def
    by (rule fold_throw_invariant [where P = "\<lambda>s. number_of_scalars (snd s) = number_of_scalars f"])
       (auto dest: evaluate_term_scalars)
  then show ?thesis by simp
qed

lemma evaluate_dense_any:
  "fst (evaluate_dense f x g H) = fst (evaluate_dense f x g' H) \<and>
   (\<forall>v. fst (evaluate_dense f x g H) = Inr v \<longrightarrow>
      fst (snd (evaluate_dense f x g H)) = fst (snd (evaluate_dense f x g' H)))"
proof (cases "H \<noteq> None \<and> \<not> hessian_is_enabled f")
  case True
  then show ?thesis by (simp add: evaluate_dense_def)
next
  case False
  define f1 where "f1 = (if \<not> local_storage_allocated f then allocate_local_storage f else f)"
  obtain e2 f2 where c2: "copy_global_to_local x f1 = (e2, f2)" by fastforce
  show ?thesis
  proof (cases e2)
    case (Some e)
    with False c2 show ?thesis by (auto simp add: evaluate_dense_def f1_def [symmetric])
  next
    case None
    define f3 where "f3 = f2\<lparr>thread_gradient_storage := setZero (thread_gradient_storage f2)\<rparr>"
    obtain e4 v4 f4 where c4: "evaluate_terms (H \<noteq> None) (scatter_variable_dense x) f3 = (e4, (v4, f4))"
      by (metis surj_pair)
    show ?thesis
    proof (cases e4)
      case (Some e)
      with False c2 None c4 show ?thesis
        by (auto simp add: evaluate_dense_def f1_def [symmetric] f3_def [symmetric])
    next
      case n4: None
      obtain e5 g5 where c5: "create_global_gradient f4 g = (e5, g5)" by fastforce
      then have c5': "create_global_gradient f4 g' = (e5, g5)"
        using create_global_gradient_any by metis
      obtain e6 H6 where c6: "dense_hessian f4 = (e6, H6)" by fastforce
      from False c2 None c4 n4 c5 c5' c6 show ?thesis
        by (cases e5; cases H; cases e6)
           (auto simp add: evaluate_dense_def f1_def [symmetric] f3_def [symmetric])
    qed
  qed
qed

lemma evaluate_sparse_any:
  "fst (evaluate_sparse f x g H) = fst (evaluate_sparse f x g' H) \<and>
   (\<forall>v. fst (evaluate_sparse f x g H) = Inr v \<longrightarrow>
      fst (snd (evaluate_sparse f x g H)) = fst (snd (evaluate_sparse f x g' H)))"
proof (cases H)
  case None
  then show ?thesis by (simp add: evaluate_sparse_def)
next
  case (Some S)
  show ?thesis
  proof (cases "hessian_is_enabled f")
    case False
    with Some show ?thesis by (simp add: evaluate_sparse_def)
  next
    case True
    define f1 where "f1 = (if \<not> local_storage_allocated f then allocate_local_storage f else f)"
    obtain e2 f2 where c2: "copy_global_to_local x f1 = (e2, f2)" by fastforce
    show ?thesis
    proof (cases e2)
      case (Some e)
      with True \<open>H = Some S\<close> c2 show ?thesis
        by (simp add: evaluate_sparse_def f1_def [symmetric])
    next
      case None
      define f3 where "f3 = f2\<lparr>number_of_hessian_elements := 0,
          thread_gradient_storage := setZero (thread_gradient_storage f2)\<rparr>"
      obtain e4 v4 f4 where c4: "evaluate_terms True scatter_variable_sparse f3 = (e4, (v4, f4))"
        by (metis surj_pair)
      show ?thesis
      proof (cases e4)
        case (Some e)
        with True \<open>H = Some S\<close> c2 None c4 show ?thesis
          by (simp add: evaluate_sparse_def f1_def [symmetric] f3_def [symmetric])
      next
        case n4: None
        obtain e5 g5 where c5: "create_global_gradient f4 g = (e5, g5)" by fastforce
        then have c5': "create_global_gradient f4 g' = (e5, g5)"
          using create_global_gradient_any by metis
        obtain e6 ts where c6: "sparse_hessian f4 = (e6, ts)" by fastforce
        obtain e7 S7 where c7: "setFromTriplets ts S = (e7, S7)" by fastforce
        from True \<open>H = Some S\<close> c2 None c4 n4 c5 c5' c6 c7 show ?thesis
          by (cases e5; cases e6; cases e7)
             (simp_all add: evaluate_sparse_def f1_def [symmetric] f3_def [symmetric])
      qed
    qed
  qed
qed

lemma evaluate_dense_gradient_length:
  assumes "fst (evaluate_dense f x g H) = Inr v"
  shows "length (fst (snd (evaluate_dense f x g H))) = number_of_scalars f"
proof (cases "H \<noteq> None \<and> \<not> hessian_is_enabled f")
  case True
  with assms show ?thesis by (simp add: evaluate_dense_def)
next
  case False
  define f1 where "f1 = (if \<not> local_storage_allocated f then allocate_local_storage f else f)"
  have n1: "number_of_scalars f1 = number_of_scalars f"
    by (simp add: f1_def allocate_local_storage_def)
  obtain e2 f2 where c2: "copy_global_to_local x f1 = (e2, f2)" by fastforce
  define f3 where "f3 = f2\<lparr>thread_gradient_storage := setZero (thread_gradient_storage f2)\<rparr>"
  have n3: "number_of_scalars f3 = number_of_scalars f"
    using copy_global_to_local_scalars [OF c2] n1 by (simp add: f3_def)
  obtain e4 v4 f4 where c4: "evaluate_terms (H \<noteq> None) (scatter_variable_dense x) f3 = (e4, (v4, f4))"
    by (metis surj_pair)
  have n4: "number_of_scalars f4 = number_of_scalars f"
    using evaluate_terms_scalars [OF c4] n3 by simp
  obtain e5 g5 where c5: "create_global_gradient f4 g = (e5, g5)" by fastforce
  obtain e6 H6 where c6: "dense_hessian f4 = (e6, H6)" by fastforce
  have "length g5 = number_of_scalars f" if "e5 = None"
    proof -
      from that c5 have "create_global_gradient f4 g = (None, g5)" by simp
      from create_global_gradient_length [OF this] n4 show ?thesis by simp
    qed
  with assms False c2 c4 c5 c6 show ?thesis
    by (cases e2; cases e4; cases e5; cases H; cases e6)
       (auto simp add: evaluate_dense_def f1_def [symmetric] f3_def [symmetric])
qed

lemma evaluate_sparse_gradient_length:
  assumes "fst (evaluate_sparse f x g H) = Inr v"
  shows "length (fst (snd (evaluate_sparse f x g H))) = number_of_scalars f"
proof (cases H)
  case None
  with assms show ?thesis by (simp add: evaluate_sparse_def)
next
  case (Some S)
  show ?thesis
  proof (cases "hessian_is_enabled f")
    case False
    with Some assms show ?thesis by (simp add: evaluate_sparse_def)
  next
    case True
    define f1 where "f1 = (if \<not> local_storage_allocated f then allocate_local_storage f else f)"
    have n1: "number_of_scalars f1 = number_of_scalars f"
      by (simp add: f1_def allocate_local_storage_def)
    obtain e2 f2 where c2: "copy_global_to_local x f1 = (e2, f2)" by fastforce
    define f3 where "f3 = f2\<lparr>number_of_hessian_elements := 0,
          thread_gradient_storage := setZero (thread_gradient_storage f2)\<rparr>"
    have n3: "number_of_scalars f3 = number_of_scalars f"
      using copy_global_to_local_scalars [OF c2] n1 by (simp add: f3_def)
    obtain e4 v4 f4 where c4: "evaluate_terms True scatter_variable_sparse f3 = (e4, (v4, f4))"
      by (metis surj_pair)
    have n4: "number_of_scalars f4 = number_of_scalars f"
      using evaluate_terms_scalars [OF c4] n3 by simp
    obtain e5 g5 where c5: "create_global_gradient f4 g = (e5, g5)" by fastforce
    obtain e6 ts where c6: "sparse_hessian f4 = (e6, ts)" by fastforce
    obtain e7 S7 where c7: "setFromTriplets ts S = (e7, S7)" by fastforce
  have "length g5 = number_of_scalars f" if "e5 = None"
    proof -
      from that c5 have "create_global_gradient f4 g = (None, g5)" by simp
      from create_global_gradient_length [OF this] n4 show ?thesis by simp
    qed
    with assms True Some c2 c4 c5 c6 c7 show ?thesis
      by (cases e2; cases e4; cases e5; cases e6; cases e7)
         (auto simp add: evaluate_sparse_def f1_def [symmetric] f3_def [symmetric])
  qed
qed

lemma evaluate_gradient_dense:
  "fst (evaluate_gradient f x g) = fst (evaluate_dense f x g None)"
  "fst (snd (evaluate_gradient f x g)) = fst (snd (evaluate_dense f x g None))"
  by (simp_all add: evaluate_gradient_def split: prod.splits)

subsection \<open>The two concrete scenarios\<close>

text \<open>
  C1. Two variables of dimension 1 and 2 are registered, in this order, and get the
  offsets 0 and 1; one term of arity two with the value \<open>(a - b[0])^2 + b[1]^2\<close> is
  added. Then \<open>evaluate([3, 1, 2])\<close> returns 8, and the gradient-taking \<open>evaluate\<close>
  returns 8 and leaves the gradient \<open>[4, -4, 4]\<close>, whatever the gradient buffer held.
\<close>

theorem coupled_scenario_value_and_gradient:
  "fst (add_variable block_a 1 Function_new) = None \<and>
   fst (add_variable block_b 2 (snd (add_variable block_a 1 Function_new))) = None \<and>
   fst (add_term coupled_term [block_a, block_b]
       (snd (add_variable block_b 2 (snd (add_variable block_a 1 Function_new))))) = None \<and>
   map_option global_index (find_variable coupled_function block_a) = Some 0 \<and>
   map_option global_index (find_variable coupled_function block_b) = Some 1 \<and>
   fst (evaluate coupled_function [3, 1, 2]) = Inr 8 \<and>
   (\<forall>gradient. fst (evaluate_gradient coupled_function [3, 1, 2] gradient) = Inr 8 \<and>
      fst (snd (evaluate_gradient coupled_function [3, 1, 2] gradient)) = [4, - 4, 4])"
proof -
  have r: "fst (add_variable block_a 1 Function_new) = None"
    "fst (add_variable block_b 2 (snd (add_variable block_a 1 Function_new))) = None"
    "fst (add_term coupled_term [block_a, block_b]
       (snd (add_variable block_b 2 (snd (add_variable block_a 1 Function_new))))) = None"
    "map_option global_index (find_variable coupled_function block_a) = Some 0"
    "map_option global_index (find_variable coupled_function block_b) = Some 1"
    by code_simp+
  have a: "fst (evaluate coupled_function [3, 1, 2]) = Inr 8" by code_simp
  have b: "fst (evaluate_dense coupled_function [3, 1, 2] [] None) = Inr 8" by code_simp
  have c: "fst (snd (evaluate_dense coupled_function [3, 1, 2] [] None)) = [4, - 4, 4]" by code_simp
  note d = evaluate_gradient_dense
  have "fst (evaluate_dense coupled_function [3, 1, 2] g None) = Inr 8 \<and>
        fst (snd (evaluate_dense coupled_function [3, 1, 2] g None)) = [4, - 4, 4]" for g
    using evaluate_dense_any [of coupled_function "[3, 1, 2]" "[]" None g] b c by simp
  with r a d show ?thesis by simp
qed

text \<open>
  C8. One variable of dimension 1 is registered with the transform from \<open>t\<close> to
  \<open>2 t\<close>, and the term \<open>a^2\<close> is added on it. The copy-in phase puts the user value
  \<open>6\<close> into the scratch space, and \<open>evaluate([3])\<close> returns 36.
\<close>

theorem doubled_scenario_value:
  "fst (add_variable_internal block_a 1 (Some doubling) Function_new) = None \<and>
   fst (add_term square_term [block_a]
       (snd (add_variable_internal block_a 1 (Some doubling) Function_new))) = None \<and>
   map (temp_space \<circ> snd) (variables (snd (copy_global_to_local [3] doubled_function))) = [[6]] \<and>
   fst (evaluate doubled_function [3]) = Inr 36"
  by code_simp

subsection \<open>Hessian support disabled\<close>

text \<open>
  C3. When Hessian support is disabled, the dense \<open>evaluate\<close> with a Hessian
  destination and the sparse \<open>evaluate\<close> with a Hessian destination both throw
  \<open>HessianDisabled\<close>, for every \<open>x\<close>; the gradient, the Hessian and the state are as
  they were.
\<close>

theorem hessian_disabled_fails_unmutated:
  "\<not> hessian_is_enabled f \<Longrightarrow>
   evaluate_dense f x gradient (Some H) = (Inl HessianDisabled, gradient, Some H, f) \<and>
   evaluate_sparse f x gradient (Some S) = (Inl HessianDisabled, gradient, Some S, f)"
  by (simp add: evaluate_dense_def evaluate_sparse_def)

theorem hessian_disabled_fails_unmutated_witness:
  "\<not> hessian_is_enabled (coupled_function\<lparr>hessian_is_enabled := False\<rparr>) \<and>
   evaluate_dense (coupled_function\<lparr>hessian_is_enabled := False\<rparr>) [3, 1, 2] [7] (Some [[5]]) =
     (Inl HessianDisabled, [7], Some [[5]], coupled_function\<lparr>hessian_is_enabled := False\<rparr>) \<and>
   evaluate_sparse (coupled_function\<lparr>hessian_is_enabled := False\<rparr>) [3, 1, 2] [7]
       (Some \<lparr>sp_rows = 3, sp_cols = 3, sp_coefficients = [((0, 0), 5)]\<rparr>) =
     (Inl HessianDisabled, [7], Some \<lparr>sp_rows = 3, sp_cols = 3, sp_coefficients = [((0, 0), 5)]\<rparr>,
      coupled_function\<lparr>hessian_is_enabled := False\<rparr>)"
proof -
  have h: "\<not> hessian_is_enabled (coupled_function\<lparr>hessian_is_enabled := False\<rparr>)" by simp
  from hessian_disabled_fails_unmutated [OF h] h show ?thesis by simp
qed

subsection \<open>The gradient does not depend on the buffer it is written to\<close>

text \<open>
  C10. Two runs of the gradient-taking \<open>evaluate\<close> (dense, with or without a Hessian
  destination, or sparse) on the same state and the same \<open>x\<close>, with different
  gradient buffers, return or throw the same; when they return, the two final
  gradients are equal and have \<open>number_of_scalars\<close> entries.
\<close>

theorem gradient_independent_of_buffer:
  "fst (evaluate_gradient f x g1) = fst (evaluate_gradient f x g2) \<and>
   fst (evaluate_dense f x g1 H) = fst (evaluate_dense f x g2 H) \<and>
   fst (evaluate_sparse f x g1 S) = fst (evaluate_sparse f x g2 S) \<and>
   (\<forall>v. fst (evaluate_gradient f x g1) = Inr v \<longrightarrow>
      fst (snd (evaluate_gradient f x g1)) = fst (snd (evaluate_gradient f x g2)) \<and>
      length (fst (snd (evaluate_gradient f x g1))) = number_of_scalars f) \<and>
   (\<forall>v. fst (evaluate_dense f x g1 H) = Inr v \<longrightarrow>
      fst (snd (evaluate_dense f x g1 H)) = fst (snd (evaluate_dense f x g2 H)) \<and>
      length (fst (snd (evaluate_dense f x g1 H))) = number_of_scalars f) \<and>
   (\<forall>v. fst (evaluate_sparse f x g1 S) = Inr v \<longrightarrow>
      fst (snd (evaluate_sparse f x g1 S)) = fst (snd (evaluate_sparse f x g2 S)) \<and>
      length (fst (snd (evaluate_sparse f x g1 S))) = number_of_scalars f)"
  using evaluate_dense_any [of f x g1 H g2] evaluate_dense_any [of f x g1 None g2]
    evaluate_sparse_any [of f x g1 S g2]
    evaluate_dense_gradient_length [of f x g1 H] evaluate_dense_gradient_length [of f x g1 None]
    evaluate_sparse_gradient_length [of f x g1 S]
  by (simp add: evaluate_gradient_dense)

theorem gradient_independent_of_buffer_witness:
  "fst (evaluate_gradient coupled_function [3, 1, 2] []) = Inr 8 \<and>
   fst (snd (evaluate_gradient coupled_function [3, 1, 2] [])) =
     fst (snd (evaluate_gradient coupled_function [3, 1, 2] [9, 9, 9, 9, 9])) \<and>
   fst (evaluate_dense coupled_function [3, 1, 2] [] (Some [])) = Inr 8 \<and>
   fst (snd (evaluate_dense coupled_function [3, 1, 2] [] (Some []))) =
     fst (snd (evaluate_dense coupled_function [3, 1, 2] [9, 9, 9, 9, 9] (Some []))) \<and>
   fst (evaluate_sparse coupled_function [3, 1, 2] []
         (Some \<lparr>sp_rows = 3, sp_cols = 3, sp_coefficients = []\<rparr>)) = Inr 8 \<and>
   fst (snd (evaluate_sparse coupled_function [3, 1, 2] []
         (Some \<lparr>sp_rows = 3, sp_cols = 3, sp_coefficients = []\<rparr>))) =
     fst (snd (evaluate_sparse coupled_function [3, 1, 2] [9, 9, 9, 9, 9]
         (Some \<lparr>sp_rows = 3, sp_cols = 3, sp_coefficients = []\<rparr>)))"
proof -
  have a: "fst (evaluate_gradient coupled_function [3, 1, 2] []) = Inr 8" by code_simp
  have b: "fst (evaluate_dense coupled_function [3, 1, 2] [] (Some [])) = Inr 8" by code_simp
  have c: "fst (evaluate_sparse coupled_function [3, 1, 2] []
         (Some \<lparr>sp_rows = 3, sp_cols = 3, sp_coefficients = []\<rparr>)) = Inr 8" by code_simp
  from a b c
    gradient_independent_of_buffer [of coupled_function "[3, 1, 2]" "[]" "[9, 9, 9, 9, 9]" "Some []"
      "Some \<lparr>sp_rows = 3, sp_cols = 3, sp_coefficients = []\<rparr>"]
  show ?thesis by simp
qed

subsection \<open>The registry of variables\<close>

lemma map_assign_same: "map_of xs k = Some v \<Longrightarrow> map_assign k v xs = xs"
  by (induction xs) (auto split: if_splits)

lemma length_map_assign: "length (map_assign k v xs) = length xs"
  by (induction xs) auto

lemma map_of_map_assign:
  "map_of (map_assign k v xs) k' =
     (if k' = k \<and> map_of xs k \<noteq> None then Some v else map_of xs k')"
  by (induction xs) auto

lemma map_of_map_insert: "map_of (map_insert k v xs) = (map_of xs)(k \<mapsto> v)"
  by (induction xs) (auto simp add: fun_upd_twist)

lemma find_variable_flag [simp]:
  "find_variable (f\<lparr>local_storage_allocated := b\<rparr>) = find_variable f"
  by (simp add: find_variable_def fun_eq_iff)

lemma sum_map_assign:
  "map_of xs k = Some v \<Longrightarrow> g (k, v') = g (k, v) \<Longrightarrow>
     sum_list (map g (map_assign k v' xs)) = (sum_list (map g xs) :: int)"
  by (induction xs) (auto split: if_splits)

lemma sum_map_insert:
  "map_of xs k = None \<Longrightarrow>
     sum_list (map g (map_insert k v xs)) = g (k, v) + (sum_list (map g xs) :: int)"
  by (induction xs) (auto split: if_splits)

lemma size_t_add_int_plain:
  "0 \<le> d \<Longrightarrow> int n + d < 2 ^ 64 \<Longrightarrow> size_t_add_int n d = n + nat d"
  by (simp add: size_t_add_int_def nat_add_distrib)

lemma register_step_total:
  assumes "sizes_non_negative (variable, dimension, cov)"
    and "int (number_of_scalars f) + requested_solver_dimension (variable, dimension, cov) < 2 ^ 64"
    and "int (number_of_scalars f) = total_solver_dimension f"
  shows "int (number_of_scalars (snd (add_variable_internal variable dimension cov f))) =
           total_solver_dimension (snd (add_variable_internal variable dimension cov f)) \<and>
         number_of_scalars f \<le> number_of_scalars (snd (add_variable_internal variable dimension cov f)) \<and>
         int (number_of_scalars (snd (add_variable_internal variable dimension cov f))) \<le>
           int (number_of_scalars f) + requested_solver_dimension (variable, dimension, cov)"
proof (cases "find_variable f variable")
  case (Some var_info)
  then have m: "map_of (variables f) variable = Some var_info" by (simp add: find_variable_def)
  have "sum_list (map (\<lambda>(p, v). solver_dimension v)
          (map_assign variable (var_info\<lparr>change_of_variables := cov\<rparr>) (variables f))) =
        sum_list (map (\<lambda>(p, v). solver_dimension v) (variables f))"
    by (rule sum_map_assign [OF m]) simp
  with Some assms show ?thesis
    by (auto simp add: add_variable_internal_def Let_def total_solver_dimension_def
        sizes_non_negative_def requested_solver_dimension_def split: option.splits)
next
  case None
  then have m: "map_of (variables f) variable = None" by (simp add: find_variable_def)
  note s = sum_map_insert [OF m, of "\<lambda>(p, v). solver_dimension v"]
  show ?thesis
  proof (cases cov)
    case n: None
    with None assms s show ?thesis
      by (simp add: add_variable_internal_def Let_def total_solver_dimension_def
        sizes_non_negative_def requested_solver_dimension_def allocate_variable_def
        AddedVariable_new_def size_t_add_int_plain)
  next
    case (Some c)
    with None assms s show ?thesis
      by (simp add: add_variable_internal_def Let_def total_solver_dimension_def
        sizes_non_negative_def requested_solver_dimension_def allocate_variable_def
        AddedVariable_new_def size_t_add_int_plain)
  qed
qed

lemma register_all_append:
  "register_all (xs @ ys) f = register_all ys (register_all xs f)"
  by (induction xs arbitrary: f) auto

lemma requested_non_negative:
  "sizes_non_negative r \<Longrightarrow> 0 \<le> requested_solver_dimension r"
  by (auto simp add: sizes_non_negative_def requested_solver_dimension_def split: option.splits)

lemma register_all_total:
  assumes "\<forall>r \<in> set calls. sizes_non_negative r"
    and "int (number_of_scalars f) + sum_list (map requested_solver_dimension calls) < 2 ^ 64"
    and "int (number_of_scalars f) = total_solver_dimension f"
  shows "int (number_of_scalars (register_all calls f)) =
           total_solver_dimension (register_all calls f) \<and>
         number_of_scalars f \<le> number_of_scalars (register_all calls f) \<and>
         int (number_of_scalars (register_all calls f)) \<le>
           int (number_of_scalars f) + sum_list (map requested_solver_dimension calls)"
  using assms
proof (induction calls arbitrary: f)
  case Nil
  then show ?case by simp
next
  case (Cons r calls)
  obtain variable dimension cov where r: "r = (variable, dimension, cov)"
    by (cases r) auto
  define f' where "f' = snd (add_variable_internal variable dimension cov f)"
  have nn: "sizes_non_negative (variable, dimension, cov)" using Cons.prems(1) r by simp
  have rest: "0 \<le> sum_list (map requested_solver_dimension calls)"
    using Cons.prems(1) by (auto intro!: sum_list_nonneg requested_non_negative)
  have b: "int (number_of_scalars f) + requested_solver_dimension (variable, dimension, cov) < 2 ^ 64"
    using Cons.prems(2) rest r by simp
  note step = register_step_total [OF nn b Cons.prems(3), folded f'_def]
  have "int (number_of_scalars f') + sum_list (map requested_solver_dimension calls) < 2 ^ 64"
    using step Cons.prems(2) r by simp
  then have "int (number_of_scalars (register_all calls f')) =
           total_solver_dimension (register_all calls f') \<and>
         number_of_scalars f' \<le> number_of_scalars (register_all calls f') \<and>
         int (number_of_scalars (register_all calls f')) \<le>
           int (number_of_scalars f') + sum_list (map requested_solver_dimension calls)"
    using Cons.IH [of f'] Cons.prems(1) step by simp
  with step show ?case by (simp add: r f'_def)
qed

lemma set_map_insert: "set (map_insert k v xs) \<subseteq> insert (k, v) (set xs)"
  by (induction xs) (auto split: if_splits)

lemma set_map_assign: "set (map_assign k v xs) \<subseteq> insert (k, v) (set xs)"
  by (induction xs) (auto split: if_splits)

lemma in_map_insertD: "e \<in> set (map_insert k v xs) \<Longrightarrow> e = (k, v) \<or> e \<in> set xs"
  using set_map_insert [of k v xs] by blast

lemma in_map_assignD: "e \<in> set (map_assign k v xs) \<Longrightarrow> e = (k, v) \<or> e \<in> set xs"
  using set_map_assign [of k v xs] by blast

lemma register_step_agree:
  assumes "\<forall>(p, v) \<in> set (variables f). solver_dimension v = user_dimension v"
  shows "\<forall>(p, v) \<in> set (variables (snd (add_variable_internal variable dimension None f))).
           solver_dimension v = user_dimension v"
proof (cases "find_variable f variable")
  case None
  with assms show ?thesis
    by (auto simp add: add_variable_internal_def Let_def allocate_variable_def
          AddedVariable_new_def dest!: in_map_insertD)
next
  case (Some var_info)
  then have "(variable, var_info) \<in> set (variables f)"
    by (simp add: find_variable_def map_of_SomeD)
  with assms have "solver_dimension var_info = user_dimension var_info" by auto
  with Some assms show ?thesis
    by (auto simp add: add_variable_internal_def Let_def dest!: in_map_assignD)
qed

lemma register_all_agree:
  assumes "\<forall>r \<in> set calls. without_transform r"
    and "\<forall>(p, v) \<in> set (variables f). solver_dimension v = user_dimension v"
  shows "\<forall>(p, v) \<in> set (variables (register_all calls f)). solver_dimension v = user_dimension v"
  using assms
proof (induction calls arbitrary: f)
  case Nil
  then show ?case by simp
next
  case (Cons r calls)
  obtain variable dimension where r: "r = (variable, dimension, None)"
    using Cons.prems(1) by (cases r) (auto simp add: without_transform_def)
  show ?case
    using Cons.IH [OF _ register_step_agree [OF Cons.prems(2), of variable dimension]] Cons.prems(1)
    by (simp add: r)
qed

lemma totals_agree:
  "\<forall>(p, v) \<in> set (variables f). solver_dimension v = user_dimension v \<Longrightarrow>
   total_user_dimension f = total_solver_dimension f"
  unfolding total_user_dimension_def total_solver_dimension_def
  by (rule arg_cong [where f = sum_list]) auto

lemma offset_kept:
  assumes "find_variable f p = Some var_info"
  shows "\<exists>var_info'. find_variable (snd (add_variable_internal variable dimension cov f)) p
            = Some var_info' \<and> global_index var_info' = global_index var_info"
proof (cases "find_variable f variable")
  case None
  with assms have "variable \<noteq> p" by auto
  with None assms show ?thesis
    by (auto simp add: add_variable_internal_def Let_def allocate_variable_def find_variable_def
        map_of_map_insert split: option.splits)
next
  case (Some v)
  with assms show ?thesis
    by (auto simp add: add_variable_internal_def Let_def find_variable_def map_of_map_assign
        split: option.splits)
qed

lemma offset_kept_all:
  assumes "find_variable f p = Some var_info"
  shows "\<exists>var_info'. find_variable (register_all calls f) p = Some var_info' \<and>
           global_index var_info' = global_index var_info"
  using assms
proof (induction calls arbitrary: f var_info)
  case Nil
  then show ?case by simp
next
  case (Cons r calls)
  obtain variable dimension cov where r: "r = (variable, dimension, cov)"
    by (cases r) auto
  from offset_kept [OF Cons.prems, of variable dimension cov]
  obtain v' where v': "find_variable (snd (add_variable_internal variable dimension cov f)) p = Some v'"
    "global_index v' = global_index var_info" by blast
  from Cons.IH [OF v'(1)] v'(2) show ?case by (simp add: r)
qed

lemma first_registration_offset:
  assumes "find_variable f variable = None"
    and "fst (add_variable_internal variable dimension cov f) = None"
  shows "\<exists>var_info. find_variable (snd (add_variable_internal variable dimension cov f)) variable
            = Some var_info \<and> global_index var_info = number_of_scalars f"
  using assms
  by (auto simp add: add_variable_internal_def Let_def allocate_variable_def find_variable_def
      map_of_map_insert split: option.splits if_splits)

lemma Function_new_total: "int (number_of_scalars Function_new) = total_solver_dimension Function_new"
  by (simp add: Function_new_def total_solver_dimension_def)

text \<open>
  What registration guarantees. A caller makes any sequence of registrations, starting
  from a new \<open>Function\<close>, in which every dimension is a size (not negative) and the
  requested solver dimensions add up to less than \<open>2 ^ 64\<close>; calls may fail. Then
  \<^item> \<open>get_number_of_scalars\<close> is the sum of \<open>solver_dimension\<close> over the variables in
    the map;
  \<^item> if no call of the sequence carried a transform, it is also the sum of
    \<open>user_dimension\<close>;
  \<^item> \<open>get_number_of_scalars\<close> never decreases along the sequence;
  \<^item> a variable whose first registration succeeds has, at the end of the sequence, the
    \<open>global_index\<close> that was \<open>get_number_of_scalars\<close> just before that registration.
\<close>

theorem registration_totals_and_offsets:
  assumes "\<forall>r \<in> set calls. sizes_non_negative r"
    and "sum_list (map requested_solver_dimension calls) < 2 ^ 64"
  shows
   "int (get_number_of_scalars (register_all calls Function_new)) =
      total_solver_dimension (register_all calls Function_new) \<and>
    ((\<forall>r \<in> set calls. without_transform r) \<longrightarrow>
      int (get_number_of_scalars (register_all calls Function_new)) =
        total_user_dimension (register_all calls Function_new)) \<and>
    (\<forall>pre post. calls = pre @ post \<longrightarrow>
      get_number_of_scalars (register_all pre Function_new) \<le>
        get_number_of_scalars (register_all calls Function_new)) \<and>
    (\<forall>pre variable dimension cov post.
      calls = pre @ (variable, dimension, cov) # post \<longrightarrow>
      find_variable (register_all pre Function_new) variable = None \<longrightarrow>
      fst (add_variable_internal variable dimension cov (register_all pre Function_new)) = None \<longrightarrow>
      map_option global_index (find_variable (register_all calls Function_new) variable) =
        Some (get_number_of_scalars (register_all pre Function_new)))"
proof -
  have n0: "int (number_of_scalars Function_new) + sum_list (map requested_solver_dimension calls) < 2 ^ 64"
    using assms(2) by (simp add: Function_new_def)
  note total = register_all_total [OF assms(1) n0 Function_new_total]
  have a: "int (get_number_of_scalars (register_all calls Function_new)) =
      total_solver_dimension (register_all calls Function_new)"
    using total by (simp add: get_number_of_scalars_def)
  have b: "int (get_number_of_scalars (register_all calls Function_new)) =
        total_user_dimension (register_all calls Function_new)"
    if "\<forall>r \<in> set calls. without_transform r"
  proof -
    have "\<forall>(p, v) \<in> set (variables (register_all calls Function_new)).
            solver_dimension v = user_dimension v"
      by (rule register_all_agree [OF that]) (simp add: Function_new_def)
    from totals_agree [OF this] a show ?thesis by simp
  qed
  have c: "get_number_of_scalars (register_all pre Function_new) \<le>
        get_number_of_scalars (register_all calls Function_new)"
    if split: "calls = pre @ post" for pre post
  proof -
    have p1: "\<forall>r \<in> set pre. sizes_non_negative r" and p2: "\<forall>r \<in> set post. sizes_non_negative r"
      using assms(1) split by auto
    have nonneg: "0 \<le> sum_list (map requested_solver_dimension post)"
      "0 \<le> sum_list (map requested_solver_dimension pre)"
      using p1 p2 by (auto intro!: sum_list_nonneg requested_non_negative)
    have b1: "int (number_of_scalars Function_new) + sum_list (map requested_solver_dimension pre) < 2 ^ 64"
      using assms(2) split nonneg by (simp add: Function_new_def)
    note t1 = register_all_total [OF p1 b1 Function_new_total]
    have b2: "int (number_of_scalars (register_all pre Function_new)) +
        sum_list (map requested_solver_dimension post) < 2 ^ 64"
      using t1 assms(2) split by (simp add: Function_new_def)
    from register_all_total [OF p2 b2] t1 show ?thesis
      by (simp add: split register_all_append get_number_of_scalars_def)
  qed
  have d: "map_option global_index (find_variable (register_all calls Function_new) variable) =
        Some (get_number_of_scalars (register_all pre Function_new))"
    if split: "calls = pre @ (variable, dimension, cov) # post"
      and new: "find_variable (register_all pre Function_new) variable = None"
      and ok: "fst (add_variable_internal variable dimension cov (register_all pre Function_new)) = None"
    for pre variable dimension cov post
  proof -
    from first_registration_offset [OF new ok] obtain var_info where
      v: "find_variable (snd (add_variable_internal variable dimension cov
            (register_all pre Function_new))) variable = Some var_info"
         "global_index var_info = number_of_scalars (register_all pre Function_new)"
      by blast
    from offset_kept_all [OF v(1), of post] v(2) show ?thesis
      by (auto simp add: split register_all_append get_number_of_scalars_def)
  qed
  from a b c d show ?thesis by blast
qed

theorem registration_totals_and_offsets_witness:
  "get_number_of_scalars (register_all plain_calls Function_new) = 3 \<and>
   total_solver_dimension (register_all plain_calls Function_new) = 3 \<and>
   total_user_dimension (register_all plain_calls Function_new) = 3 \<and>
   get_number_of_scalars (register_all [(block_a, 1, None)] Function_new) = 1 \<and>
   map_option global_index (find_variable (register_all plain_calls Function_new) block_b) = Some 1"
proof -
  have h1: "\<forall>r \<in> set plain_calls. sizes_non_negative r"
    by (simp add: plain_calls_def sizes_non_negative_def)
  have h2: "sum_list (map requested_solver_dimension plain_calls) < 2 ^ 64"
    by (simp add: plain_calls_def requested_solver_dimension_def)
  have h3: "\<forall>r \<in> set plain_calls. without_transform r"
    by (simp add: plain_calls_def without_transform_def)
  have h4: "plain_calls = [(block_a, 1, None)] @ (block_b, 2, None) # []"
    by (simp add: plain_calls_def)
  have h5: "find_variable (register_all [(block_a, 1, None)] Function_new) block_b = None"
    by code_simp
  have h6: "fst (add_variable_internal block_b 2 None (register_all [(block_a, 1, None)] Function_new)) = None"
    by code_simp
  have h7: "get_number_of_scalars (register_all plain_calls Function_new) = 3"
    "get_number_of_scalars (register_all [(block_a, 1, None)] Function_new) = 1"
    by code_simp+
  from registration_totals_and_offsets [OF h1 h2] h3 h4 h5 h6 h7 show ?thesis
    by (metis of_nat_numeral)
qed

text \<open>
  C5. The claim fails on the code. A transform with user dimension 2 and solver
  dimension 1 is installed on a new block, and the block is registered again without a
  transform; both calls succeed. Then no transform is installed,
  \<open>get_number_of_scalars\<close> is 1, which is the sum of \<open>solver_dimension\<close>, and the
  user dimensions sum to 2. The branch of \<open>add_variable_internal\<close> for a registered
  block compares \<open>solver_dimension\<close> with the \<open>t_dimension\<close> of the new transform
  ("t_dimension can not change.") only when a transform is given: in the other order
  of the two calls the second one throws. After the removal the slice of the variable
  is read with its user dimension, so \<open>evaluate\<close> on a vector of
  \<open>get_number_of_scalars\<close> entries reads outside it.
\<close>

theorem transform_removal_keeps_solver_dimension:
  "fst (add_variable_internal block_a 2 (Some diagonal) Function_new) = None \<and>
   fst (add_variable_internal block_a 2 None
         (snd (add_variable_internal block_a 2 (Some diagonal) Function_new))) = None \<and>
   no_transform_installed (register_all removal_calls Function_new) \<and>
   get_number_of_scalars (register_all removal_calls Function_new) = 1 \<and>
   total_solver_dimension (register_all removal_calls Function_new) = 1 \<and>
   total_user_dimension (register_all removal_calls Function_new) = 2 \<and>
   fst (evaluate (register_all removal_calls Function_new) [3]) = Inl OutOfBounds \<and>
   fst (add_variable_internal block_a 2 (Some diagonal)
         (snd (add_variable_internal block_a 2 None Function_new))) =
     Some TransformDimensionMismatch"
  by code_simp

text \<open>
  A registration that throws after the node has been created leaves the node in the
  map: with the dimension \<open>-1\<close>, \<open>resize\<close> throws, the node keeps
  \<open>solver_dimension = -1\<close> and \<open>get_number_of_scalars\<close> stays 0.
\<close>

lemma negative_dimension_leaves_node:
  "fst (add_variable block_a (- 1) Function_new) = Some LengthError \<and>
   get_number_of_variables (snd (add_variable block_a (- 1) Function_new)) = 1 \<and>
   get_number_of_scalars (snd (add_variable block_a (- 1) Function_new)) = 0 \<and>
   total_solver_dimension (snd (add_variable block_a (- 1) Function_new)) = - 1"
  by code_simp

text \<open>
  C6. Registering again a block that is registered, with the dimension and the
  transform it has, changes nothing but the flag \<open>local_storage_allocated\<close>: the node
  of the variable, with its \<open>global_index\<close>, \<open>get_number_of_scalars\<close> and
  \<open>get_number_of_variables\<close> are as before. The call throws only if the transform of
  the variable does not have the dimensions recorded for the variable.
\<close>

theorem reregistration_same_is_no_op:
  assumes "find_variable f variable = Some var_info"
  shows
    "snd (add_variable_internal variable (user_dimension var_info) (change_of_variables var_info) f) =
       f\<lparr>local_storage_allocated := False\<rparr> \<and>
     find_variable
       (snd (add_variable_internal variable (user_dimension var_info) (change_of_variables var_info) f))
       variable = Some var_info \<and>
     get_number_of_scalars
       (snd (add_variable_internal variable (user_dimension var_info) (change_of_variables var_info) f)) =
       get_number_of_scalars f \<and>
     get_number_of_variables
       (snd (add_variable_internal variable (user_dimension var_info) (change_of_variables var_info) f)) =
       get_number_of_variables f \<and>
     fst (add_variable_internal variable (user_dimension var_info) (change_of_variables var_info) f) =
       (case change_of_variables var_info of
          None \<Rightarrow> None
        | Some c \<Rightarrow>
            if user_dimension var_info = x_dimension c \<and> solver_dimension var_info = t_dimension c
            then None else Some TransformDimensionMismatch)"
proof -
  have s: "snd (add_variable_internal variable (user_dimension var_info)
             (change_of_variables var_info) f) = f\<lparr>local_storage_allocated := False\<rparr>"
    using assms
    by (auto simp add: add_variable_internal_def find_variable_def Let_def map_assign_same
        split: option.splits)
  have e: "fst (add_variable_internal variable (user_dimension var_info) (change_of_variables var_info) f) =
       (case change_of_variables var_info of
          None \<Rightarrow> None
        | Some c \<Rightarrow>
            if user_dimension var_info = x_dimension c \<and> solver_dimension var_info = t_dimension c
            then None else Some TransformDimensionMismatch)"
    using assms
    by (auto simp add: add_variable_internal_def Let_def split: option.splits)
  from s e assms show ?thesis
    by (simp add: get_number_of_scalars_def get_number_of_variables_def)
qed

theorem reregistration_same_is_no_op_witness:
  "find_variable coupled_function block_b =
     Some \<lparr>user_dimension = 2, solver_dimension = 2, global_index = 1,
           change_of_variables = None, temp_space = [0, 0]\<rparr> \<and>
   add_variable_internal block_b 2 None coupled_function =
     (None, coupled_function\<lparr>local_storage_allocated := False\<rparr>) \<and>
   get_number_of_scalars (snd (add_variable_internal block_b 2 None coupled_function)) = 3 \<and>
   get_number_of_variables (snd (add_variable_internal block_b 2 None coupled_function)) = 2"
proof -
  have fields:
    "map_option user_dimension (find_variable coupled_function block_b) = Some 2"
    "map_option solver_dimension (find_variable coupled_function block_b) = Some 2"
    "map_option global_index (find_variable coupled_function block_b) = Some 1"
    "map_option temp_space (find_variable coupled_function block_b) = Some [0, 0]"
    "map_option (\<lambda>v. case change_of_variables v of None \<Rightarrow> True | Some c \<Rightarrow> False)
       (find_variable coupled_function block_b) = Some True"
    by code_simp+
  then obtain v where v: "find_variable coupled_function block_b = Some v" by auto
  with fields have "v = \<lparr>user_dimension = 2, solver_dimension = 2, global_index = 1,
           change_of_variables = None, temp_space = [0, 0]\<rparr>"
    by (cases v) (auto split: option.splits)
  with v have h: "find_variable coupled_function block_b =
     Some \<lparr>user_dimension = 2, solver_dimension = 2, global_index = 1,
           change_of_variables = None, temp_space = [0, 0]\<rparr>"
    by simp
  have n: "get_number_of_scalars coupled_function = 3" "get_number_of_variables coupled_function = 2"
    by code_simp+
  from reregistration_same_is_no_op [OF h] h n show ?thesis
    by (simp add: prod_eq_iff get_number_of_scalars_def get_number_of_variables_def)
qed

subsection \<open>Adding a term\<close>

lemma check_arguments_flag:
  "check_arguments (f\<lparr>local_storage_allocated := b\<rparr>) trm arguments xs =
     check_arguments f trm arguments xs"
  by (induction xs) (auto split: option.splits)

lemma check_arguments_append:
  "\<forall>j \<in> set xs. argument_ok f trm arguments j \<Longrightarrow>
   check_arguments f trm arguments (xs @ ys) = check_arguments f trm arguments ys"
  by (induction xs) (auto simp add: argument_ok_def split: option.splits)

lemma check_arguments_ok:
  "\<forall>j \<in> set xs. argument_ok f trm arguments j \<Longrightarrow> check_arguments f trm arguments xs = None"
  using check_arguments_append [of xs f trm arguments "[]"] by simp

lemma check_arguments_first:
  assumes "k < n" and "\<forall>j < k. argument_ok f trm arguments j"
  shows "check_arguments f trm arguments [0..<n] =
     (case find_variable f (arguments ! k) of
        None \<Rightarrow> Some UnknownVariable
      | Some var_info \<Rightarrow>
          if user_dimension var_info \<noteq> variable_dimension trm (int k)
          then Some VariableDimensionMismatch
          else check_arguments f trm arguments [Suc k..<n])"
proof -
  have "[0..<n] = [0..<k] @ [k..<n]"
    using upt_add_eq_append [of 0 k "n - k"] assms(1) by simp
  moreover have "[k..<n] = k # [Suc k..<n]"
    using assms(1) by (simp add: upt_conv_Cons)
  ultimately have "[0..<n] = [0..<k] @ k # [Suc k..<n]" by simp
  then show ?thesis using assms(2) by (simp add: check_arguments_append)
qed

lemma check_arguments_error:
  "check_arguments f trm arguments xs = Some e \<Longrightarrow>
     e = UnknownVariable \<or> e = VariableDimensionMismatch"
  by (induction xs) (auto split: option.splits if_splits)

lemma check_arguments_None:
  "check_arguments f trm arguments xs = None \<Longrightarrow> \<forall>j \<in> set xs. argument_ok f trm arguments j"
  by (induction xs) (auto simp add: argument_ok_def split: option.splits if_splits)

text \<open>
  C7, as amended. \<open>add_term\<close> throws \<open>ArityMismatch\<close> when the number of arguments
  is not the arity of the term. Otherwise the arguments are checked in order, and the
  first argument \<open>k\<close> that fails a check decides: \<open>UnknownVariable\<close> when its block is
  not registered, \<open>VariableDimensionMismatch\<close> when its block is registered with a
  dimension other than the one the term declares. Whenever the arity differs or some
  argument fails a check, one of the three errors is thrown. Whenever \<open>add_term\<close>
  throws, the state is as before but for the flag \<open>local_storage_allocated\<close>: no
  binding is appended and \<open>get_number_of_terms\<close> is unchanged.
\<close>

theorem add_term_failures:
  "(number_of_variables trm \<noteq> int (length arguments) \<longrightarrow>
      fst (add_term trm arguments f) = Some ArityMismatch) \<and>
   (number_of_variables trm = int (length arguments) \<and> k < length arguments \<and>
    (\<forall>j < k. argument_ok f trm arguments j) \<and> find_variable f (arguments ! k) = None \<longrightarrow>
      fst (add_term trm arguments f) = Some UnknownVariable) \<and>
   (number_of_variables trm = int (length arguments) \<and> k < length arguments \<and>
    (\<forall>j < k. argument_ok f trm arguments j) \<and> find_variable f (arguments ! k) = Some var_info \<and>
    user_dimension var_info \<noteq> variable_dimension trm (int k) \<longrightarrow>
      fst (add_term trm arguments f) = Some VariableDimensionMismatch) \<and>
   (number_of_variables trm \<noteq> int (length arguments) \<or>
    (\<exists>j < length arguments. \<not> argument_ok f trm arguments j) \<longrightarrow>
      fst (add_term trm arguments f) = Some ArityMismatch \<or>
      fst (add_term trm arguments f) = Some UnknownVariable \<or>
      fst (add_term trm arguments f) = Some VariableDimensionMismatch) \<and>
   (fst (add_term trm arguments f) \<noteq> None \<longrightarrow>
      snd (add_term trm arguments f) = f\<lparr>local_storage_allocated := False\<rparr> \<and>
      terms (snd (add_term trm arguments f)) = terms f \<and>
      get_number_of_terms (snd (add_term trm arguments f)) = get_number_of_terms f)"
proof -
  have arity: "fst (add_term trm arguments f) = Some ArityMismatch"
    if "number_of_variables trm \<noteq> int (length arguments)"
    using that by (simp add: add_term_def)
  have first: "fst (add_term trm arguments f) =
     (case find_variable f (arguments ! k) of
        None \<Rightarrow> Some UnknownVariable
      | Some v \<Rightarrow>
          if user_dimension v \<noteq> variable_dimension trm (int k)
          then Some VariableDimensionMismatch
          else fst (add_term trm arguments f))"
    if "number_of_variables trm = int (length arguments)" "k < length arguments"
       "\<forall>j < k. argument_ok f trm arguments j"
    using that check_arguments_first [of k "length arguments" f trm arguments]
    by (auto simp add: add_term_def Let_def check_arguments_flag split: option.splits)
  have some: "fst (add_term trm arguments f) = Some ArityMismatch \<or>
      fst (add_term trm arguments f) = Some UnknownVariable \<or>
      fst (add_term trm arguments f) = Some VariableDimensionMismatch"
    if "number_of_variables trm \<noteq> int (length arguments) \<or>
        (\<exists>j < length arguments. \<not> argument_ok f trm arguments j)"
  proof (cases "number_of_variables trm = int (length arguments)")
    case False
    then show ?thesis using arity by simp
  next
    case True
    with that obtain j where j: "j < length arguments" "\<not> argument_ok f trm arguments j" by auto
    have "check_arguments f trm arguments [0..<length arguments] \<noteq> None"
    proof
      assume "check_arguments f trm arguments [0..<length arguments] = None"
      from check_arguments_None [OF this] j show False by simp
    qed
    then obtain e where e: "check_arguments f trm arguments [0..<length arguments] = Some e"
      by auto
    from check_arguments_error [OF e] e True show ?thesis
      by (auto simp add: add_term_def Let_def check_arguments_flag)
  qed
  have unchanged: "snd (add_term trm arguments f) = f\<lparr>local_storage_allocated := False\<rparr>"
    if "fst (add_term trm arguments f) \<noteq> None"
    using that by (auto simp add: add_term_def Let_def split: option.splits if_splits)
  show ?thesis
    using arity first some unchanged
    by (auto simp add: get_number_of_terms_def)
qed

theorem add_term_failures_witness:
  "fst (add_term coupled_term [block_a] coupled_function) = Some ArityMismatch \<and>
   fst (add_term coupled_term [block_a, 300] coupled_function) = Some UnknownVariable \<and>
   fst (add_term coupled_term [block_b, block_a] coupled_function) = Some VariableDimensionMismatch \<and>
   snd (add_term coupled_term [block_b, block_a] coupled_function) =
     coupled_function\<lparr>local_storage_allocated := False\<rparr> \<and>
   get_number_of_terms (snd (add_term coupled_term [block_a, 300] coupled_function)) =
     get_number_of_terms coupled_function"
proof -
  have a1: "number_of_variables coupled_term \<noteq> int (length [block_a])"
    by (simp add: coupled_term_def)
  have a2: "number_of_variables coupled_term = int (length [block_a, 300])"
    "number_of_variables coupled_term = int (length [block_b, block_a])"
    by (simp_all add: coupled_term_def)
  have ok0: "argument_ok coupled_function coupled_term [block_a, 300] 0" by code_simp
  then have b2: "\<forall>j < 1. argument_ok coupled_function coupled_term [block_a, 300] j" by simp
  have b3: "find_variable coupled_function ([block_a, 300] ! 1) = None" by code_simp
  have "map_option user_dimension (find_variable coupled_function ([block_b, block_a] ! 0)) = Some 2"
    by code_simp
  then obtain v where c3: "find_variable coupled_function ([block_b, block_a] ! 0) = Some v"
    and c4: "user_dimension v = 2" by auto
  have c5: "user_dimension v \<noteq> variable_dimension coupled_term (int 0)"
    using c4 by (simp add: coupled_term_def)
  from add_term_failures [of coupled_term "[block_a]" coupled_function] a1
  have r1: "fst (add_term coupled_term [block_a] coupled_function) = Some ArityMismatch" by blast
  from add_term_failures [of coupled_term "[block_a, 300]" coupled_function 1] a2 b2 b3
  have r2: "fst (add_term coupled_term [block_a, 300] coupled_function) = Some UnknownVariable \<and>
    get_number_of_terms (snd (add_term coupled_term [block_a, 300] coupled_function)) =
     get_number_of_terms coupled_function"
    by (simp add: get_number_of_terms_def)
  from add_term_failures [of coupled_term "[block_b, block_a]" coupled_function 0 v] a2 c3 c5
  have r3: "fst (add_term coupled_term [block_b, block_a] coupled_function) = Some VariableDimensionMismatch \<and>
    snd (add_term coupled_term [block_b, block_a] coupled_function) =
     coupled_function\<lparr>local_storage_allocated := False\<rparr>"
    by simp
  from r1 r2 r3 show ?thesis by simp
qed

text \<open>
  C7 as stated fails where two conditions meet: with a first argument that is
  registered with the wrong dimension and a second argument that is not registered,
  \<open>add_term\<close> throws \<open>VariableDimensionMismatch\<close>, not \<open>UnknownVariable\<close>.
\<close>

theorem add_term_unknown_variable_counterexample:
  "number_of_variables coupled_term = int (length [block_a, block_b]) \<and>
   find_variable mismatched_function block_b = None \<and>
   fst (add_term coupled_term [block_a, block_b] mismatched_function) = Some VariableDimensionMismatch"
  by code_simp

subsection \<open>Dense and sparse Hessians\<close>

lemma fold_throw_append:
  "fold_throw body (xs @ ys) s =
     (case fold_throw body xs s of
        (Some e, s') \<Rightarrow> (Some e, s')
      | (None, s') \<Rightarrow> fold_throw body ys s')"
  by (induction xs arbitrary: s) (auto split: prod.splits option.splits)

lemma add_triplets_Nil: "add_triplets [] H = (None, H)"
  by (simp add: add_triplets_def)

lemma add_triplets_append:
  "add_triplets (xs @ ys) H =
     (case add_triplets xs H of
        (Some e, H') \<Rightarrow> (Some e, H')
      | (None, H') \<Rightarrow> add_triplets ys H')"
  unfolding add_triplets_def fold_throw_append ..

lemma matrix_add_at_error: "matrix_add_at M i j a = (Some e, M') \<Longrightarrow> e = OutOfBounds"
  by (auto simp add: matrix_add_at_def split: if_splits)

lemma add_triplets_error: "add_triplets ts H = (Some e, H') \<Longrightarrow> e = OutOfBounds"
proof (induction ts arbitrary: H)
  case Nil
  then show ?case by (simp add: add_triplets_def)
next
  case (Cons t ts)
  obtain r c a where t: "t = (r, c, a)" by (cases t) auto
  obtain e1 H1 where m: "matrix_add_at H (nat r) (nat c) a = (e1, H1)" by fastforce
  show ?case
  proof (cases e1)
    case None
    with Cons.prems t m have "add_triplets ts H1 = (Some e, H')" by (simp add: add_triplets_def)
    then show ?thesis by (rule Cons.IH)
  next
    case (Some e')
    with Cons.prems t m matrix_add_at_error [of H "nat r" "nat c" a e' H1] show ?thesis
      by (simp add: add_triplets_def)
  qed
qed

lemma assembles_fail: "assembles (\<lambda>ts. (Some OutOfBounds, ts)) (\<lambda>H. (Some OutOfBounds, H))"
  unfolding assembles_def
  by (rule exI [of _ "Some OutOfBounds"], rule exI [of _ "[]"]) (simp add: add_triplets_Nil)

lemma assembles_Nil: "assembles (\<lambda>ts. (None, ts)) (\<lambda>H. (None, H))"
  unfolding assembles_def
  by (rule exI [of _ None], rule exI [of _ "[]"]) (simp add: add_triplets_Nil)

lemma assembles_entry:
  "assembles (\<lambda>ts. (None, ts @ [(int i, int j, a)])) (\<lambda>H. matrix_add_at H i j a)"
  unfolding assembles_def
  by (rule exI [of _ None], rule exI [of _ "[(int i, int j, a)]"])
     (auto simp add: add_triplets_def split: prod.splits option.splits)

lemma assembles_seq:
  assumes "assembles sp1 de1" and "assembles sp2 de2"
  shows "assembles
     (\<lambda>ts. case sp1 ts of (Some e, ts') \<Rightarrow> (Some e, ts') | (None, ts') \<Rightarrow> sp2 ts')
     (\<lambda>H. case de1 H of (Some e, H') \<Rightarrow> (Some e, H') | (None, H') \<Rightarrow> de2 H')"
proof -
  from assms(1) obtain e1 new1 where
    a1: "e1 = None \<or> e1 = Some OutOfBounds" "list_all (\<lambda>(r, c, a). 0 \<le> r \<and> 0 \<le> c) new1"
      "\<And>ts. sp1 ts = (e1, ts @ new1)"
      "\<And>H. de1 H = (case add_triplets new1 H of
                        (Some e, H') \<Rightarrow> (Some e, H') | (None, H') \<Rightarrow> (e1, H'))"
    unfolding assembles_def by blast
  from assms(2) obtain e2 new2 where
    a2: "e2 = None \<or> e2 = Some OutOfBounds" "list_all (\<lambda>(r, c, a). 0 \<le> r \<and> 0 \<le> c) new2"
      "\<And>ts. sp2 ts = (e2, ts @ new2)"
      "\<And>H. de2 H = (case add_triplets new2 H of
                        (Some e, H') \<Rightarrow> (Some e, H') | (None, H') \<Rightarrow> (e2, H'))"
    unfolding assembles_def by blast
  show ?thesis
  proof (cases e1)
    case (Some e)
    with a1(1) have e: "e1 = Some OutOfBounds" by simp
    show ?thesis
      unfolding assembles_def
      apply (rule exI [of _ "Some OutOfBounds"], rule exI [of _ new1])
      using a1 e by (auto split: prod.splits option.splits)
  next
    case None
    show ?thesis
      unfolding assembles_def
      apply (rule exI [of _ e2], rule exI [of _ "new1 @ new2"])
      using a1 a2 None
      by (auto simp add: add_triplets_append split: prod.splits option.splits
          dest: add_triplets_error)
  qed
qed

lemma assembles_fold:
  assumes "\<And>a. a \<in> set as \<Longrightarrow> assembles (bs a) (bd a)"
  shows "assembles (fold_throw bs as) (fold_throw bd as)"
  using assms
proof (induction as)
  case Nil
  have "fold_throw bs [] = (\<lambda>ts. (None, ts))" "fold_throw bd [] = (\<lambda>H. (None, H))"
    by (simp_all add: fun_eq_iff)
  then show ?case using assembles_Nil by simp
next
  case (Cons a as)
  have 1: "assembles (bs a) (bd a)" using Cons.prems by simp
  have 2: "assembles (fold_throw bs as) (fold_throw bd as)" using Cons by simp
  have "fold_throw bs (a # as) =
      (\<lambda>ts. case bs a ts of (Some e, ts') \<Rightarrow> (Some e, ts') | (None, ts') \<Rightarrow> fold_throw bs as ts')"
    "fold_throw bd (a # as) =
      (\<lambda>H. case bd a H of (Some e, H') \<Rightarrow> (Some e, H') | (None, H') \<Rightarrow> fold_throw bd as H')"
    by (simp_all add: fun_eq_iff)
  then show ?case using assembles_seq [OF 1 2] by simp
qed

lemma matrix_at_error: "matrix_at M i j = Inl e \<Longrightarrow> e = OutOfBounds"
  by (auto simp add: matrix_at_def split: if_splits)

lemma user_variable_error: "user_variable f added var = Inl e \<Longrightarrow> e = OutOfBounds"
  by (auto simp add: user_variable_def deref_variable_def split: if_splits option.splits)

lemma hessian_block_error: "hessian_block added var0 var1 = Inl e \<Longrightarrow> e = OutOfBounds"
  by (auto simp add: hessian_block_def split: if_splits)

lemma assembles_block:
  "assembles (push_hessian_block part o0 o1 d0 d1) (add_hessian_block part o0 o1 d0 d1)"
  unfolding push_hessian_block_def add_hessian_block_def
proof (intro assembles_fold)
  fix i j
  show "assembles
     (\<lambda>ts. case matrix_at part i j of
             Inl e \<Rightarrow> (Some e, ts)
           | Inr a \<Rightarrow> (None, ts @ [(int (i + o0), int (j + o1), a)]))
     (\<lambda>H'. case matrix_at part i j of
             Inl e \<Rightarrow> (Some e, H')
           | Inr a \<Rightarrow> matrix_add_at H' (i + o0) (j + o1) a)"
  proof (cases "matrix_at part i j")
    case (Inl e)
    with matrix_at_error [OF Inl] show ?thesis by (simp add: assembles_fail)
  next
    case (Inr a)
    then show ?thesis using assembles_entry [of "i + o0" "j + o1" a] by simp
  qed
qed

lemma assembles_term:
  assumes "\<And>var v. user_variable f added var = Inr v \<Longrightarrow> change_of_variables v = None"
  shows "assembles (sparse_hessian_term f added) (dense_hessian_term f added)"
  unfolding sparse_hessian_term_def dense_hessian_term_def Let_def
proof (intro assembles_fold)
  fix var0
  let ?n = "nat (number_of_variables (added_term added))"
  let ?sp = "\<lambda>v0 var1 ts1.
                  case user_variable f added var1 of
                    Inl e \<Rightarrow> (Some e, ts1)
                  | Inr v1 \<Rightarrow>
                      (case hessian_block added var0 var1 of
                         Inl e \<Rightarrow> (Some e, ts1)
                       | Inr part_hessian \<Rightarrow>
                           push_hessian_block part_hessian (global_index v0) (global_index v1)
                             (nat (variable_dimension (added_term added) (int var0)))
                             (nat (variable_dimension (added_term added) (int var1))) ts1)"
  let ?de = "\<lambda>v0 var1 H1.
                    case user_variable f added var1 of
                      Inl e \<Rightarrow> (Some e, H1)
                    | Inr v1 \<Rightarrow>
                        (case hessian_block added var0 var1 of
                           Inl e \<Rightarrow> (Some e, H1)
                         | Inr part_hessian \<Rightarrow>
                             add_hessian_block part_hessian (global_index v0) (global_index v1)
                               (nat (variable_dimension (added_term added) (int var0)))
                               (nat (variable_dimension (added_term added) (int var1))) H1)"
  have inner: "assembles (?sp v0 var1) (?de v0 var1)" for v0 var1
  proof (cases "user_variable f added var1")
    case (Inl e)
    with user_variable_error [OF Inl] show ?thesis by (simp add: assembles_fail)
  next
    case (Inr v1)
    show ?thesis
    proof (cases "hessian_block added var0 var1")
      case (Inl e)
      with Inr hessian_block_error [OF Inl] show ?thesis by (simp add: assembles_fail)
    next
      case b: (Inr part)
      with Inr show ?thesis using assembles_block by simp
    qed
  qed
  show "assembles
         (\<lambda>ts0. case user_variable f added var0 of
                  Inl e \<Rightarrow> (Some e, ts0)
                | Inr v0 \<Rightarrow> fold_throw (?sp v0) [0..<?n] ts0)
         (\<lambda>H0. case user_variable f added var0 of
                  Inl e \<Rightarrow> (Some e, H0)
                | Inr v0 \<Rightarrow>
                    if change_of_variables v0 \<noteq> None then (Some UnsupportedTransformForHessian, H0)
                    else fold_throw (?de v0) [0..<?n] H0)"
  proof (cases "user_variable f added var0")
    case (Inl e)
    with user_variable_error [OF Inl] show ?thesis by (simp add: assembles_fail)
  next
    case (Inr v0)
    have "change_of_variables v0 = None" using assms Inr by simp
    with Inr show ?thesis
      using assembles_fold [of "[0..<?n]" "?sp v0" "?de v0", OF inner] by simp
  qed
qed

lemma bindings_without_transformD:
  assumes "bindings_without_transform f" and "added \<in> set (terms f)"
    and "user_variable f added var = Inr v"
  shows "change_of_variables v = None"
proof -
  from assms(3) have var: "var < length (user_variables added)"
    and v: "find_variable f (user_variables added ! var) = Some v"
    by (auto simp add: user_variable_def deref_variable_def split: if_splits option.splits)
  from var have "user_variables added ! var \<in> set (user_variables added)" by simp
  with assms(1,2) v show ?thesis
    by (auto simp add: bindings_without_transform_def list_all_iff split: option.splits)
qed

lemma assembles_hessian:
  assumes "bindings_without_transform f"
  shows "assembles (fold_throw (sparse_hessian_term f) (terms f))
           (fold_throw (dense_hessian_term f) (terms f))"
  by (intro assembles_fold assembles_term) (rule bindings_without_transformD [OF assms])

lemma matrix_add_at_inside:
  assumes "rectangular n m M" and "i < n" and "j < m"
  shows "\<exists>M'. matrix_add_at M i j a = (None, M') \<and> rectangular n m M' \<and>
           (\<forall>r < n. \<forall>c < m. M' ! r ! c = M ! r ! c + (if r = i \<and> c = j then a else 0))"
proof -
  from assms have l: "length M = n" "length (M ! i) = m"
    by (auto simp add: rectangular_def list_all_length)
  define M' where "M' = M[i := (M ! i)[j := M ! i ! j + a]]"
  have 1: "matrix_add_at M i j a = (None, M')"
    using assms l by (simp add: matrix_add_at_def M'_def)
  have 2: "rectangular n m M'"
    using assms l by (auto simp add: rectangular_def list_all_length M'_def nth_list_update)
  have 3: "\<forall>r < n. \<forall>c < m. M' ! r ! c = M ! r ! c + (if r = i \<and> c = j then a else 0)"
    using assms l by (auto simp add: M'_def nth_list_update)
  from 1 2 3 show ?thesis by blast
qed

lemma matrix_add_at_outside:
  assumes "rectangular n m M" and "\<not> (i < n \<and> j < m)"
  shows "fst (matrix_add_at M i j a) = Some OutOfBounds"
  using assms by (auto simp add: matrix_add_at_def rectangular_def list_all_length)

lemma triplet_sum_Cons:
  "triplet_sum ((r', c', a) # ts) r c = (if r' = r \<and> c' = c then a else 0) + triplet_sum ts r c"
  by (simp add: triplet_sum_def)

lemma add_triplets_Cons:
  "add_triplets ((r, c, a) # ts) H =
     (case matrix_add_at H (nat r) (nat c) a of
        (Some e, H') \<Rightarrow> (Some e, H')
      | (None, H') \<Rightarrow> add_triplets ts H')"
  by (simp add: add_triplets_def split: prod.splits option.splits)

lemma add_triplets_inside:
  assumes "rectangular n m M"
    and "list_all (\<lambda>(r, c, a). 0 \<le> r \<and> 0 \<le> c) ts"
    and "list_all (\<lambda>(r, c, a). r < int n \<and> c < int m) ts"
  shows "\<exists>M'. add_triplets ts M = (None, M') \<and> rectangular n m M' \<and>
           (\<forall>r < n. \<forall>c < m. M' ! r ! c = M ! r ! c + triplet_sum ts (int r) (int c))"
  using assms
proof (induction ts arbitrary: M)
  case Nil
  then show ?case by (simp add: add_triplets_Nil triplet_sum_def)
next
  case (Cons t ts)
  obtain r c a where t: "t = (r, c, a)" by (cases t) auto
  from Cons.prems t have rc: "0 \<le> r" "0 \<le> c" "nat r < n" "nat c < m" by auto
  from matrix_add_at_inside [OF Cons.prems(1) rc(3,4), of a] obtain M1 where
    M1: "matrix_add_at M (nat r) (nat c) a = (None, M1)" "rectangular n m M1"
      "\<forall>r' < n. \<forall>c' < m. M1 ! r' ! c' = M ! r' ! c' + (if r' = nat r \<and> c' = nat c then a else 0)"
    by blast
  from Cons.IH [OF M1(2)] Cons.prems(2,3) obtain M' where
    M': "add_triplets ts M1 = (None, M')" "rectangular n m M'"
      "\<forall>r' < n. \<forall>c' < m. M' ! r' ! c' = M1 ! r' ! c' + triplet_sum ts (int r') (int c')"
    by auto
  have "add_triplets (t # ts) M = (None, M')"
    using M1(1) M'(1) by (simp add: t add_triplets_Cons)
  moreover have "\<forall>r' < n. \<forall>c' < m.
      M' ! r' ! c' = M ! r' ! c' + triplet_sum (t # ts) (int r') (int c')"
  proof (intro allI impI)
    fix r' c' assume b: "r' < n" "c' < m"
    have "(r' = nat r \<and> c' = nat c) = (r = int r' \<and> c = int c')" using rc by auto
    with M1(3) M'(3) b show "M' ! r' ! c' = M ! r' ! c' + triplet_sum (t # ts) (int r') (int c')"
      by (simp add: t triplet_sum_Cons)
  qed
  ultimately show ?case using M'(2) by blast
qed

lemma add_triplets_outside:
  assumes "rectangular n m M"
    and "list_all (\<lambda>(r, c, a). 0 \<le> r \<and> 0 \<le> c) ts"
    and "\<not> list_all (\<lambda>(r, c, a). r < int n \<and> c < int m) ts"
  shows "fst (add_triplets ts M) = Some OutOfBounds"
  using assms
proof (induction ts arbitrary: M)
  case Nil
  then show ?case by simp
next
  case (Cons t ts)
  obtain r c a where t: "t = (r, c, a)" by (cases t) auto
  from Cons.prems t have rc: "0 \<le> r" "0 \<le> c" by auto
  show ?case
  proof (cases "nat r < n \<and> nat c < m")
    case True
    from matrix_add_at_inside [OF Cons.prems(1), of "nat r" "nat c" a] True obtain M1 where
      M1: "matrix_add_at M (nat r) (nat c) a = (None, M1)" "rectangular n m M1" by blast
    have "\<not> list_all (\<lambda>(r, c, a). r < int n \<and> c < int m) ts"
      using Cons.prems(3) True rc t by auto
    from Cons.IH [OF M1(2) _ this] Cons.prems(2) M1(1) show ?thesis
      by (simp add: t add_triplets_Cons)
  next
    case False
    from matrix_add_at_outside [OF Cons.prems(1) False, of a] show ?thesis
      by (cases "matrix_add_at M (nat r) (nat c) a") (simp add: t add_triplets_Cons)
  qed
qed

lemma rectangular_zero: "rectangular n m (zero_matrix n m)"
  by (simp add: rectangular_def zero_matrix_def list_all_length)

lemma rectangular_eqI:
  assumes "rectangular n m A" and "rectangular n m B"
    and "\<And>r c. r < n \<Longrightarrow> c < m \<Longrightarrow> A ! r ! c = B ! r ! c"
  shows "A = B"
proof (rule nth_equalityI)
  show "length A = length B" using assms(1,2) by (simp add: rectangular_def)
next
  fix r assume "r < length A"
  then have r: "r < n" using assms(1) by (simp add: rectangular_def)
  then have l: "length (A ! r) = m" "length (B ! r) = m"
    using assms(1,2) by (auto simp add: rectangular_def list_all_length)
  show "A ! r = B ! r"
    by (rule nth_equalityI) (use l r assms(3) in auto)
qed

lemma rectangular_densify: "rectangular (nat (sp_rows S)) (nat (sp_cols S)) (densify S)"
  by (simp add: rectangular_def densify_def list_all_length)

lemma coefficient_insert_triplet:
  "(case map_of (insert_triplet (r', c', a) cs) (r, c) of None \<Rightarrow> 0 | Some b \<Rightarrow> b) =
   (case map_of cs (r, c) of None \<Rightarrow> 0 | Some b \<Rightarrow> b) + (if r' = r \<and> c' = c then a else 0)"
proof (induction cs)
  case Nil
  then show ?case by simp
next
  case (Cons k cs)
  obtain r0 c0 a0 where k: "k = ((r0, c0), a0)" by (cases k) auto
  show ?case
  proof (cases "r' = r0 \<and> c' = c0")
    case True
    then show ?thesis by (simp add: k)
  next
    case False
    then have "insert_triplet (r', c', a) (k # cs) = k # insert_triplet (r', c', a) cs"
      by (auto simp add: k)
    moreover have "\<not> (r' = r \<and> c' = c)" if "r = r0 \<and> c = c0" using False that by auto
    ultimately show ?thesis using Cons.IH by (cases "r = r0 \<and> c = c0") (auto simp add: k)
  qed
qed

lemma coefficient_fold_insert:
  "(case map_of (fold insert_triplet ts cs) (r, c) of None \<Rightarrow> 0 | Some b \<Rightarrow> b) =
   (case map_of cs (r, c) of None \<Rightarrow> 0 | Some b \<Rightarrow> b) + triplet_sum ts r c"
proof (induction ts arbitrary: cs)
  case Nil
  then show ?case by (simp add: triplet_sum_def)
next
  case (Cons t ts)
  obtain r' c' a where t: "t = (r', c', a)" by (cases t) auto
  show ?case
    using Cons.IH [of "insert_triplet (r', c', a) cs"] coefficient_insert_triplet [of r' c' a cs r c]
    by (simp add: t triplet_sum_Cons)
qed

lemma fold_throw_rel:
  assumes "R s t"
    and "\<And>a s t. a \<in> set as \<Longrightarrow> R s t \<Longrightarrow>
           fst (b1 a s) = fst (b2 a t) \<and> R (snd (b1 a s)) (snd (b2 a t))"
  shows "fst (fold_throw b1 as s) = fst (fold_throw b2 as t) \<and>
         R (snd (fold_throw b1 as s)) (snd (fold_throw b2 as t))"
  using assms
proof (induction as arbitrary: s t)
  case Nil
  then show ?case by simp
next
  case (Cons a as)
  obtain e1 s1 where 1: "b1 a s = (e1, s1)" by fastforce
  obtain e2 t1 where 2: "b2 a t = (e2, t1)" by fastforce
  from Cons.prems(2) [of a s t] Cons.prems(1) 1 2 have e: "e1 = e2" and r: "R s1 t1" by auto
  show ?case
  proof (cases e1)
    case None
    have "fst (fold_throw b1 as s1) = fst (fold_throw b2 as t1) \<and>
         R (snd (fold_throw b1 as s1)) (snd (fold_throw b2 as t1))"
      by (rule Cons.IH [OF r]) (use Cons.prems(2) in auto)
    with None e 1 2 show ?thesis by simp
  next
    case (Some e')
    with e r 1 2 show ?thesis by auto
  qed
qed

lemma fold_throw_cong:
  assumes "\<And>a s. a \<in> set as \<Longrightarrow> b1 a s = b2 a s"
  shows "fold_throw b1 as s = fold_throw b2 as s"
  using assms by (induction as arbitrary: s) (auto split: prod.splits option.splits)

lemma user_variable_elements [simp]:
  "user_variable (f\<lparr>number_of_hessian_elements := k\<rparr>) = user_variable f"
  by (simp add: fun_eq_iff user_variable_def deref_variable_def find_variable_def)

lemma term_arguments_elements [simp]:
  "term_arguments (f\<lparr>number_of_hessian_elements := k\<rparr>) ps = term_arguments f ps"
  by (induction ps) (auto simp add: deref_variable_def find_variable_def split: option.splits sum.splits)

lemma scatter_gradient_elements [simp]:
  "scatter_gradient sv (f\<lparr>number_of_hessian_elements := k\<rparr>) = scatter_gradient sv f"
  by (simp add: fun_eq_iff scatter_gradient_def)

lemma sparse_hessian_elements [simp]:
  "sparse_hessian (f\<lparr>number_of_hessian_elements := k\<rparr>) = sparse_hessian f"
  by (simp add: sparse_hessian_def sparse_hessian_term_def [abs_def] cong: sum.case_cong)

lemma create_global_gradient_elements [simp]:
  "create_global_gradient (f\<lparr>number_of_hessian_elements := k\<rparr>) g = create_global_gradient f g"
  by (simp add: create_global_gradient_def Let_def)

lemma scatter_gradient_plain:
  assumes "\<And>var v. user_variable f added var = Inr v \<Longrightarrow> change_of_variables v = None"
  shows "scatter_gradient (scatter_variable_dense x) f added g storage =
         scatter_gradient scatter_variable_sparse f added g storage"
  unfolding scatter_gradient_def
proof (rule fold_throw_cong)
  fix var s
  show "(case user_variable f added var of
           Inl e \<Rightarrow> (Some e, s) | Inr var_info \<Rightarrow> scatter_variable_dense x var_info (g var) s) =
        (case user_variable f added var of
           Inl e \<Rightarrow> (Some e, s) | Inr var_info \<Rightarrow> scatter_variable_sparse var_info (g var) s)"
  proof (cases "user_variable f added var")
    case (Inl e)
    then show ?thesis by simp
  next
    case (Inr v)
    with assms have "change_of_variables v = None" by simp
    with Inr show ?thesis
      by (simp add: scatter_variable_dense_def scatter_variable_sparse_def)
  qed
qed

lemma set_at_length: "set_at v k a = (e, v') \<Longrightarrow> length v' = length v"
  by (auto simp add: set_at_def split: if_splits)

lemma add_at_length: "add_at v k a = (e, v') \<Longrightarrow> length v' = length v"
  by (auto simp add: add_at_def split: if_splits)

lemma write_slice_length: "write_slice v off new = (e, v') \<Longrightarrow> length v' = length v"
  by (auto simp add: write_slice_def split: if_splits)

lemma copy_variable_structure:
  assumes "copy_variable x v = (e, v')"
  shows "structure_of_variable v' = structure_of_variable v"
proof (cases "change_of_variables v")
  case None
  obtain e1 ts where f: "fold_throw (\<lambda>i ts. if global_index v + i < length x
                                    then set_at ts i (x ! (global_index v + i))
                                    else (Some OutOfBounds, ts))
                  [0..<nat (user_dimension v)] (temp_space v) = (e1, ts)" by fastforce
  have "length ts = length (temp_space v)"
    by (rule fold_throw_invariant [OF f, where P = "\<lambda>t. length t = length (temp_space v)"])
       (auto split: if_splits dest: set_at_length)
  with assms None f show ?thesis
    by (auto simp add: copy_variable_def structure_of_variable_def)
next
  case (Some c)
  with assms show ?thesis
    by (auto simp add: copy_variable_def structure_of_variable_def
        split: sum.splits prod.splits option.splits dest: write_slice_length)
qed

lemma copy_variables_structure:
  "copy_variables x vs = (e, vs') \<Longrightarrow>
     map (\<lambda>(p, v). (p, structure_of_variable v)) vs' =
     map (\<lambda>(p, v). (p, structure_of_variable v)) vs"
proof (induction vs arbitrary: e vs')
  case Nil
  then show ?case by simp
next
  case (Cons pv vs)
  obtain p v where pv: "pv = (p, v)" by (cases pv) auto
  obtain e1 v1 where c: "copy_variable x v = (e1, v1)" by fastforce
  obtain e2 vs2 where r: "copy_variables x vs = (e2, vs2)" by fastforce
  from Cons.IH [OF r] copy_variable_structure [OF c] Cons.prems c r show ?case
    by (cases e1) (auto simp add: pv)
qed

lemma copy_global_to_local_structure:
  "copy_global_to_local x f = (e, f') \<Longrightarrow> structure_of f' = structure_of f"
  by (auto simp add: copy_global_to_local_def structure_of_def split: prod.splits
      dest: copy_variables_structure)

lemma fill_hessian_shape:
  "map (map (map (map (\<lambda>a. 0)))) (fill_hessian h st) = map (map (map (map (\<lambda>a. (0::real))))) st"
  unfolding fill_hessian_def
  by (auto intro!: nth_equalityI)

lemma evaluate_term_structure:
  assumes "evaluate_term wh sv i (v, f) = (e, (v', f'))" and "i < length (terms f)"
  shows "structure_of f' = structure_of f"
proof -
  have u: "map structure_of_term ((terms f)[i := a']) = map structure_of_term (terms f)"
    if "structure_of_term a' = structure_of_term (terms f ! i)" for a'
    using that assms(2) by (simp add: map_update list_update_same_conv)
  have s1: "structure_of_term ((terms f ! i)\<lparr>hessian := fill_hessian h (hessian (terms f ! i))\<rparr>) =
      structure_of_term (terms f ! i)" for h
    by (simp add: structure_of_term_def fill_hessian_shape)
  from assms(1) show ?thesis
    by (auto simp add: evaluate_term_def Let_def structure_of_def u s1
        split: sum.splits prod.splits if_splits option.splits)
qed

lemma evaluate_term_length:
  "evaluate_term wh sv i (v, f) = (e, (v', f')) \<Longrightarrow> length (terms f') = length (terms f)"
  by (auto simp add: evaluate_term_def Let_def split: sum.splits prod.splits if_splits option.splits)

lemma evaluate_terms_structure:
  assumes "evaluate_terms wh sv f = (e, (v', f'))"
  shows "structure_of f' = structure_of f"
proof -
  have "structure_of (snd (v', f')) = structure_of f \<and> length (terms (snd (v', f'))) = length (terms f)"
    using assms unfolding evaluate_terms_def
  proof (rule fold_throw_invariant
      [where P = "\<lambda>s. structure_of (snd s) = structure_of f \<and> length (terms (snd s)) = length (terms f)"])
    show "structure_of (snd (0::real, f)) = structure_of f \<and>
          length (terms (snd (0::real, f))) = length (terms f)" by simp
  next
    fix a t e' t'
    assume a: "a \<in> set [0..<length (terms f)]"
      and p: "structure_of (snd t) = structure_of f \<and> length (terms (snd t)) = length (terms f)"
      and b: "evaluate_term wh sv a t = (e', t')"
    obtain v1 f1 where t: "t = (v1, f1)" by (cases t) auto
    obtain v2 f2 where t': "t' = (v2, f2)" by (cases t') auto
    from a p t have "a < length (terms f1)" by simp
    from evaluate_term_structure [OF b [unfolded t t'] this] evaluate_term_length [OF b [unfolded t t']] p
    show "structure_of (snd t') = structure_of f \<and> length (terms (snd t')) = length (terms f)"
      by (simp add: t t')
  qed
  then show ?thesis by simp
qed

lemma find_variable_structure:
  "find_variable (structure_of f) p = map_option structure_of_variable (find_variable f p)"
  by (simp add: find_variable_def structure_of_def map_of_map [unfolded comp_def split_def] split_def)

lemma bindings_without_transform_structure:
  "bindings_without_transform (structure_of f) = bindings_without_transform f"
proof -
  have 1: "terms (structure_of f) = map structure_of_term (terms f)"
    by (simp add: structure_of_def)
  have 2: "user_variables (structure_of_term a) = user_variables a" for a
    by (simp add: structure_of_term_def)
  have 3: "(\<lambda>v. case change_of_variables v of None \<Rightarrow> True | Some c \<Rightarrow> False) \<circ>
             structure_of_variable =
           (\<lambda>v. case change_of_variables v of None \<Rightarrow> True | Some c \<Rightarrow> False)"
    by (simp add: fun_eq_iff structure_of_variable_def)
  show ?thesis
    by (simp add: bindings_without_transform_def 1 2 3 find_variable_structure list_all_iff
        cong: option.case_cong)
qed

lemma bindings_without_transform_cong:
  "structure_of f' = structure_of f \<Longrightarrow> bindings_without_transform f' = bindings_without_transform f"
  using bindings_without_transform_structure [of f] bindings_without_transform_structure [of f']
  by simp

lemma number_of_scalars_cong:
  "structure_of f' = structure_of f \<Longrightarrow> number_of_scalars f' = number_of_scalars f"
proof -
  assume "structure_of f' = structure_of f"
  then have "number_of_scalars (structure_of f') = number_of_scalars (structure_of f)" by simp
  then show ?thesis by (simp add: structure_of_def)
qed

lemma evaluate_term_dense_sparse:
  assumes "bindings_without_transform f" and "i < length (terms f)"
  shows "evaluate_term True scatter_variable_sparse i (v, f\<lparr>number_of_hessian_elements := 0\<rparr>) =
     (case evaluate_term True (scatter_variable_dense x) i (v, f) of
        (e, (v', f')) \<Rightarrow> (e, (v', f'\<lparr>number_of_hessian_elements := 0\<rparr>)))"
proof -
  define added where "added = terms f ! i"
  have mem: "added \<in> set (terms f)" using assms(2) by (simp add: added_def)
  have plain: "scatter_gradient (scatter_variable_dense x) f (added\<lparr>hessian := h\<rparr>) g s =
      scatter_gradient scatter_variable_sparse f (added\<lparr>hessian := h\<rparr>) g s" for h g s
  proof (rule scatter_gradient_plain)
    fix var w
    assume "user_variable f (added\<lparr>hessian := h\<rparr>) var = Inr w"
    then have "user_variable f added var = Inr w"
      by (simp add: user_variable_def split: if_splits)
    from bindings_without_transformD [OF assms(1) mem this]
    show "change_of_variables w = None" .
  qed
  show ?thesis
    by (cases "term_arguments f (user_variables added)")
       (auto simp add: evaluate_term_def Let_def added_def [symmetric] plain
          split: prod.splits option.splits)
qed

lemma evaluate_terms_dense_sparse:
  assumes "bindings_without_transform f"
  shows "evaluate_terms True scatter_variable_sparse (f\<lparr>number_of_hessian_elements := 0\<rparr>) =
     (case evaluate_terms True (scatter_variable_dense x) f of
        (e, (v', f')) \<Rightarrow> (e, (v', f'\<lparr>number_of_hessian_elements := 0\<rparr>)))"
proof -
  define R where "R = (\<lambda>(s :: real \<times> Function) (t :: real \<times> Function).
     fst t = fst s \<and> snd t = (snd s)\<lparr>number_of_hessian_elements := 0\<rparr> \<and>
     structure_of (snd s) = structure_of f \<and> length (terms (snd s)) = length (terms f))"
  have r0: "R (0, f) (0, f\<lparr>number_of_hessian_elements := 0\<rparr>)" by (simp add: R_def)
  have step: "fst (evaluate_term True (scatter_variable_dense x) a s) =
                fst (evaluate_term True scatter_variable_sparse a t) \<and>
              R (snd (evaluate_term True (scatter_variable_dense x) a s))
                (snd (evaluate_term True scatter_variable_sparse a t))"
    if a: "a \<in> set [0..<length (terms f)]" and r: "R s t" for a s t
  proof -
    obtain v1 f1 where s: "s = (v1, f1)" by (cases s) auto
    from r s have t: "t = (v1, f1\<lparr>number_of_hessian_elements := 0\<rparr>)"
      and st: "structure_of f1 = structure_of f" and len: "length (terms f1) = length (terms f)"
      by (auto simp add: R_def prod_eq_iff)
    have b: "bindings_without_transform f1"
      using bindings_without_transform_cong [OF st] assms by simp
    have i: "a < length (terms f1)" using a len by simp
    obtain e v2 f2 where d: "evaluate_term True (scatter_variable_dense x) a (v1, f1) = (e, (v2, f2))"
      by (metis surj_pair)
    from evaluate_term_dense_sparse [OF b i, of v1 x] d
    have sp: "evaluate_term True scatter_variable_sparse a (v1, f1\<lparr>number_of_hessian_elements := 0\<rparr>) =
        (e, (v2, f2\<lparr>number_of_hessian_elements := 0\<rparr>))" by simp
    from evaluate_term_structure [OF d i] evaluate_term_length [OF d] st len d sp
    show ?thesis by (simp add: s t R_def)
  qed
  from fold_throw_rel [of R "(0, f)" "(0, f\<lparr>number_of_hessian_elements := 0\<rparr>)"
      "[0..<length (terms f)]" "evaluate_term True (scatter_variable_dense x)"
      "evaluate_term True scatter_variable_sparse", OF r0 step]
  show ?thesis
    by (auto simp add: evaluate_terms_def R_def prod_eq_iff split: prod.splits)
qed

lemma zero_matrix_nth: "r < n \<Longrightarrow> c < m \<Longrightarrow> zero_matrix n m ! r ! c = 0"
  by (simp add: zero_matrix_def)

lemma hessian_stage:
  assumes "bindings_without_transform f"
    and "sp_rows S = int (number_of_scalars f)" and "sp_cols S = int (number_of_scalars f)"
  shows "(case dense_hessian f of
            (Some e, H') \<Rightarrow> (Inl e :: error + real list list)
          | (None, H') \<Rightarrow> Inr H') =
         (case sparse_hessian f of
            (Some e, indices) \<Rightarrow> Inl e
          | (None, indices) \<Rightarrow>
              (case setFromTriplets indices S of
                 (Some e, S') \<Rightarrow> Inl e
               | (None, S') \<Rightarrow> Inr (densify S')))"
proof -
  let ?n = "number_of_scalars f"
  from assembles_hessian [OF assms(1)] obtain e1 new where
    e1: "e1 = None \<or> e1 = Some OutOfBounds"
    and nonneg: "list_all (\<lambda>(r, c, a). 0 \<le> r \<and> 0 \<le> c) new"
    and sp: "\<And>ts. fold_throw (sparse_hessian_term f) (terms f) ts = (e1, ts @ new)"
    and de: "\<And>H. fold_throw (dense_hessian_term f) (terms f) H =
               (case add_triplets new H of
                  (Some e, H') \<Rightarrow> (Some e, H') | (None, H') \<Rightarrow> (e1, H'))"
    unfolding assembles_def by blast
  have s: "sparse_hessian f = (e1, new)" using sp [of "[]"] by (simp add: sparse_hessian_def)
  have d: "dense_hessian f =
      (case add_triplets new (zero_matrix ?n ?n) of
         (Some e, H') \<Rightarrow> (Some e, H') | (None, H') \<Rightarrow> (e1, H'))"
    using de by (simp add: dense_hessian_def)
  have inside_eq: "list_all (triplet_inside S) new =
      list_all (\<lambda>(r, c, a). r < int ?n \<and> c < int ?n) new"
    using nonneg assms(2,3) by (auto simp add: list_all_iff triplet_inside_def)
  show ?thesis
  proof (cases "list_all (\<lambda>(r, c, a). r < int ?n \<and> c < int ?n) new")
    case False
    from add_triplets_outside [OF rectangular_zero nonneg False]
    obtain H' where "add_triplets new (zero_matrix ?n ?n) = (Some OutOfBounds, H')"
      by (cases "add_triplets new (zero_matrix ?n ?n)") auto
    with False inside_eq e1 show ?thesis
      by (auto simp add: s d setFromTriplets_def)
  next
    case True
    from add_triplets_inside [OF rectangular_zero nonneg True] obtain M' where
      M': "add_triplets new (zero_matrix ?n ?n) = (None, M')" "rectangular ?n ?n M'"
        "\<forall>r < ?n. \<forall>c < ?n.
           M' ! r ! c = zero_matrix ?n ?n ! r ! c + triplet_sum new (int r) (int c)"
      by blast
    define S' where "S' = S\<lparr>sp_coefficients := fold insert_triplet new []\<rparr>"
    have set: "setFromTriplets new S = (None, S')"
      using True inside_eq by (simp add: setFromTriplets_def S'_def)
    have rect: "rectangular ?n ?n (densify S')"
      using rectangular_densify [of S'] assms(2,3) by (simp add: S'_def)
    have "M' = densify S'"
    proof (rule rectangular_eqI [OF M'(2) rect])
      fix r c assume b: "r < ?n" "c < ?n"
      have "densify S' ! r ! c = sparse_coeff S' (int r) (int c)"
        using b assms(2,3) by (simp add: densify_def S'_def)
      also have "\<dots> = triplet_sum new (int r) (int c)"
        using coefficient_fold_insert [of new "[]" "int r" "int c"]
        by (simp add: sparse_coeff_def S'_def)
      finally show "M' ! r ! c = densify S' ! r ! c"
        using M'(3) b by (simp add: zero_matrix_nth)
    qed
    with M'(1) set e1 show ?thesis by (auto simp add: s d)
  qed
qed

lemma structure_of_storage [simp]:
  "structure_of (f\<lparr>thread_gradient_storage := s\<rparr>) = structure_of f"
  "structure_of (f\<lparr>local_storage_allocated := b\<rparr>) = structure_of f"
  "structure_of (f\<lparr>number_of_hessian_elements := k\<rparr>) = structure_of f"
  by (simp_all add: structure_of_def)

lemma structure_of_allocate [simp]:
  "structure_of (allocate_local_storage f) = structure_of f"
  by (simp add: allocate_local_storage_def)

text \<open>
  C2, as amended. Let no argument variable of any binding have a transform, and let
  the sparse target have \<open>number_of_scalars\<close> rows and columns (as
  \<open>create_sparse_hessian\<close> leaves it; the sparse \<open>evaluate\<close> does not resize its
  target). Then, for every \<open>x\<close>, the dense \<open>evaluate\<close> with a Hessian destination and
  the sparse \<open>evaluate\<close> return the same value or fail with the same error; when they
  return, they leave the same gradient, and the dense Hessian is the sparse Hessian
  made dense. \<open>double\<close> being modelled by \<open>real\<close>, sums are exact.
\<close>

theorem dense_and_sparse_agree:
  assumes "bindings_without_transform f"
    and "sp_rows S = int (get_number_of_scalars f)"
    and "sp_cols S = int (get_number_of_scalars f)"
  shows "fst (evaluate_dense f x g (Some H)) = fst (evaluate_sparse f x g (Some S)) \<and>
    (\<forall>v. fst (evaluate_dense f x g (Some H)) = Inr v \<longrightarrow>
       fst (snd (evaluate_dense f x g (Some H))) = fst (snd (evaluate_sparse f x g (Some S))) \<and>
       fst (snd (snd (evaluate_dense f x g (Some H)))) =
         map_option densify (fst (snd (snd (evaluate_sparse f x g (Some S))))))"
proof (cases "hessian_is_enabled f")
  case False
  then show ?thesis by (simp add: evaluate_dense_def evaluate_sparse_def)
next
  case True
  define f1 where "f1 = (if \<not> local_storage_allocated f then allocate_local_storage f else f)"
  have s1: "structure_of f1 = structure_of f" by (simp add: f1_def)
  obtain e2 f2 where c2: "copy_global_to_local x f1 = (e2, f2)" by fastforce
  show ?thesis
  proof (cases e2)
    case (Some e)
    with True c2 show ?thesis
      by (simp add: evaluate_dense_def evaluate_sparse_def f1_def [symmetric])
  next
    case None
    define f3 where "f3 = f2\<lparr>thread_gradient_storage := setZero (thread_gradient_storage f2)\<rparr>"
    have f3': "f2\<lparr>number_of_hessian_elements := 0,
                 thread_gradient_storage := setZero (thread_gradient_storage f2)\<rparr> =
               f3\<lparr>number_of_hessian_elements := 0\<rparr>"
      by (simp add: f3_def)
    have s3: "structure_of f3 = structure_of f"
      using copy_global_to_local_structure [OF c2] s1 by (simp add: f3_def)
    have b3: "bindings_without_transform f3"
      using bindings_without_transform_cong [OF s3] assms(1) by simp
    obtain e4 v4 f4 where c4: "evaluate_terms True (scatter_variable_dense x) f3 = (e4, (v4, f4))"
      by (metis surj_pair)
    have c4': "evaluate_terms True scatter_variable_sparse (f3\<lparr>number_of_hessian_elements := 0\<rparr>) =
        (e4, (v4, f4\<lparr>number_of_hessian_elements := 0\<rparr>))"
      using evaluate_terms_dense_sparse [OF b3, of x] c4 by simp
    show ?thesis
    proof (cases e4)
      case (Some e)
      with True c2 None c4 c4' show ?thesis
        by (simp add: evaluate_dense_def evaluate_sparse_def f1_def [symmetric]
            f3_def [symmetric] f3')
    next
      case n4: None
      have s4: "structure_of f4 = structure_of f"
        using evaluate_terms_structure [OF c4] s3 by simp
      have b4: "bindings_without_transform f4"
        using bindings_without_transform_cong [OF s4] assms(1) by simp
      have n: "sp_rows S = int (number_of_scalars f4)" "sp_cols S = int (number_of_scalars f4)"
        using number_of_scalars_cong [OF s4] assms(2,3) by (simp_all add: get_number_of_scalars_def)
      note stage = hessian_stage [OF b4 n]
      obtain e5 g5 where c5: "create_global_gradient f4 g = (e5, g5)" by fastforce
      obtain e6 H6 where c6: "dense_hessian f4 = (e6, H6)" by fastforce
      obtain e7 ts where c7: "sparse_hessian f4 = (e7, ts)" by fastforce
      obtain e8 S8 where c8: "setFromTriplets ts S = (e8, S8)" by fastforce
      from True c2 None c4 c4' n4 c5 c6 c7 c8 stage show ?thesis
        by (cases e5; cases e6; cases e7; cases e8)
           (simp_all add: evaluate_dense_def evaluate_sparse_def f1_def [symmetric]
              f3_def [symmetric] f3')
    qed
  qed
qed

theorem dense_and_sparse_agree_witness:
  "fst (evaluate_dense coupled_function [3, 1, 2] [] (Some [])) = Inr 8 \<and>
   fst (evaluate_sparse coupled_function [3, 1, 2] [] (Some coupled_pattern)) = Inr 8 \<and>
   fst (snd (evaluate_dense coupled_function [3, 1, 2] [] (Some []))) = [4, - 4, 4] \<and>
   fst (snd (evaluate_sparse coupled_function [3, 1, 2] [] (Some coupled_pattern))) = [4, - 4, 4] \<and>
   fst (snd (snd (evaluate_dense coupled_function [3, 1, 2] [] (Some [])))) =
     Some [[2, - 2, 0], [- 2, 2, 0], [0, 0, 2]] \<and>
   map_option densify (fst (snd (snd (evaluate_sparse coupled_function [3, 1, 2] []
       (Some coupled_pattern))))) =
     Some [[2, - 2, 0], [- 2, 2, 0], [0, 0, 2]]"
proof -
  have h1: "bindings_without_transform coupled_function" by code_simp
  have h2: "sp_rows coupled_pattern = int (get_number_of_scalars coupled_function)"
    "sp_cols coupled_pattern = int (get_number_of_scalars coupled_function)"
    by code_simp+
  have d: "fst (evaluate_dense coupled_function [3, 1, 2] [] (Some [])) = Inr 8"
    "fst (snd (evaluate_dense coupled_function [3, 1, 2] [] (Some []))) = [4, - 4, 4]"
    "fst (snd (snd (evaluate_dense coupled_function [3, 1, 2] [] (Some [])))) =
       Some [[2, - 2, 0], [- 2, 2, 0], [0, 0, 2]]"
    by code_simp+
  from dense_and_sparse_agree [OF h1 h2, of "[3, 1, 2]" "[]" "[]"] d show ?thesis
    by simp
qed

text \<open>
  C2 as stated fails for a sparse target of another size: on the first concrete
  function, with three scalars, a target with four rows and columns is left with four
  rows and columns, while the dense Hessian has three.
\<close>

theorem sparse_target_not_resized_counterexample:
  "bindings_without_transform coupled_function \<and>
   fst (evaluate_dense coupled_function [3, 1, 2] [] (Some [])) = Inr 8 \<and>
   fst (evaluate_sparse coupled_function [3, 1, 2] [] (Some (empty_sparse 4 4))) = Inr 8 \<and>
   fst (snd (snd (evaluate_dense coupled_function [3, 1, 2] [] (Some [])))) =
     Some [[2, - 2, 0], [- 2, 2, 0], [0, 0, 2]] \<and>
   map_option densify (fst (snd (snd (evaluate_sparse coupled_function [3, 1, 2] []
       (Some (empty_sparse 4 4)))))) =
     Some [[2, - 2, 0, 0], [- 2, 2, 0, 0], [0, 0, 2, 0], [0, 0, 0, 0]]"
  by code_simp

subsection \<open>The sparsity pattern\<close>

lemma fold_throw_total:
  "fold_throw (\<lambda>a s. (None, g a s)) as s = (None, fold g as s)"
  by (induction as arbitrary: s) auto

lemma fold_throw_sim:
  assumes "fold_throw b1 as s = (None, s')" and "R s t"
    and "\<And>a s t s'. a \<in> set as \<Longrightarrow> R s t \<Longrightarrow> b1 a s = (None, s') \<Longrightarrow>
           \<exists>t'. b2 a t = (None, t') \<and> R s' t'"
  shows "\<exists>t'. fold_throw b2 as t = (None, t') \<and> R s' t'"
  using assms
proof (induction as arbitrary: s t)
  case Nil
  then show ?case by simp
next
  case (Cons a as)
  obtain e1 s1 where 1: "b1 a s = (e1, s1)" by fastforce
  with Cons.prems(1) have e1: "e1 = None" by (cases e1) auto
  from Cons.prems(3) [of a s t s1] Cons.prems(2) 1 e1 obtain t1 where
    2: "b2 a t = (None, t1)" "R s1 t1" by auto
  from Cons.prems(1) 1 e1 have 3: "fold_throw b1 as s1 = (None, s')" by simp
  have "\<exists>t'. fold_throw b2 as t1 = (None, t') \<and> R s' t'"
    by (rule Cons.IH [OF 3 2(2)]) (use Cons.prems(3) in auto)
  with 2(1) show ?case by simp
qed

lemma coordinates_append [simp]: "coordinates (xs @ ys) = coordinates xs @ coordinates ys"
  by (simp add: coordinates_def)

lemma push_pattern_block_fold_throw:
  "(None, push_pattern_block o0 o1 d0 d1 ps) =
     fold_throw (\<lambda>i. fold_throw (\<lambda>j ts. (None, ts @ [(int (i + o0), int (j + o1), 1)])) [0..<d1])
       [0..<d0] ps"
proof -
  have inner: "fold_throw (\<lambda>j ts. (None, ts @ [(int (i + o0), int (j + o1), 1 :: real)])) [0..<d1] =
      (\<lambda>ts. (None, fold (\<lambda>j ts. ts @ [(int (i + o0), int (j + o1), 1)]) [0..<d1] ts))" for i
    by (simp only: fun_eq_iff fold_throw_total) simp
  show ?thesis
    by (simp only: push_pattern_block_def inner fold_throw_total)
qed

lemma block_coordinates:
  assumes "push_hessian_block part o0 o1 d0 d1 ts = (None, ts')"
    and "coordinates ps = coordinates ts"
  shows "coordinates (push_pattern_block o0 o1 d0 d1 ps) = coordinates ts'"
proof -
  have "\<exists>ps'. fold_throw
          (\<lambda>i. fold_throw (\<lambda>j ts. (None, ts @ [(int (i + o0), int (j + o1), 1)])) [0..<d1])
          [0..<d0] ps = (None, ps') \<and> coordinates ps' = coordinates ts'"
  proof (rule fold_throw_sim [OF assms(1) [unfolded push_hessian_block_def],
        where R = "\<lambda>ts ps. coordinates ps = coordinates ts"])
    show "coordinates ps = coordinates ts" by (rule assms(2))
  next
    fix i s t s'
    assume r: "coordinates t = coordinates s"
      and b: "fold_throw (\<lambda>j ts. case matrix_at part i j of
                 Inl e \<Rightarrow> (Some e, ts)
               | Inr a \<Rightarrow> (None, ts @ [(int (i + o0), int (j + o1), a)])) [0..<d1] s = (None, s')"
    show "\<exists>t'. fold_throw (\<lambda>j ts. (None, ts @ [(int (i + o0), int (j + o1), 1)])) [0..<d1] t =
              (None, t') \<and> coordinates t' = coordinates s'"
    proof (rule fold_throw_sim [OF b, where R = "\<lambda>ts ps. coordinates ps = coordinates ts"])
      show "coordinates t = coordinates s" by (rule r)
    next
      fix j s t s'
      assume "coordinates t = coordinates s"
        and "(case matrix_at part i j of
                 Inl e \<Rightarrow> (Some e, s)
               | Inr a \<Rightarrow> (None, s @ [(int (i + o0), int (j + o1), a)])) = (None, s')"
      then show "\<exists>t'. (None, t @ [(int (i + o0), int (j + o1), 1)]) = (None, t') \<and>
          coordinates t' = coordinates s'"
        by (auto simp add: coordinates_def split: sum.splits)
    qed
  qed
  then show ?thesis using push_pattern_block_fold_throw [of o0 o1 d0 d1 ps] by auto
qed

lemma size_t_of_int_nat: "0 \<le> d \<Longrightarrow> size_t_of_int d = nat d"
  by (simp add: size_t_of_int_def)

lemma term_coordinates:
  assumes "sparse_hessian_term f added ts = (None, ts')"
    and "coordinates ps = coordinates ts"
    and "\<forall>var < nat (number_of_variables (added_term added)).
           0 \<le> variable_dimension (added_term added) (int var)"
  shows "\<exists>ps'. pattern_term f added ps = (None, ps') \<and> coordinates ps' = coordinates ts'"
  unfolding pattern_term_def Let_def
proof (rule fold_throw_sim [OF assms(1) [unfolded sparse_hessian_term_def Let_def],
      where R = "\<lambda>ts ps. coordinates ps = coordinates ts"])
  show "coordinates ps = coordinates ts" by (rule assms(2))
next
  let ?n = "nat (number_of_variables (added_term added))"
  let ?d = "\<lambda>var. variable_dimension (added_term added) (int var)"
  fix var0 s t s'
  assume var0: "var0 \<in> set [0..<?n]" and r: "coordinates t = coordinates s"
    and b: "(case user_variable f added var0 of
              Inl e \<Rightarrow> (Some e, s)
            | Inr v0 \<Rightarrow>
                fold_throw (\<lambda>var1 ts1.
                    case user_variable f added var1 of
                      Inl e \<Rightarrow> (Some e, ts1)
                    | Inr v1 \<Rightarrow>
                        (case hessian_block added var0 var1 of
                           Inl e \<Rightarrow> (Some e, ts1)
                         | Inr part_hessian \<Rightarrow>
                             push_hessian_block part_hessian (global_index v0) (global_index v1)
                               (nat (?d var0)) (nat (?d var1)) ts1))
                  [0..<?n] s) = (None, s')"
  from b obtain v0 where v0: "user_variable f added var0 = Inr v0"
    by (cases "user_variable f added var0") auto
  from var0 assms(3) have d0: "size_t_of_int (?d var0) = nat (?d var0)"
    by (simp add: size_t_of_int_nat)
  have "\<exists>t'. fold_throw (\<lambda>var1 ts1.
                  case user_variable f added var1 of
                    Inl e \<Rightarrow> (Some e, ts1)
                  | Inr v1 \<Rightarrow>
                      (None, push_pattern_block (global_index v0) (global_index v1)
                               (size_t_of_int (?d var0)) (size_t_of_int (?d var1)) ts1))
                [0..<?n] t = (None, t') \<and> coordinates t' = coordinates s'"
  proof (rule fold_throw_sim [OF b [unfolded v0, simplified],
        where R = "\<lambda>ts ps. coordinates ps = coordinates ts"])
    show "coordinates t = coordinates s" by (rule r)
  next
    fix var1 s t s'
    assume var1: "var1 \<in> set [0..<?n]" and r: "coordinates t = coordinates s"
      and b: "(case user_variable f added var1 of
                 Inl e \<Rightarrow> (Some e, s)
               | Inr v1 \<Rightarrow>
                   (case hessian_block added var0 var1 of
                      Inl e \<Rightarrow> (Some e, s)
                    | Inr part_hessian \<Rightarrow>
                        push_hessian_block part_hessian (global_index v0) (global_index v1)
                          (nat (?d var0)) (nat (?d var1)) s)) = (None, s')"
    from b obtain v1 where v1: "user_variable f added var1 = Inr v1"
      by (cases "user_variable f added var1") auto
    from b v1 obtain part where part: "hessian_block added var0 var1 = Inr part"
      by (cases "hessian_block added var0 var1") auto
    from var1 assms(3) have d1: "size_t_of_int (?d var1) = nat (?d var1)"
      by (simp add: size_t_of_int_nat)
    from b v1 part have "push_hessian_block part (global_index v0) (global_index v1)
                          (nat (?d var0)) (nat (?d var1)) s = (None, s')" by simp
    from block_coordinates [OF this r] v1 d0 d1
    show "\<exists>t'. (case user_variable f added var1 of
                 Inl e \<Rightarrow> (Some e, t)
               | Inr v1 \<Rightarrow>
                   (None, push_pattern_block (global_index v0) (global_index v1)
                            (size_t_of_int (?d var0)) (size_t_of_int (?d var1)) t)) = (None, t') \<and>
              coordinates t' = coordinates s'"
      by simp
  qed
  with v0 show "\<exists>t'. (case user_variable f added var0 of
              Inl e \<Rightarrow> (Some e, t)
            | Inr v0 \<Rightarrow>
                fold_throw (\<lambda>var1 ts1.
                    case user_variable f added var1 of
                      Inl e \<Rightarrow> (Some e, ts1)
                    | Inr v1 \<Rightarrow>
                        (None, push_pattern_block (global_index v0) (global_index v1)
                                 (size_t_of_int (?d var0)) (size_t_of_int (?d var1)) ts1))
                  [0..<?n] t) = (None, t') \<and> coordinates t' = coordinates s'"
    by simp
qed

lemma hessian_coordinates:
  assumes "sparse_hessian f = (None, ts)" and "declared_sizes_non_negative f"
  shows "\<exists>ps. pattern_indices f = (None, ps) \<and> coordinates ps = coordinates ts"
  unfolding pattern_indices_def
proof (rule fold_throw_sim [OF assms(1) [unfolded sparse_hessian_def],
      where R = "\<lambda>ts ps. coordinates ps = coordinates ts"])
  show "coordinates [] = coordinates []" by simp
next
  fix added s t s'
  assume "added \<in> set (terms f)" "coordinates t = coordinates s"
    "sparse_hessian_term f added s = (None, s')"
  then show "\<exists>t'. pattern_term f added t = (None, t') \<and> coordinates t' = coordinates s'"
    using term_coordinates [of f added s s' t] assms(2)
    by (auto simp add: declared_sizes_non_negative_def list_all_iff)
qed

lemma fold_invariant:
  assumes "P s" and "\<And>a t. a \<in> set as \<Longrightarrow> P t \<Longrightarrow> P (g a t)"
  shows "P (fold g as s)"
  using assms by (induction as arbitrary: s) auto

lemma push_pattern_block_ones:
  assumes "list_all (\<lambda>(r, c, a). a = 1) ps"
  shows "list_all (\<lambda>(r, c, a). a = 1) (push_pattern_block o0 o1 d0 d1 ps)"
  unfolding push_pattern_block_def
proof (rule fold_invariant [where P = "list_all (\<lambda>(r, c, a). a = 1)", OF assms])
  fix i and t :: "triplet list"
  assume "list_all (\<lambda>(r, c, a). a = 1) t"
  then show "list_all (\<lambda>(r, c, a). a = 1)
      (fold (\<lambda>j ts. ts @ [(int (i + o0), int (j + o1), 1)]) [0..<d1] t)"
    by (rule fold_invariant) (simp add: list_all_iff)
qed

lemma pattern_term_ones:
  assumes "pattern_term f added ps = (e, ps')" and "list_all (\<lambda>(r, c, a). a = 1) ps"
  shows "list_all (\<lambda>(r, c, a). a = 1) ps'"
  using assms(1) [unfolded pattern_term_def Let_def] assms(2)
proof (rule fold_throw_invariant [where P = "list_all (\<lambda>(r, c, a). a = 1)"])
  fix var0 t e' t'
  assume p: "list_all (\<lambda>(r, c, a). a = 1) t"
    and b: "(case user_variable f added var0 of
              Inl e \<Rightarrow> (Some e, t)
            | Inr v0 \<Rightarrow>
                fold_throw (\<lambda>var1 ts1.
                    case user_variable f added var1 of
                      Inl e \<Rightarrow> (Some e, ts1)
                    | Inr v1 \<Rightarrow>
                        (None, push_pattern_block (global_index v0) (global_index v1)
                           (size_t_of_int (variable_dimension (added_term added) (int var0)))
                           (size_t_of_int (variable_dimension (added_term added) (int var1))) ts1))
                  [0..<nat (number_of_variables (added_term added))] t) = (e', t')"
  show "list_all (\<lambda>(r, c, a). a = 1) t'"
  proof (cases "user_variable f added var0")
    case (Inl e)
    with b p show ?thesis by auto
  next
    case (Inr v0)
    with b have "fold_throw (\<lambda>var1 ts1.
                    case user_variable f added var1 of
                      Inl e \<Rightarrow> (Some e, ts1)
                    | Inr v1 \<Rightarrow>
                        (None, push_pattern_block (global_index v0) (global_index v1)
                           (size_t_of_int (variable_dimension (added_term added) (int var0)))
                           (size_t_of_int (variable_dimension (added_term added) (int var1))) ts1))
                  [0..<nat (number_of_variables (added_term added))] t = (e', t')" by simp
    then show ?thesis using p
      by (rule fold_throw_invariant [where P = "list_all (\<lambda>(r, c, a). a = 1)"])
         (auto split: sum.splits intro: push_pattern_block_ones)
  qed
qed

lemma pattern_indices_ones: "list_all (\<lambda>(r, c, a). a = 1) (snd (pattern_indices f))"
proof -
  obtain e ps where p: "pattern_indices f = (e, ps)" by fastforce
  have "list_all (\<lambda>(r, c, a). a = 1) ps"
    using p [unfolded pattern_indices_def]
    by (rule fold_throw_invariant [where P = "list_all (\<lambda>(r, c, a). a = 1)"])
       (auto intro: pattern_term_ones)
  with p show ?thesis by simp
qed

lemma fold_throw_map: "fold_throw body (map h as) s = fold_throw (\<lambda>a. body (h a)) as s"
  by (induction as arbitrary: s) (auto split: prod.splits option.splits)

lemma user_variable_structure:
  "user_variable (structure_of f) (structure_of_term added) var =
     (case user_variable f added var of Inl e \<Rightarrow> Inl e | Inr v \<Rightarrow> Inr (structure_of_variable v))"
  by (auto simp add: user_variable_def deref_variable_def find_variable_structure
      structure_of_term_def split: option.splits)

lemma pattern_term_structure:
  "pattern_term (structure_of f) (structure_of_term added) = pattern_term f added"
proof -
  have 1: "global_index (structure_of_variable v) = global_index v" for v
    by (simp add: structure_of_variable_def)
  have 2: "number_of_variables (added_term (structure_of_term added)) =
             number_of_variables (added_term added)"
    "variable_dimension (added_term (structure_of_term added)) =
       variable_dimension (added_term added)"
    by (simp_all add: structure_of_term_def)
  show ?thesis
    by (simp add: fun_eq_iff pattern_term_def Let_def user_variable_structure 1 2
        sum.case_distrib [of "\<lambda>u. case_sum _ _ u"] cong: sum.case_cong)
qed

lemma pattern_indices_structure: "pattern_indices (structure_of f) = pattern_indices f"
proof -
  have "terms (structure_of f) = map structure_of_term (terms f)"
    by (simp add: structure_of_def)
  then show ?thesis
    by (simp add: pattern_indices_def fold_throw_map pattern_term_structure)
qed

lemma pattern_indices_cong:
  "structure_of f' = structure_of f \<Longrightarrow> pattern_indices f' = pattern_indices f"
  using pattern_indices_structure [of f] pattern_indices_structure [of f'] by simp

lemma declared_sizes_structure:
  "declared_sizes_non_negative (structure_of f) = declared_sizes_non_negative f"
  by (simp add: declared_sizes_non_negative_def structure_of_def structure_of_term_def
      list_all_iff)

lemma declared_sizes_cong:
  "structure_of f' = structure_of f \<Longrightarrow>
     declared_sizes_non_negative f' = declared_sizes_non_negative f"
  using declared_sizes_structure [of f] declared_sizes_structure [of f'] by simp

lemma evaluate_sparse_returns:
  assumes "evaluate_sparse f x g (Some S) = (Inr v, g', S', f')"
  shows "\<exists>f4 ts. structure_of f4 = structure_of f \<and> sparse_hessian f4 = (None, ts) \<and>
           sparse_evaluate_indices f x g = Some ts \<and>
           setFromTriplets ts S = (None, S\<lparr>sp_coefficients := fold insert_triplet ts []\<rparr>) \<and>
           S' = Some (S\<lparr>sp_coefficients := fold insert_triplet ts []\<rparr>) \<and>
           number_of_hessian_elements f' = length ts"
proof (cases "hessian_is_enabled f")
  case False
  with assms show ?thesis by (simp add: evaluate_sparse_def)
next
  case True
  define f1 where "f1 = (if \<not> local_storage_allocated f then allocate_local_storage f else f)"
  have s1: "structure_of f1 = structure_of f" by (simp add: f1_def)
  obtain e2 f2 where c2: "copy_global_to_local x f1 = (e2, f2)" by fastforce
  define f3 where "f3 = f2\<lparr>number_of_hessian_elements := 0,
      thread_gradient_storage := setZero (thread_gradient_storage f2)\<rparr>"
  have s3: "structure_of f3 = structure_of f"
    using copy_global_to_local_structure [OF c2] s1 by (simp add: f3_def)
  obtain e4 v4 f4 where c4: "evaluate_terms True scatter_variable_sparse f3 = (e4, (v4, f4))"
    by (metis surj_pair)
  have s4: "structure_of f4 = structure_of f"
    using evaluate_terms_structure [OF c4] s3 by simp
  obtain e5 g5 where c5: "create_global_gradient f4 g = (e5, g5)" by fastforce
  obtain e6 ts where c6: "sparse_hessian f4 = (e6, ts)" by fastforce
  obtain e7 S7 where c7: "setFromTriplets ts S = (e7, S7)" by fastforce
  from assms True c2 c4 c5 c6 c7 have e: "e6 = None" "e7 = None" "S' = Some S7"
    "number_of_hessian_elements f' = length ts"
    by (cases e2; cases e4; cases e5; cases e6; cases e7;
        auto simp add: evaluate_sparse_def f1_def [symmetric] f3_def [symmetric])+
  from assms True c2 c4 c5 c6 c7 have i: "sparse_evaluate_indices f x g = Some ts"
    by (cases e2; cases e4; cases e5; cases e6; cases e7;
        auto simp add: evaluate_sparse_def sparse_evaluate_indices_def
          f1_def [symmetric] f3_def [symmetric])
  from c7 e(2) have "S7 = S\<lparr>sp_coefficients := fold insert_triplet ts []\<rparr>"
    by (auto simp add: setFromTriplets_def split: if_splits)
  with s4 c6 c7 e i show ?thesis by blast
qed

lemma sparse_evaluate_indices_returns:
  assumes "sparse_evaluate_indices f x g = Some ts"
  shows "\<exists>f4. structure_of f4 = structure_of f \<and> sparse_hessian f4 = (None, ts)"
proof (cases "hessian_is_enabled f")
  case False
  with assms show ?thesis by (simp add: sparse_evaluate_indices_def)
next
  case True
  define f1 where "f1 = (if \<not> local_storage_allocated f then allocate_local_storage f else f)"
  have s1: "structure_of f1 = structure_of f" by (simp add: f1_def)
  obtain e2 f2 where c2: "copy_global_to_local x f1 = (e2, f2)" by fastforce
  define f3 where "f3 = f2\<lparr>number_of_hessian_elements := 0,
      thread_gradient_storage := setZero (thread_gradient_storage f2)\<rparr>"
  have s3: "structure_of f3 = structure_of f"
    using copy_global_to_local_structure [OF c2] s1 by (simp add: f3_def)
  obtain e4 v4 f4 where c4: "evaluate_terms True scatter_variable_sparse f3 = (e4, (v4, f4))"
    by (metis surj_pair)
  have s4: "structure_of f4 = structure_of f"
    using evaluate_terms_structure [OF c4] s3 by simp
  obtain e5 g5 where c5: "create_global_gradient f4 g = (e5, g5)" by fastforce
  obtain e6 ts' where c6: "sparse_hessian f4 = (e6, ts')" by fastforce
  from assms True c2 c4 c5 c6 have "e6 = None \<and> ts' = ts"
    by (cases e2; cases e4; cases e5; cases e6;
        auto simp add: sparse_evaluate_indices_def f1_def [symmetric] f3_def [symmetric])
  with s4 c6 show ?thesis by blast
qed

lemma evaluate_sparse_from_indices:
  assumes "sparse_evaluate_indices f x g = Some ts"
  shows "fst (snd (snd (evaluate_sparse f x g (Some S)))) = Some (snd (setFromTriplets ts S)) \<and>
         ((\<exists>v. fst (evaluate_sparse f x g (Some S)) = Inr v) = list_all (triplet_inside S) ts)"
proof (cases "hessian_is_enabled f")
  case False
  with assms show ?thesis by (simp add: sparse_evaluate_indices_def)
next
  case True
  define f1 where "f1 = (if \<not> local_storage_allocated f then allocate_local_storage f else f)"
  obtain e2 f2 where c2: "copy_global_to_local x f1 = (e2, f2)" by fastforce
  define f3 where "f3 = f2\<lparr>number_of_hessian_elements := 0,
      thread_gradient_storage := setZero (thread_gradient_storage f2)\<rparr>"
  obtain e4 v4 f4 where c4: "evaluate_terms True scatter_variable_sparse f3 = (e4, (v4, f4))"
    by (metis surj_pair)
  obtain e5 g5 where c5: "create_global_gradient f4 g = (e5, g5)" by fastforce
  obtain e6 ts' where c6: "sparse_hessian f4 = (e6, ts')" by fastforce
  from assms True c2 c4 c5 c6 have e: "e2 = None" "e4 = None" "e5 = None" "e6 = None" "ts' = ts"
    by (cases e2; cases e4; cases e5; cases e6;
        auto simp add: sparse_evaluate_indices_def f1_def [symmetric] f3_def [symmetric])+
  with True c2 c4 c5 c6 show ?thesis
    by (auto simp add: evaluate_sparse_def f1_def [symmetric] f3_def [symmetric]
        setFromTriplets_def)
qed

lemma ones_coordinates:
  "list_all (\<lambda>(r, c, a). a = 1) ps \<Longrightarrow> coordinates ps = coordinates ts \<Longrightarrow>
     ps = map (\<lambda>(r, c, a). (r, c, 1)) ts"
  by (induction ps arbitrary: ts) (auto simp add: coordinates_def)

lemma insert_triplet_keys:
  "map fst cs1 = map fst cs2 \<Longrightarrow>
   map fst (insert_triplet (r, c, a1) cs1) = map fst (insert_triplet (r, c, a2) cs2)"
proof (induction cs1 arbitrary: cs2)
  case Nil
  then show ?case by simp
next
  case (Cons k cs1)
  from Cons.prems obtain k' cs2' where cs2: "cs2 = k' # cs2'" "fst k' = fst k"
    "map fst cs1 = map fst cs2'" by (cases cs2) auto
  obtain r0 c0 b where k: "k = ((r0, c0), b)" by (cases k) auto
  with cs2(2) obtain b' where k': "k' = ((r0, c0), b')" by (cases k') auto
  from Cons.IH [OF cs2(3)] cs2(3) show ?case by (simp add: cs2(1) k k')
qed

lemma fold_insert_triplet_keys:
  "coordinates ps = coordinates ts \<Longrightarrow> map fst cs1 = map fst cs2 \<Longrightarrow>
   map fst (fold insert_triplet ps cs1) = map fst (fold insert_triplet ts cs2)"
proof (induction ps arbitrary: ts cs1 cs2)
  case Nil
  then show ?case by (simp add: coordinates_def)
next
  case (Cons p ps)
  from Cons.prems(1) obtain t ts' where ts: "ts = t # ts'" "coordinates ps = coordinates ts'"
    "(\<lambda>(r, c, a). (r, c)) p = (\<lambda>(r, c, a). (r, c)) t"
    by (cases ts) (auto simp add: coordinates_def)
  obtain r c a where p: "p = (r, c, a)" by (cases p) auto
  with ts(3) obtain a' where t: "t = (r, c, a')" by (cases t) auto
  from Cons.IH [OF ts(2) insert_triplet_keys [OF Cons.prems(2), of r c a a']]
  show ?case by (simp add: ts(1) p t)
qed

lemma triplet_inside_coordinates:
  "coordinates ps = coordinates ts \<Longrightarrow> sp_rows P = sp_rows S \<Longrightarrow> sp_cols P = sp_cols S \<Longrightarrow>
   list_all (triplet_inside P) ps = list_all (triplet_inside S) ts"
proof (induction ps arbitrary: ts)
  case Nil
  then show ?case by (simp add: coordinates_def)
next
  case (Cons p ps)
  from Cons.prems(1) obtain t ts' where ts: "ts = t # ts'" "coordinates ps = coordinates ts'"
    "(\<lambda>(r, c, a). (r, c)) p = (\<lambda>(r, c, a). (r, c)) t"
    by (cases ts) (auto simp add: coordinates_def)
  obtain r c a where p: "p = (r, c, a)" by (cases p) auto
  with ts(3) obtain a' where t: "t = (r, c, a')" by (cases t) auto
  from Cons.IH [OF ts(2) Cons.prems(2,3)] Cons.prems(2,3) show ?case
    by (simp add: ts(1) p t triplet_inside_def)
qed

lemma coordinates_length: "coordinates ps = coordinates ts \<Longrightarrow> length ps = length ts"
  by (metis coordinates_def length_map)

lemma create_sparse_hessian_structure:
  "fst (create_sparse_hessian (structure_of f) P0) = fst (create_sparse_hessian f P0) \<and>
   fst (snd (create_sparse_hessian (structure_of f) P0)) = fst (snd (create_sparse_hessian f P0))"
proof -
  have "number_of_scalars (structure_of f) = number_of_scalars f" by (simp add: structure_of_def)
  then show ?thesis
    by (simp add: create_sparse_hessian_def pattern_indices_structure split: prod.splits option.splits)
qed

text \<open>
  C9, as amended. \<open>create_sparse_hessian\<close> pushes only triplets with the value 1 and
  evaluates no term: its result is the same on the structure of the \<open>Function\<close>, from
  which the evaluation functions of the terms and every computed value are erased.
  Whenever the sparse \<open>evaluate\<close> gets to \<open>setFromTriplets\<close> with the coordinate list
  \<open>ts\<close>, on a \<open>Function\<close> whose terms declare non-negative dimensions, the triplets of
  \<open>create_sparse_hessian\<close> are those of \<open>ts\<close>, one by one in the same order (so with
  the same multiplicity for every coordinate), each with its value replaced by 1.
  An evaluation that returns has got there, has built its Hessian from that list, and
  has left its length in \<open>number_of_hessian_elements\<close>; if moreover the target has
  \<open>number_of_scalars\<close> rows and columns, \<open>create_sparse_hessian\<close> succeeds and stores
  the coordinates that the evaluation stores.
\<close>

theorem pattern_matches_sparse_evaluation:
  "list_all (\<lambda>(r, c, a). a = 1) (snd (pattern_indices f)) \<and>
   fst (create_sparse_hessian (structure_of f) P0) = fst (create_sparse_hessian f P0) \<and>
   fst (snd (create_sparse_hessian (structure_of f) P0)) = fst (snd (create_sparse_hessian f P0)) \<and>
   (declared_sizes_non_negative f \<and> sparse_evaluate_indices f x g = Some ts \<longrightarrow>
      pattern_indices f = (None, map (\<lambda>(r, c, a). (r, c, 1)) ts)) \<and>
   (evaluate_sparse f x g (Some S) = (Inr v, g', S', f') \<longrightarrow>
      (\<exists>ts. sparse_evaluate_indices f x g = Some ts \<and>
            S' = Some (S\<lparr>sp_coefficients := fold insert_triplet ts []\<rparr>) \<and>
            number_of_hessian_elements f' = length ts)) \<and>
   (declared_sizes_non_negative f \<and> evaluate_sparse f x g (Some S) = (Inr v, g', S', f') \<and>
    sp_rows S = int (number_of_scalars f) \<and> sp_cols S = int (number_of_scalars f) \<longrightarrow>
      fst (create_sparse_hessian f P0) = None \<and>
      map_option (\<lambda>M. map fst (sp_coefficients M)) S' =
        Some (map fst (sp_coefficients (fst (snd (create_sparse_hessian f P0))))))"
proof -
  have pattern: "pattern_indices f = (None, map (\<lambda>(r, c, a). (r, c, 1)) ts)"
    and pattern_coordinates: "coordinates (snd (pattern_indices f)) = coordinates ts"
    if sizes: "declared_sizes_non_negative f"
      and ix: "sparse_evaluate_indices f x g = Some ts" for ts
  proof -
    from sparse_evaluate_indices_returns [OF ix] obtain f4 where
      s4: "structure_of f4 = structure_of f" and sh: "sparse_hessian f4 = (None, ts)" by blast
    have "declared_sizes_non_negative f4" using declared_sizes_cong [OF s4] sizes by simp
    from hessian_coordinates [OF sh this] pattern_indices_cong [OF s4] obtain ps where
      ps: "pattern_indices f = (None, ps)" "coordinates ps = coordinates ts" by auto
    from pattern_indices_ones [of f] ps(1) have "list_all (\<lambda>(r, c, a). a = 1) ps" by simp
    from ones_coordinates [OF this ps(2)] ps
    show "pattern_indices f = (None, map (\<lambda>(r, c, a). (r, c, 1)) ts)"
      and "coordinates (snd (pattern_indices f)) = coordinates ts" by simp_all
  qed
  have returns: "\<exists>ts. sparse_evaluate_indices f x g = Some ts \<and>
            S' = Some (S\<lparr>sp_coefficients := fold insert_triplet ts []\<rparr>) \<and>
            number_of_hessian_elements f' = length ts"
    if ev: "evaluate_sparse f x g (Some S) = (Inr v, g', S', f')"
    using evaluate_sparse_returns [OF ev] by blast
  have stored: "fst (create_sparse_hessian f P0) = None \<and>
      map_option (\<lambda>M. map fst (sp_coefficients M)) S' =
        Some (map fst (sp_coefficients (fst (snd (create_sparse_hessian f P0)))))"
    if sizes: "declared_sizes_non_negative f"
      and ev: "evaluate_sparse f x g (Some S) = (Inr v, g', S', f')"
      and dims: "sp_rows S = int (number_of_scalars f) \<and> sp_cols S = int (number_of_scalars f)"
  proof -
    from evaluate_sparse_returns [OF ev] obtain ts where
      ix: "sparse_evaluate_indices f x g = Some ts"
      and set: "setFromTriplets ts S = (None, S\<lparr>sp_coefficients := fold insert_triplet ts []\<rparr>)"
      and S': "S' = Some (S\<lparr>sp_coefficients := fold insert_triplet ts []\<rparr>)"
      by blast
    define ps where "ps = snd (pattern_indices f)"
    from pattern [OF sizes ix] pattern_coordinates [OF sizes ix]
    have ps: "pattern_indices f = (None, ps)" "coordinates ps = coordinates ts"
      by (simp_all add: ps_def)
    define P where "P = sparse_resize (int (number_of_scalars f)) (int (number_of_scalars f)) P0"
    have inside: "list_all (triplet_inside S) ts"
      using set by (auto simp add: setFromTriplets_def split: if_splits)
    have "list_all (triplet_inside P) ps = list_all (triplet_inside S) ts"
      by (rule triplet_inside_coordinates [OF ps(2)]) (simp_all add: P_def sparse_resize_def dims)
    with inside have "setFromTriplets ps P = (None, P\<lparr>sp_coefficients := fold insert_triplet ps []\<rparr>)"
      by (simp add: setFromTriplets_def)
    with ps(1) have c: "fst (create_sparse_hessian f P0) = None"
      "fst (snd (create_sparse_hessian f P0)) = P\<lparr>sp_coefficients := fold insert_triplet ps []\<rparr>"
      by (simp_all add: create_sparse_hessian_def P_def [symmetric])
    from fold_insert_triplet_keys [OF ps(2), of "[]" "[]"] c S' show ?thesis by simp
  qed
  from pattern_indices_ones [of f] create_sparse_hessian_structure [of f P0] pattern returns stored
  show ?thesis by blast
qed

theorem pattern_matches_sparse_evaluation_witness:
  "declared_sizes_non_negative coupled_function \<and>
   sparse_evaluate_indices coupled_function [3, 1, 2] [] =
     Some [(0, 0, 2), (0, 1, - 2), (0, 2, 0), (1, 0, - 2), (2, 0, 0),
           (1, 1, 2), (1, 2, 0), (2, 1, 0), (2, 2, 2)] \<and>
   pattern_indices coupled_function =
     (None, [(0, 0, 1), (0, 1, 1), (0, 2, 1), (1, 0, 1), (2, 0, 1),
             (1, 1, 1), (1, 2, 1), (2, 1, 1), (2, 2, 1)]) \<and>
   fst (evaluate_sparse coupled_function [3, 1, 2] [] (Some coupled_pattern)) = Inr 8 \<and>
   fst (create_sparse_hessian coupled_function (empty_sparse 0 0)) = None \<and>
   number_of_hessian_elements
     (snd (snd (snd (evaluate_sparse coupled_function [3, 1, 2] [] (Some coupled_pattern))))) = 9 \<and>
   map_option (\<lambda>M. map fst (sp_coefficients M))
     (fst (snd (snd (evaluate_sparse coupled_function [3, 1, 2] [] (Some coupled_pattern))))) =
     Some (map fst (sp_coefficients coupled_pattern))"
proof -
  define r where "r = evaluate_sparse coupled_function [3, 1, 2] [] (Some coupled_pattern)"
  define ts :: "triplet list" where
    "ts = [(0, 0, 2), (0, 1, - 2), (0, 2, 0), (1, 0, - 2), (2, 0, 0),
           (1, 1, 2), (1, 2, 0), (2, 1, 0), (2, 2, 2)]"
  have h1: "declared_sizes_non_negative coupled_function" by code_simp
  have h0: "sparse_evaluate_indices coupled_function [3, 1, 2] [] = Some ts"
    unfolding ts_def by code_simp
  have v: "fst (evaluate_sparse coupled_function [3, 1, 2] [] (Some coupled_pattern)) = Inr 8"
    by code_simp
  then have h2: "evaluate_sparse coupled_function [3, 1, 2] [] (Some coupled_pattern) =
      (Inr 8, fst (snd r), fst (snd (snd r)), snd (snd (snd r)))"
    by (simp add: r_def prod_eq_iff)
  have h3: "sp_rows coupled_pattern = int (number_of_scalars coupled_function)"
    "sp_cols coupled_pattern = int (number_of_scalars coupled_function)"
    by code_simp+
  from pattern_matches_sparse_evaluation [of coupled_function "empty_sparse 0 0" "[3, 1, 2]" "[]"
      ts coupled_pattern 8 "fst (snd r)" "fst (snd (snd r))" "snd (snd (snd r))"] h0 h1 h2 h3
  have "pattern_indices coupled_function = (None, map (\<lambda>(r, c, a). (r, c, 1)) ts)"
    "number_of_hessian_elements (snd (snd (snd r))) = length ts"
    "fst (create_sparse_hessian coupled_function (empty_sparse 0 0)) = None"
    "map_option (\<lambda>M. map fst (sp_coefficients M)) (fst (snd (snd r))) =
       Some (map fst (sp_coefficients (fst (snd (create_sparse_hessian coupled_function
          (empty_sparse 0 0))))))"
    by auto
  with h0 h1 v show ?thesis by (simp add: r_def coupled_pattern_def ts_def)
qed

text \<open>
  C9 as stated fails on a term graph whose sparse evaluation throws. On the second
  concrete function, whose argument has a transform, \<open>create_sparse_hessian\<close> succeeds
  and enumerates the coordinate \<open>(0, 0)\<close>, while the sparse \<open>evaluate\<close> throws
  \<open>UnsupportedTransformForHessian\<close> in the term loop, never gets to
  \<open>setFromTriplets\<close> and leaves its target as it was.
\<close>

theorem pattern_without_evaluation_counterexample:
  "fst (create_sparse_hessian doubled_function (empty_sparse 0 0)) = None \<and>
   pattern_indices doubled_function = (None, [(0, 0, 1)]) \<and>
   map fst (sp_coefficients (fst (snd (create_sparse_hessian doubled_function (empty_sparse 0 0))))) =
     [(0, 0)] \<and>
   fst (evaluate_sparse doubled_function [3] [] (Some (empty_sparse 1 1))) =
     Inl UnsupportedTransformForHessian \<and>
   sparse_evaluate_indices doubled_function [3] [] = None \<and>
   map_option sp_coefficients
     (fst (snd (snd (evaluate_sparse doubled_function [3] [] (Some (empty_sparse 1 1)))))) =
     Some []"
  by code_simp

text \<open>
  The loops of \<open>create_sparse_hessian\<close> compare \<open>size_t\<close> variables with the \<open>int\<close>
  that \<open>variable_dimension\<close> returns, those of the sparse \<open>evaluate\<close> compare \<open>int\<close>
  with \<open>int\<close>. For a term that declares the dimension \<open>-1\<close> the evaluation pushes
  nothing and the pattern has \<open>(2^64 - 1)^2\<close> triplets.
\<close>

lemma fold_append_length:
  "length (fold (\<lambda>j ts. ts @ [h j]) js ts) = length ts + length js"
  by (induction js arbitrary: ts) auto

lemma push_pattern_block_length:
  "length (push_pattern_block o0 o1 d0 d1 ts) = length ts + d0 * d1"
proof -
  have "length (fold (\<lambda>i. fold (\<lambda>j ts. ts @ [(int (i + o0), int (j + o1), 1 :: real)]) js) is ts) =
      length ts + length is * length js" for "is" js :: "nat list"
    by (induction "is" arbitrary: ts) (auto simp add: fold_append_length)
  from this [of "[0..<d1]" "[0..<d0]"] show ?thesis by (simp add: push_pattern_block_def)
qed

lemma negative_function_fields:
  "terms negative_function =
     [\<lparr>added_term = negative_term, user_variables = [block_a], hessian = [[[]]]\<rparr>]"
  "find_variable negative_function block_a =
     Some \<lparr>user_dimension = - 1, solver_dimension = - 1, global_index = 0,
           change_of_variables = None, temp_space = []\<rparr>"
  by (simp_all add: negative_function_def add_term_def add_variable_def add_variable_internal_def
      find_variable_def Function_new_def allocate_variable_def AddedVariable_new_def Let_def
      negative_term_def allocate_hessian_def)

lemma negative_dimension_pattern:
  "\<not> declared_sizes_non_negative negative_function \<and>
   sparse_evaluate_indices negative_function [] [] = Some [] \<and>
   fst (evaluate_sparse negative_function [] [] (Some (empty_sparse 0 0))) = Inr 0 \<and>
   fst (pattern_indices negative_function) = None \<and>
   length (snd (pattern_indices negative_function)) = (2 ^ 64 - 1) * (2 ^ 64 - 1)"
proof -
  have a: "\<not> declared_sizes_non_negative negative_function" by code_simp
  have b: "sparse_evaluate_indices negative_function [] [] = Some []" by code_simp
  have c: "fst (evaluate_sparse negative_function [] [] (Some (empty_sparse 0 0))) = Inr 0"
    by code_simp
  have p: "pattern_indices negative_function =
      (None, push_pattern_block 0 0 (size_t_of_int (- 1)) (size_t_of_int (- 1)) [])"
    by (simp add: pattern_indices_def pattern_term_def negative_function_fields user_variable_def
        deref_variable_def negative_term_def)
  have s: "size_t_of_int (- 1) = 2 ^ 64 - 1" by (simp add: size_t_of_int_def)
  from a b c p show ?thesis by (simp add: push_pattern_block_length s)
qed

subsection \<open>Hessians and transforms\<close>


































lemma user_variable_hessian [simp]:
  "user_variable f (added\<lparr>hessian := h\<rparr>) var = user_variable f added var"
  by (simp add: user_variable_def)


















text \<open>
  Consistent states are the ones the construction yields: the empty \<open>Function\<close> is
  consistent, the first registration of a variable with non-negative sizes and a
  size-keeping transform keeps the state consistent, and so does \<open>add_term\<close> with
  Hessian support enabled.
\<close>

lemma consistent_new: "consistent Function_new"
  by (simp add: consistent_def structurally_consistent_def Function_new_def)

lemma variable_consistent_mono:
  "variable_consistent n v \<Longrightarrow> n \<le> n' \<Longrightarrow> variable_consistent n' v"
  by (auto simp add: variable_consistent_def split: option.splits)

lemma binding_consistent_eq:
  assumes "\<And>p. p \<in> set (user_variables added) \<Longrightarrow> find_variable f' p = find_variable f p"
  shows "binding_consistent f' added = binding_consistent f added"
proof -
  have "argument_ok f' (added_term added) (user_variables added) k =
        argument_ok f (added_term added) (user_variables added) k"
    if "k < length (user_variables added)" for k
    using assms [of "user_variables added ! k"] that by (simp add: argument_ok_def)
  then show ?thesis by (auto simp add: binding_consistent_def list_all_iff)
qed

lemma binding_registered:
  assumes "binding_consistent f added" and "p \<in> set (user_variables added)"
  shows "find_variable f p \<noteq> None"
proof -
  from assms(2) obtain k where k: "k < length (user_variables added)" "p = user_variables added ! k"
    by (auto simp add: in_set_conv_nth)
  with assms(1) have "argument_ok f (added_term added) (user_variables added) k"
    by (simp add: binding_consistent_def list_all_iff)
  with k show ?thesis by (auto simp add: argument_ok_def split: option.splits)
qed

lemma add_new_variable_consistent:
  assumes "consistent f" and "find_variable f variable = None"
    and "fst (add_variable_internal variable dimension cov f) = None"
    and "sizes_non_negative (variable, dimension, cov)"
    and "int (number_of_scalars f) + requested_solver_dimension (variable, dimension, cov) < 2 ^ 64"
    and "case cov of None \<Rightarrow> True | Some c \<Rightarrow> transform_keeps_sizes c"
  shows "consistent (snd (add_variable_internal variable dimension cov f))"
proof -
  define sd where "sd = (case cov of None \<Rightarrow> dimension | Some c \<Rightarrow> t_dimension c)"
  define v' where "v' = \<lparr>user_dimension = dimension, solver_dimension = sd,
      global_index = number_of_scalars f, change_of_variables = cov,
      temp_space = replicate (nat dimension) 0\<rparr>"
  define f' where "f' = f\<lparr>local_storage_allocated := False,
      variables := map_insert variable v' (variables f),
      number_of_scalars := number_of_scalars f + nat sd\<rparr>"
  have sd: "0 \<le> sd" "0 \<le> dimension" "int (number_of_scalars f) + sd < 2 ^ 64"
    using assms(4,5)
    by (auto simp add: sd_def sizes_non_negative_def requested_solver_dimension_def
        split: option.splits)
  have res: "snd (add_variable_internal variable dimension cov f) = f'"
    using assms(2,3) sd
    by (auto simp add: add_variable_internal_def Let_def allocate_variable_def
        AddedVariable_new_def f'_def v'_def sd_def size_t_add_int_plain
        split: option.splits if_splits)
  from assms(1) have vs: "list_all (\<lambda>(p, v). variable_consistent (number_of_scalars f) v) (variables f)"
    and bs: "list_all (binding_consistent f) (terms f)"
    by (simp_all add: consistent_def structurally_consistent_def)
  have new: "variable_consistent (number_of_scalars f + nat sd) v'"
    using assms(3,6) sd assms(2)
    by (auto simp add: variable_consistent_def v'_def sd_def add_variable_internal_def Let_def
        allocate_variable_def split: option.splits if_splits)
  have 1: "list_all (\<lambda>(p, v). variable_consistent (number_of_scalars f') v) (variables f')"
    using vs new
    by (auto simp add: f'_def list_all_iff dest!: in_map_insertD
        intro: variable_consistent_mono)
  have find: "find_variable f' p = find_variable f p" if "p \<noteq> variable" for p
    using that by (simp add: find_variable_def f'_def map_of_map_insert)
  have 2: "list_all (binding_consistent f') (terms f')"
    unfolding list_all_iff
  proof
    fix added assume "added \<in> set (terms f')"
    then have a: "added \<in> set (terms f)" by (simp add: f'_def)
    with bs have b: "binding_consistent f added" by (simp add: list_all_iff)
    have "binding_consistent f' added = binding_consistent f added"
    proof (rule binding_consistent_eq)
      fix p assume "p \<in> set (user_variables added)"
      from binding_registered [OF b this] assms(2) have "p \<noteq> variable" by auto
      then show "find_variable f' p = find_variable f p" by (rule find)
    qed
    with b show "binding_consistent f' added" by simp
  qed
  from 1 2 show ?thesis
    by (simp add: res consistent_def structurally_consistent_def) (simp add: f'_def)
qed

lemma add_term_consistent:
  assumes "consistent f" and "hessian_is_enabled f" and "fst (add_term trm arguments f) = None"
  shows "consistent (snd (add_term trm arguments f))"
proof -
  let ?n = "nat (number_of_variables trm)"
  define added where "added = \<lparr> added_term = trm,
      user_variables = map (\<lambda>var. arguments ! var) [0..<?n],
      hessian = allocate_hessian trm \<rparr>"
  define f' where "f' = f\<lparr>local_storage_allocated := False, terms := terms f @ [added]\<rparr>"
  from assms(3) have arity: "number_of_variables trm = int (length arguments)"
    and chk: "check_arguments f trm arguments [0..<?n] = None"
    by (auto simp add: add_term_def Let_def check_arguments_flag split: if_splits option.splits)
  have res: "snd (add_term trm arguments f) = f'"
    using arity chk assms(2)
    by (simp add: add_term_def Let_def check_arguments_flag f'_def added_def)
  have uv: "user_variables added = arguments"
    using arity by (simp add: added_def map_nth)
  from check_arguments_None [OF chk] arity
  have ok: "\<forall>k < length arguments. argument_ok f trm arguments k" by simp
  have find: "find_variable f' = find_variable f" by (simp add: find_variable_def f'_def fun_eq_iff)
  have eq: "binding_consistent f' a = binding_consistent f a" for a
    by (rule binding_consistent_eq) (simp add: find)
  have new: "binding_consistent f added"
    using ok arity uv by (simp add: binding_consistent_def list_all_iff) (simp add: added_def)
  from assms(1) have "list_all (\<lambda>(p, v). variable_consistent (number_of_scalars f) v) (variables f)"
    and "list_all (binding_consistent f) (terms f)"
    by (simp_all add: consistent_def structurally_consistent_def)
  with new eq have "list_all (\<lambda>(p, v). variable_consistent (number_of_scalars f') v) (variables f')"
    and "list_all (binding_consistent f') (terms f')"
    by (simp_all add: f'_def list_all_iff)
  then show ?thesis
    by (simp add: res consistent_def structurally_consistent_def) (simp add: f'_def)
qed















text \<open>
  Both paths call the terms before they look at the transforms of the arguments (the
  sparse path in the same iteration of the term loop, the dense path after the whole
  loop), so a term that throws is what the caller sees.
\<close>

lemma term_failure_comes_first:
  "hessian_is_enabled throwing_function \<and> some_argument_transformed throwing_function \<and>
   fst (evaluate_sparse throwing_function [3] [] (Some (empty_sparse 1 1))) =
     Inl TermEvaluationFailure \<and>
   fst (evaluate_dense throwing_function [3] [] (Some [])) = Inl TermEvaluationFailure"
  by code_simp

text \<open>
  The dense path makes its check inside the assembly of the Hessian, binding by
  binding and \<open>var0\<close> by \<open>var0\<close>. A block of an earlier \<open>var0\<close> that is paired with a
  transformed \<open>var1\<close> is added first, at the offset of \<open>var1\<close> and with its user
  dimension; when the transform reduces the dimension of the last variable, that block
  does not fit into the Hessian. The sparse path makes its check in the term loop and
  throws as expected.
\<close>

lemma dense_hessian_writes_outside:
  "some_argument_transformed reduced_function \<and>
   get_number_of_scalars reduced_function = 2 \<and>
   fst (evaluate_gradient reduced_function [3, 1] []) = Inr 5 \<and>
   fst (evaluate_sparse reduced_function [3, 1] [] (Some (empty_sparse 2 2))) =
     Inl UnsupportedTransformForHessian \<and>
   fst (evaluate_dense reduced_function [3, 1] [] (Some [])) = Inl OutOfBounds"
  by code_simp

end
